(* ===== verification/NetLab_Prelude.thy ===== *)
theory NetLab_Prelude
  imports "HOL-Library.Word"
begin

text \<open>
  Shared ground of the development: the C integer types as words, the error values of the model,
  sequencing of fallible steps, and the generic lemmas on lists and words that the component
  theories use.

  A C statement that may fault or end the process is a value of type \<open>'a outcome\<close>:
  \<open>Inl e\<close> when it does not complete, \<open>Inr x\<close> with its result otherwise.
  Undefined behaviour of the source (an access outside the object it addresses) is a value too:
  \<open>BadRead\<close> or \<open>BadWrite\<close>.
\<close>

unbundle bit_operations_syntax

section \<open>Types\<close>

type_synonym u8 = "8 word"
type_synonym u16 = "16 word"
type_synonym u32 = "32 word"

datatype c_error =
    BadRead          \<comment> \<open>a load outside the object\<close>
  | BadWrite         \<comment> \<open>a store outside the object\<close>
  | ExitFailure string  \<comment> \<open>\<open>perror (s)\<close> followed by \<open>exit (EXIT_FAILURE)\<close>\<close>

type_synonym 'a outcome = "c_error + 'a"

section \<open>Sequencing\<close>

definition seqE :: "'a outcome \<Rightarrow> ('a \<Rightarrow> 'b outcome) \<Rightarrow> 'b outcome" where
  "seqE m f = (case m of Inl e \<Rightarrow> Inl e | Inr x \<Rightarrow> f x)"

lemma seqE_Inl [simp]: "seqE (Inl e) f = Inl e"
  by (simp add: seqE_def)

lemma seqE_Inr [simp]: "seqE (Inr x) f = f x"
  by (simp add: seqE_def)

lemma seqE_assoc: "seqE (seqE m f) g = seqE m (\<lambda>x. seqE (f x) g)"
  by (cases m) simp_all

lemma seqE_eq_Inr: "seqE m f = Inr y \<longleftrightarrow> (\<exists>x. m = Inr x \<and> f x = Inr y)"
  by (cases m) simp_all

lemma seqE_eq_Inl: "seqE m f = Inl e \<longleftrightarrow> m = Inl e \<or> (\<exists>x. m = Inr x \<and> f x = Inl e)"
  by (cases m) simp_all

lemma seqE_step: "(\<And>x. f x = g x) \<Longrightarrow> seqE m f = seqE m g"
  by (cases m) simp_all

lemma seqE_if: "seqE (if b then m else n) f = (if b then seqE m f else seqE n f)"
  by simp

fun foldE :: "('b \<Rightarrow> 's \<Rightarrow> 's outcome) \<Rightarrow> 'b list \<Rightarrow> 's \<Rightarrow> 's outcome" where
  "foldE f [] s = Inr s"
| "foldE f (x # xs) s = seqE (f x s) (foldE f xs)"

lemma foldE_append: "foldE f (xs @ ys) s = seqE (foldE f xs s) (foldE f ys)"
proof (induction xs arbitrary: s)
  case (Cons x xs)
  show ?case by (cases "f x s") (simp_all add: Cons.IH)
qed simp

section \<open>Collections of facts\<close>

named_theorems c_consts "the values of the #define constants of the source"
named_theorems layout "widths of the object representations"

text \<open>The two statuses of \<open>stdlib.h\<close>.\<close>

definition EXIT_SUCCESS :: int where [c_consts]: "EXIT_SUCCESS = 0"
definition EXIT_FAILURE :: int where [c_consts]: "EXIT_FAILURE = 1"

section \<open>Lists\<close>

lemma take_drop_append [simp]:
  "length pre = p \<Longrightarrow> n \<le> length xs \<Longrightarrow> take n (drop p (pre @ xs @ ys)) = take n xs"
  by simp

lemma nth_append_offset: "(pre @ xs) ! (length pre + i) = xs ! i"
  by (simp add: nth_append)

lemma length4_conv: "length xs = 4 \<longleftrightarrow> (\<exists>a b c d. xs = [a, b, c, d])"
  by (auto simp: numeral_eq_Suc length_Suc_conv)

lemma length2_conv: "length xs = 2 \<longleftrightarrow> (\<exists>a b. xs = [a, b])"
  by (auto simp: numeral_eq_Suc length_Suc_conv)

lemma take4_nth: "4 \<le> length xs \<Longrightarrow> take 4 xs = [xs ! 0, xs ! 1, xs ! 2, xs ! 3]"
  by (rule nth_equalityI) (auto simp: less_Suc_eq numeral_eq_Suc)

lemma take_drop_split: "i + n \<le> length m \<Longrightarrow> drop i m = take n (drop i m) @ drop (i + n) m"
  by (metis add.commute append_take_drop_id drop_drop)

section \<open>Words\<close>

lemma u8_bit_beyond [simp]: "8 \<le> n \<Longrightarrow> \<not> bit (a :: u8) n"
  using bit_imp_le_length [of a n] by auto

lemma unat_u8_less [simp]: "unat (a :: u8) < 256"
  using unsigned_less [of a] by simp

lemma unat_of_nat_u8 [simp]: "n < 256 \<Longrightarrow> unat (of_nat n :: u8) = n"
  by (simp add: unat_of_nat take_bit_eq_mod)

end
