(* ===== verification/C_Memory.thy ===== *)
theory C_Memory
  imports NetLab_Prelude
begin

text \<open>
  The part of C's memory the programs use. An object (an array, a struct, a receive buffer) is
  the list of its bytes; \<open>mem_read\<close>, \<open>mem_block\<close> and
  \<open>mem_write\<close> are a load, the source side and the target side of
  \<open>memcpy\<close>, and fault outside the object. \<open>c_strlen\<close> is
  \<open>strlen\<close>, which faults when no byte of the object is 0. \<open>c_strstr\<close> is
  \<open>strstr\<close>: the offset of the first match before the terminating 0, and it looks at
  no byte behind the match. \<open>c_strcpy\<close> and \<open>c_strncpy\<close> are the string
  copies, and \<open>c_string\<close> is what \<open>%s\<close> prints.

  The hosts are little-endian (\<open>T1/run\<close>, the executable the repository ships, is an
  x86-64 one): \<open>st16\<close>/\<open>st32\<close> give the bytes of an integer object and
  \<open>ld16\<close>/\<open>ld32\<close> read them. \<open>htons\<close>/\<open>htonl\<close> of
  \<open><arpa/inet.h>\<close> reverse those bytes. The locale \<open>byte_order\<close> states
  what the protocol code relies on: an integer converted to network order lies in memory most
  significant byte first.
\<close>

section \<open>Loads, stores and copies\<close>

definition mem_read :: "u8 list \<Rightarrow> nat \<Rightarrow> u8 outcome" where
  "mem_read m i = (if i < length m then Inr (m ! i) else Inl BadRead)"

definition mem_block :: "u8 list \<Rightarrow> nat \<Rightarrow> nat \<Rightarrow> u8 list outcome" where
  "mem_block m i n = (if i + n \<le> length m then Inr (take n (drop i m)) else Inl BadRead)"

definition mem_write :: "u8 list \<Rightarrow> nat \<Rightarrow> u8 list \<Rightarrow> u8 list outcome" where
  "mem_write m i vs =
     (if i + length vs \<le> length m then Inr (take i m @ vs @ drop (i + length vs) m)
      else Inl BadWrite)"

fun c_strlen :: "u8 list \<Rightarrow> nat outcome" where
  "c_strlen [] = Inl BadRead"
| "c_strlen (b # bs) = (if b = 0 then Inr 0 else seqE (c_strlen bs) (\<lambda>n. Inr (Suc n)))"

fun c_strstr :: "u8 list \<Rightarrow> u8 list \<Rightarrow> nat option outcome" where
  "c_strstr needle [] = (if needle = [] then Inr (Some 0) else Inl BadRead)"
| "c_strstr needle (b # bs) =
     (if take (length needle) (b # bs) = needle then Inr (Some 0)
      else if b = 0 then Inr None
      else seqE (c_strstr needle bs) (\<lambda>r. Inr (map_option Suc r)))"

text \<open>
  \<open>strcpy\<close>; \<open>strncpy\<close>, which pads with zeros and does not terminate a
  string of \<open>n\<close> bytes or more; and the bytes that \<open>%s\<close> prints.
\<close>

definition c_strcpy :: "u8 list \<Rightarrow> u8 list \<Rightarrow> u8 list outcome" where
  "c_strcpy dst src =
     seqE (c_strlen src) (\<lambda>n. seqE (mem_block src 0 (n + 1)) (mem_write dst 0))"

definition c_strncpy :: "u8 list \<Rightarrow> u8 list \<Rightarrow> nat \<Rightarrow> u8 list outcome" where
  "c_strncpy dst src n =
     (let s = take n (takeWhile (\<lambda>b. b \<noteq> 0) src)
      in if 0 \<in> set src \<or> n \<le> length src
         then mem_write dst 0 (s @ replicate (n - length s) 0)
         else Inl BadRead)"

definition c_string :: "u8 list \<Rightarrow> u8 list outcome" where
  "c_string m = seqE (c_strlen m) (\<lambda>n. Inr (take n m))"

lemma mem_read_Inr: "mem_read m i = Inr b \<longleftrightarrow> i < length m \<and> b = m ! i"
  by (auto simp: mem_read_def)

lemma mem_block_Inr: "mem_block m i n = Inr v \<longleftrightarrow> i + n \<le> length m \<and> v = take n (drop i m)"
  by (auto simp: mem_block_def)

lemma mem_block_length: "mem_block m i n = Inr v \<Longrightarrow> length v = n"
  by (auto simp: mem_block_Inr)

lemma mem_write_length: "mem_write m i vs = Inr m' \<Longrightarrow> length m' = length m"
  by (auto simp: mem_write_def split: if_splits)

lemma mem_read_append [simp]: "mem_read (pre @ b # ys) (length pre) = Inr b"
  by (simp add: mem_read_def)

lemma mem_read_offset: "mem_read (pre @ ys) (length pre + i) = mem_read ys i"
  by (simp add: mem_read_def nth_append)

lemma mem_block_offset: "mem_block (pre @ ys) (length pre + i) n = mem_block ys i n"
  by (simp add: mem_block_def)

lemma mem_write_prefix:
  "length vs \<le> length old \<Longrightarrow>
   mem_write (pre @ old) (length pre) vs = Inr (pre @ vs @ drop (length vs) old)"
  by (simp add: mem_write_def)

lemma mem_write_front:
  "length vs \<le> length m \<Longrightarrow> mem_write m 0 vs = Inr (vs @ drop (length vs) m)"
  by (simp add: mem_write_def)

lemma mem_block_drop:
  assumes "drop i m = v @ c # r"
  shows "mem_block m i (length v) = Inr v"
proof -
  have "length m - i = length v + Suc (length r)"
    using arg_cong [OF assms, of length] by simp
  then show ?thesis using assms by (simp add: mem_block_def)
qed

lemma c_strlen_terminated:
  "0 \<notin> set s \<Longrightarrow> c_strlen (s @ 0 # rest) = Inr (length s)"
  by (induction s) auto

lemma c_strlen_Inr_iff:
  "c_strlen bs = Inr n \<longleftrightarrow> n < length bs \<and> bs ! n = 0 \<and> 0 \<notin> set (take n bs)"
proof (induction bs arbitrary: n)
  case Nil
  then show ?case by simp
next
  case (Cons b bs)
  then show ?case by (cases n) (auto simp: seqE_eq_Inr)
qed

lemma c_strlen_unterminated: "0 \<notin> set bs \<Longrightarrow> c_strlen bs = Inl BadRead"
  by (induction bs) auto

lemma c_strstr_here:
  "take (length needle) bs = needle \<Longrightarrow> needle \<noteq> [] \<Longrightarrow> c_strstr needle bs = Inr (Some 0)"
  by (cases bs) auto

lemma c_strstr_skip:
  assumes "\<forall>i < length pre. take (length needle) (drop i (pre @ bs)) \<noteq> needle" and "0 \<notin> set pre"
    and "take (length needle) bs = needle" and "needle \<noteq> []"
  shows "c_strstr needle (pre @ bs) = Inr (Some (length pre))"
  using assms(1,2)
proof (induction pre)
  case Nil
  then show ?case using assms by (simp add: c_strstr_here)
next
  case (Cons b pre)
  have "\<forall>i < length pre. take (length needle) (drop i (pre @ bs)) \<noteq> needle"
    using Cons.prems(1) by (metis (no_types) Suc_less_eq append_Cons drop_Suc_Cons length_Cons)
  with Cons show ?case by auto
qed

lemma c_strstr_found:
  "c_strstr needle bs = Inr (Some i) \<Longrightarrow> take (length needle) (drop i bs) = needle"
proof (induction bs arbitrary: i)
  case (Cons b bs)
  then show ?case by (auto simp: seqE_eq_Inr split: if_splits)
qed (simp split: if_splits)

lemma c_strstr_None_append:
  assumes "c_strstr needle bs = Inr None" and "0 \<notin> set needle"
  shows "c_strstr needle (bs @ r) = Inr None"
  using assms(1)
proof (induction bs)
  case (Cons b bs)
  have zero: "0 \<in> set xs" if "c_strstr needle xs = Inr None" for xs
    using that by (induction xs) (auto simp: seqE_eq_Inr split: if_splits)
  have "take (length needle) (b # bs @ r) \<noteq> needle"
  proof (cases "length needle \<le> length (b # bs)")
    case True
    then show ?thesis using Cons.prems by (auto simp: take_Cons' split: if_splits)
  next
    case False
    have "0 \<in> set (b # bs)" by (rule zero [OF Cons.prems])
    then have "0 \<in> set (take (length needle) (b # bs @ r))" using False by (auto simp: take_Cons')
    then show ?thesis using assms(2) by metis
  qed
  then show ?case using Cons by (auto simp: seqE_eq_Inr split: if_splits)
qed (simp split: if_splits)

lemma c_strcpy_ok:
  assumes "0 \<notin> set s" and "length s < length dst"
  shows "c_strcpy dst (s @ 0 # r) = Inr (s @ 0 # drop (length s + 1) dst)"
proof -
  have "mem_block (s @ 0 # r) 0 (length s + 1) = Inr (s @ [0])"
    by (simp add: mem_block_def)
  moreover have "mem_write dst 0 (s @ [0]) = Inr ((s @ [0]) @ drop (length s + 1) dst)"
    using assms(2) mem_write_prefix [of "s @ [0]" dst "[]"] by simp
  ultimately show ?thesis
    using c_strlen_terminated [OF assms(1)] by (simp add: c_strcpy_def)
qed

lemma c_strcpy_long:
  assumes "0 \<notin> set s" and "length dst \<le> length s"
  shows "c_strcpy dst (s @ 0 # r) = Inl BadWrite"
  using assms by (simp add: c_strcpy_def c_strlen_terminated mem_block_def mem_write_def)

lemma c_strncpy_short:
  assumes "0 \<notin> set s" and "length s < n" and "n \<le> length dst"
  shows "c_strncpy dst (s @ [0]) n = Inr (s @ replicate (n - length s) 0 @ drop n dst)"
proof -
  have "takeWhile (\<lambda>b. b \<noteq> 0) (s @ [0]) = s"
    using assms(1) by (subst takeWhile_append2) auto
  then show ?thesis
    using assms(2,3) by (simp add: c_strncpy_def mem_write_def)
qed

lemma c_string_terminated:
  "0 \<notin> set s \<Longrightarrow> c_string (s @ 0 # r) = Inr s"
  by (simp add: c_string_def c_strlen_terminated)

lemma c_string_take:
  assumes "c_string m = Inr s"
  shows "0 \<notin> set s" and "\<exists>r. m = s @ 0 # r"
proof -
  obtain n where n: "c_strlen m = Inr n" "s = take n m"
    using assms by (auto simp: c_string_def seqE_eq_Inr)
  then have "n < length m" "m ! n = 0" "0 \<notin> set s" by (auto simp: c_strlen_Inr_iff)
  then show "0 \<notin> set s" "\<exists>r. m = s @ 0 # r"
    using id_take_nth_drop [of n m] n(2) by auto
qed

lemma c_string_zeros: "0 < k \<Longrightarrow> c_string (replicate k 0) = Inr []"
  by (cases k) (simp_all add: c_string_def)

lemma c_strlen_append:
  "0 \<notin> set p \<Longrightarrow> c_strlen (p @ t) = seqE (c_strlen t) (\<lambda>n. Inr (length p + n))"
proof (induction p)
  case Nil
  then show ?case by (cases "c_strlen t") simp_all
next
  case (Cons b p)
  then show ?case by (cases "c_strlen t") auto
qed

lemma c_string_append:
  "0 \<notin> set p \<Longrightarrow> c_string (p @ t) = seqE (c_string t) (\<lambda>s. Inr (p @ s))"
  by (cases "c_strlen t") (simp_all add: c_string_def c_strlen_append)

lemma c_string_unterminated: "0 \<notin> set m \<Longrightarrow> c_string m = Inl BadRead"
  by (simp add: c_string_def c_strlen_unterminated)

section \<open>Integers in memory\<close>

definition st16 :: "u16 \<Rightarrow> u8 list" where
  "st16 w = [ucast w, ucast (drop_bit 8 w)]"

definition st32 :: "u32 \<Rightarrow> u8 list" where
  "st32 w = [ucast w, ucast (drop_bit 8 w), ucast (drop_bit 16 w), ucast (drop_bit 24 w)]"

fun ld16 :: "u8 list \<Rightarrow> u16" where
  "ld16 [a, b] = ucast a OR push_bit 8 (ucast b)"
| "ld16 _ = 0"

fun ld32 :: "u8 list \<Rightarrow> u32" where
  "ld32 [a, b, c, d] =
     ucast a OR push_bit 8 (ucast b) OR push_bit 16 (ucast c) OR push_bit 24 (ucast d)"
| "ld32 _ = 0"

lemma length_st16 [simp, layout]: "length (st16 w) = 2"
  by (simp add: st16_def)

lemma length_st32 [simp, layout]: "length (st32 w) = 4"
  by (simp add: st32_def)

lemma ld16_st16 [simp]: "ld16 (st16 w) = w"
proof (rule bit_word_eqI)
  fix n assume "n < LENGTH(16)"
  then have "n < 8 \<or> (8 \<le> n \<and> n < 16)" by auto
  then show "bit (ld16 (st16 w)) n = bit w n"
    by (auto simp: st16_def bit_simps)
qed

lemma ld32_st32 [simp]: "ld32 (st32 w) = w"
proof (rule bit_word_eqI)
  fix n assume "n < LENGTH(32)"
  then have "n < 8 \<or> (8 \<le> n \<and> n < 16) \<or> (16 \<le> n \<and> n < 24) \<or> (24 \<le> n \<and> n < 32)"
    by auto
  then show "bit (ld32 (st32 w)) n = bit w n"
    by (auto simp: st32_def bit_simps)
qed

lemma st16_ld16 [simp]: "length bs = 2 \<Longrightarrow> st16 (ld16 bs) = bs"
  by (auto simp: length2_conv st16_def bit_simps intro!: bit_word_eqI)

lemma st32_ld32_bytes: "st32 (ld32 [a, b, c, d]) = [a, b, c, d]"
  unfolding st32_def ld32.simps list.inject
  by (intro conjI refl; rule bit_word_eqI) (auto simp: bit_simps)

lemma st32_ld32 [simp]: "length bs = 4 \<Longrightarrow> st32 (ld32 bs) = bs"
  by (auto simp only: length4_conv st32_ld32_bytes)

lemma st32_inject [simp]: "st32 v = st32 w \<longleftrightarrow> v = w"
  by (metis ld32_st32)

lemma st16_inject [simp]: "st16 v = st16 w \<longleftrightarrow> v = w"
  by (metis ld16_st16)

section \<open>Network order\<close>

definition htons :: "u16 \<Rightarrow> u16" where
  "htons w = ld16 (rev (st16 w))"

definition ntohs :: "u16 \<Rightarrow> u16" where
  "ntohs w = ld16 (rev (st16 w))"

definition htonl :: "u32 \<Rightarrow> u32" where
  "htonl w = ld32 (rev (st32 w))"

definition ntohl :: "u32 \<Rightarrow> u32" where
  "ntohl w = ld32 (rev (st32 w))"

locale byte_order =
  fixes store :: "'w \<Rightarrow> u8 list"
    and load :: "u8 list \<Rightarrow> 'w"
    and hton :: "'w \<Rightarrow> 'w"
    and ntoh :: "'w \<Rightarrow> 'w"
    and width :: nat
  assumes length_store: "length (store w) = width"
    and load_store: "load (store w) = w"
    and store_load: "length bs = width \<Longrightarrow> store (load bs) = bs"
    and store_hton: "store (hton w) = rev (store w)"
    and store_ntoh: "store (ntoh w) = rev (store w)"
begin

lemma store_eq: "store v = store w \<Longrightarrow> v = w"
  by (metis load_store)

lemma ntoh_hton: "ntoh (hton w) = w"
  by (rule store_eq) (simp add: store_hton store_ntoh)

lemma hton_ntoh: "hton (ntoh w) = w"
  by (rule store_eq) (simp add: store_hton store_ntoh)

lemma hton_eq: "hton v = hton w \<Longrightarrow> v = w"
  by (metis ntoh_hton)

lemma ntoh_eq: "ntoh v = ntoh w \<Longrightarrow> v = w"
  by (metis hton_ntoh)

lemma ntoh_eq_hton: "ntoh w = hton w"
  by (rule store_eq) (simp add: store_hton store_ntoh)

lemma load_wire: "length bs = width \<Longrightarrow> store (ntoh (load bs)) = rev bs"
  by (simp add: store_ntoh store_load)

end

interpretation n16: byte_order st16 ld16 htons ntohs 2
  by unfold_locales (simp_all add: htons_def ntohs_def)

interpretation n32: byte_order st32 ld32 htonl ntohl 4
  by unfold_locales (simp_all add: htonl_def ntohl_def)

lemma ntohs_ld16: "ntohs (ld16 [a, b]) = ld16 [b, a]"
  using st16_ld16 [of "[a, b]"] by (simp del: ld16.simps add: ntohs_def)

lemma ntohs_ld16_eq:
  assumes "length bs = 2"
  shows "ntohs (ld16 bs) = w \<longleftrightarrow> bs = rev (st16 w)"
  using assms by (metis n16.store_eq n16.store_ntoh rev_rev_ident st16_ld16)

lemmas net_order [simp] =
  n16.ntoh_hton n16.hton_ntoh n16.store_hton n16.store_ntoh
  n32.ntoh_hton n32.hton_ntoh n32.store_hton n32.store_ntoh

lemma bit_htonl:
  "bit (htonl w) n \<longleftrightarrow> n < 32 \<and> bit w (8 * (3 - n div 8) + n mod 8)"
proof (cases "n < 32")
  case False
  then show ?thesis using bit_imp_le_length [of "htonl w" n] by auto
next
  case True
  then consider "n < 8" | "8 \<le> n" "n < 16" | "16 \<le> n" "n < 24" | "24 \<le> n" "n < 32"
    by linarith
  then show ?thesis
  proof cases
    case 1
    then show ?thesis by (simp add: htonl_def st32_def bit_simps)
  next
    case 2
    then have "n div 8 = 1" "n mod 8 = n - 8" by presburger+
    with 2 show ?thesis by (auto simp: htonl_def st32_def bit_simps)
  next
    case 3
    then have "n div 8 = 2" "n mod 8 = n - 16" by presburger+
    with 3 show ?thesis by (auto simp: htonl_def st32_def bit_simps)
  next
    case 4
    then have "n div 8 = 3" "n mod 8 = n - 24" by presburger+
    with 4 show ?thesis by (auto simp: htonl_def st32_def bit_simps)
  qed
qed

lemma htonl_AND: "htonl (v AND w) = htonl v AND htonl w"
  by (rule bit_word_eqI) (auto simp: bit_htonl bit_simps)

lemma htonl_OR: "htonl (v OR w) = htonl v OR htonl w"
  by (rule bit_word_eqI) (auto simp: bit_htonl bit_simps)

lemma htonl_NOT: "htonl (NOT w) = NOT (htonl w)"
proof (rule bit_word_eqI)
  fix n assume "n < LENGTH(32)"
  moreover have "8 * (3 - n div 8) + n mod 8 < 32" by presburger
  ultimately show "bit (htonl (NOT w)) n = bit (NOT (htonl w)) n"
    by (simp add: bit_htonl bit_simps)
qed

lemma htonl_0 [simp]: "htonl 0 = 0"
  by (rule bit_word_eqI) (simp add: bit_htonl)

lemma htonl_inject [simp]: "htonl v = htonl w \<longleftrightarrow> v = w"
  using n32.hton_eq by blast

end
