(* ===== verification/C_Print.thy ===== *)
theory C_Print
  imports NetLab_Prelude
begin

text \<open>
  The conversions of \<open>printf\<close> the programs use: \<open>%u\<close>, \<open>%i\<close>
  of a non-negative number (base 10) and \<open>%x\<close> (base 16), which print no leading
  zero, and the loops that print an address as numbers with a separator between them. What a line
  prints determines the bytes it prints, as long as a separator stands between them.
\<close>

section \<open>Numbers\<close>

definition digit :: "nat \<Rightarrow> char" where
  "digit d = ''0123456789abcdef'' ! d"

fun num_str :: "nat \<Rightarrow> nat \<Rightarrow> string" where
  "num_str b n = (if b < 2 \<or> n < b then [digit n] else num_str b (n div b) @ [digit (n mod b)])"

declare num_str.simps [simp del]

definition dec_str :: "nat \<Rightarrow> string" where "dec_str = num_str 10"
definition hex_str :: "nat \<Rightarrow> string" where "hex_str = num_str 16"

definition digit_val :: "char \<Rightarrow> nat" where
  "digit_val c = (if of_char c < (58 :: nat) then of_char c - 48 else of_char c - 87)"

definition num_val :: "nat \<Rightarrow> string \<Rightarrow> nat" where
  "num_val b s = foldl (\<lambda>v c. v * b + digit_val c) 0 s"

lemma less16_cases:
  assumes "d < (16 :: nat)"
  shows "d = 0 \<or> d = 1 \<or> d = 2 \<or> d = 3 \<or> d = 4 \<or> d = 5 \<or> d = 6 \<or> d = 7 \<or>
    d = 8 \<or> d = 9 \<or> d = 10 \<or> d = 11 \<or> d = 12 \<or> d = 13 \<or> d = 14 \<or> d = 15"
  using assms by presburger

lemma digit_val_digit [simp]: "d < 16 \<Longrightarrow> digit_val (digit d) = d"
  by (drule less16_cases) (elim disjE; simp add: digit_def digit_val_def)

definition hex_digits :: "char set" where
  "hex_digits = set ''0123456789abcdef''"

lemma digit_in [simp]: "d < 16 \<Longrightarrow> digit d \<in> hex_digits"
  unfolding digit_def hex_digits_def by (rule nth_mem) simp

lemma num_val_num_str: "2 \<le> b \<Longrightarrow> b \<le> 16 \<Longrightarrow> num_val b (num_str b n) = n"
proof (induction n rule: less_induct)
  case (less n)
  show ?case
  proof (cases "n < b")
    case True
    then show ?thesis using less.prems by (simp add: num_str.simps num_val_def)
  next
    case False
    then have "num_val b (num_str b (n div b)) = n div b"
      using less by simp
    moreover have "n mod b < 16"
      using less.prems mod_less_divisor [of b n] by linarith
    ultimately show ?thesis
      using False less.prems by (subst num_str.simps) (simp add: num_val_def)
  qed
qed

lemma num_str_inject: "2 \<le> b \<Longrightarrow> b \<le> 16 \<Longrightarrow> num_str b m = num_str b n \<longleftrightarrow> m = n"
  by (metis num_val_num_str)

lemma num_str_digits: "2 \<le> b \<Longrightarrow> b \<le> 16 \<Longrightarrow> set (num_str b n) \<subseteq> hex_digits"
proof (induction n rule: less_induct)
  case (less n)
  have "n mod b < 16"
    using less.prems mod_less_divisor [of b n] by linarith
  then show ?case
    using less by (subst num_str.simps) auto
qed

lemma length_num_str:
  "2 \<le> b \<Longrightarrow> n < b ^ Suc k \<Longrightarrow> length (num_str b n) \<le> Suc k"
proof (induction k arbitrary: n)
  case 0
  then show ?case by (simp add: num_str.simps)
next
  case (Suc k)
  have "n div b < b ^ Suc k"
    using Suc.prems by (simp add: less_mult_imp_div_less mult.commute)
  then have "length (num_str b (n div b)) \<le> Suc k"
    using Suc by simp
  then show ?case by (subst num_str.simps) simp
qed

lemma dec_str_inject [simp]: "dec_str m = dec_str n \<longleftrightarrow> m = n"
  by (simp add: dec_str_def num_str_inject)

lemma hex_str_inject [simp]: "hex_str m = hex_str n \<longleftrightarrow> m = n"
  by (simp add: hex_str_def num_str_inject)

lemma dec_str_digits: "set (dec_str n) \<subseteq> hex_digits"
  by (simp add: dec_str_def num_str_digits)

lemma hex_str_digits: "set (hex_str n) \<subseteq> hex_digits"
  by (simp add: hex_str_def num_str_digits)

section \<open>Separated numbers\<close>

text \<open>The loop of the print functions: \<open>sep\<close> after every number but the last, then \<open>fin\<close>.\<close>

fun print_sep :: "(u8 \<Rightarrow> string) \<Rightarrow> char \<Rightarrow> char \<Rightarrow> u8 list \<Rightarrow> string" where
  "print_sep conv sep fin [] = []"
| "print_sep conv sep fin [b] = conv b @ [fin]"
| "print_sep conv sep fin (b # bs) = conv b @ sep # print_sep conv sep fin bs"

lemma split_at_first:
  assumes "xs @ c # ys = xs' @ c' # ys'" and "set xs \<subseteq> D" and "set xs' \<subseteq> D"
    and "c \<notin> D" and "c' \<notin> D"
  shows "xs = xs' \<and> c = c' \<and> ys = ys'"
  using assms(1-3)
proof (induction xs arbitrary: xs')
  case Nil
  then show ?case using assms(4) by (cases xs') auto
next
  case (Cons x xs)
  then show ?case using assms(5) by (cases xs') auto
qed

lemma print_sep_Cons:
  "print_sep conv sep fin (b # bs) @ r =
    conv b @ (if bs = [] then fin else sep) # print_sep conv sep fin bs @ r"
  by (cases bs) simp_all

lemma print_sep_inject:
  assumes "print_sep conv sep fin bs @ r = print_sep conv sep fin bs' @ r'"
    and "length bs = length bs'" and "inj conv" and "\<And>b. set (conv b) \<subseteq> hex_digits"
    and "sep \<notin> hex_digits" and "fin \<notin> hex_digits"
  shows "bs = bs' \<and> r = r'"
  using assms(1,2)
proof (induction bs arbitrary: bs')
  case (Cons b bs)
  then obtain b' ds where bs': "bs' = b' # ds" and len: "length bs = length ds"
    by (cases bs') auto
  let ?c = "if bs = [] then fin else sep"
  have "conv b @ ?c # print_sep conv sep fin bs @ r =
      conv b' @ (if ds = [] then fin else sep) # print_sep conv sep fin ds @ r'"
    using Cons.prems(1) unfolding bs' print_sep_Cons .
  then have "conv b = conv b' \<and> print_sep conv sep fin bs @ r = print_sep conv sep fin ds @ r'"
    by (rule split_at_first [where D = hex_digits, THEN conjE]) (use assms(4-6) in auto)
  then show ?case using Cons.IH [OF _ len] assms(3) bs' by (auto dest: injD)
qed simp

lemma inj_conv [simp]: "inj (\<lambda>b :: u8. dec_str (unat b))" "inj (\<lambda>b :: u8. hex_str (unat b))"
  by (auto simp: inj_def intro: unsigned_word_eqI)

lemma sep_not_digit [simp]:
  "CHR ''.'' \<notin> hex_digits" "CHR '':'' \<notin> hex_digits" "CHR 0x0A \<notin> hex_digits"
  by (simp_all add: hex_digits_def)

definition nl :: string where "nl = [CHR 0x0A]"

section \<open>Bytes as characters\<close>

text \<open>\<open>%s\<close> prints the characters of the bytes, \<open>%02x\<close> and \<open>%04x\<close> pad a number with zeros.\<close>

abbreviation text_of :: "u8 list \<Rightarrow> string" where
  "text_of bs \<equiv> map (\<lambda>b. char_of (unat b)) bs"

definition hex_pad :: "nat \<Rightarrow> nat \<Rightarrow> string" where
  "hex_pad w n = replicate (w - length (hex_str n)) (CHR ''0'') @ hex_str n"

lemma of_char_of_byte: "of_char (char_of (unat (b :: u8)) :: char) = unat b"
  by simp

lemma inj_char_of_byte: "inj (\<lambda>b :: u8. char_of (unat b) :: char)"
proof (rule injI)
  fix x y :: u8
  assume "(char_of (unat x) :: char) = char_of (unat y)"
  then have "unat x = unat y" by (metis of_char_of_byte)
  then show "x = y" by (rule unsigned_word_eqI)
qed

lemma text_of_inject: "text_of a = text_of b \<Longrightarrow> a = b"
  by (rule map_injective [OF _ inj_char_of_byte])

lemma num_val_zeros: "num_val b (replicate k (CHR ''0'') @ s) = num_val b s"
  by (induction k) (simp_all add: num_val_def digit_val_def)

lemma num_val_hex_pad: "num_val 16 (hex_pad w n) = n"
  by (simp add: hex_pad_def hex_str_def num_val_zeros num_val_num_str)

lemma hex_pad_inject: "hex_pad w m = hex_pad w n \<Longrightarrow> m = n"
  by (metis num_val_hex_pad)

lemma hex_pad_digits: "set (hex_pad w n) \<subseteq> hex_digits"
proof -
  have "CHR ''0'' \<in> hex_digits" by (simp add: hex_digits_def)
  then show ?thesis using hex_str_digits [of n] by (auto simp: hex_pad_def)
qed

lemma inj_hex_pad: "inj (\<lambda>b :: u8. hex_pad w (unat b))"
  by (auto simp: inj_def intro: unsigned_word_eqI dest: hex_pad_inject)

end
