(* ===== verification/Net_Calls.thy ===== *)
theory Net_Calls
  imports C_Memory C_Print
begin

text \<open>
  What the programs get from the socket calls: the events of a receiving loop, a received
  datagram or packet stored at the start of a buffer that is used again for every one, and
  the text \<open>inet_ntoa\<close> makes of an address.
\<close>

section \<open>Receiving\<close>

datatype recv_event = RecvFailed | Recv "u8 list"

text \<open>
  \<open>recv (fd, buffer, n, 0)\<close> stores at most \<open>n\<close> bytes and leaves the
  rest of the buffer as it was.
\<close>

definition recv_into :: "nat \<Rightarrow> u8 list \<Rightarrow> u8 list \<Rightarrow> u8 list" where
  "recv_into n bs buffer = (let d = take n bs in d @ drop (length d) buffer)"

lemma recv_into_short: "length bs \<le> n \<Longrightarrow> recv_into n bs buffer = bs @ drop (length bs) buffer"
  by (simp add: recv_into_def)

lemma length_recv_into: "n \<le> length buffer \<Longrightarrow> length (recv_into n bs buffer) = length buffer"
  by (simp add: recv_into_def Let_def)

section \<open>Interfaces and addresses\<close>

definition IFNAMSIZ :: nat where [c_consts]: "IFNAMSIZ = 16"
definition INADDR_ANY :: u32 where [c_consts]: "INADDR_ANY = 0"
definition IFF_PROMISC :: u16 where [c_consts]: "IFF_PROMISC = 0x100"

text \<open>
  The text of an address. The C function returns a pointer to a buffer of its own, which later calls
  overwrite; here each call has its own text.
\<close>

definition inet_ntoa :: "u32 \<Rightarrow> string" where
  "inet_ntoa a = butlast (print_sep (\<lambda>b. dec_str (unat b)) (CHR ''.'') (CHR 0x0A) (st32 a))"

lemma inet_ntoa_inject: "inet_ntoa a = inet_ntoa b \<Longrightarrow> a = b"
proof -
  let ?p = "print_sep (\<lambda>b. dec_str (unat b)) (CHR ''.'') (CHR 0x0A)"
  have "?p (st32 c) = inet_ntoa c @ [CHR 0x0A]" for c
    by (simp add: inet_ntoa_def st32_def butlast_append)
  moreover assume "inet_ntoa a = inet_ntoa b"
  ultimately have "?p (st32 a) @ [] = ?p (st32 b) @ []" by simp
  then show "a = b"
    by (drule_tac print_sep_inject) (simp_all add: dec_str_digits)
qed

end
