(* ===== verification/Eth_Frame.thy ===== *)
theory Eth_Frame
  imports Net_Calls "HOL-Library.Sublist"
begin

text \<open>
  \<open>TF/ethernet.c\<close>: the choice of the network interface, the set-up of the Berkeley
  packet filter device, the reception of a frame and the printing of a frame header; the line
  \<open>eth_init\<close> prints is in \<open>Tf_Console\<close>.

  The operating system is a parameter: the list \<open>getifaddrs\<close> gives, the results of
  \<open>open\<close>, \<open>ioctl\<close> and \<open>read\<close>. Documented behaviour of
  these calls is built into the types: \<open>read\<close> stores and counts at most as many
  bytes as it was asked for (\<open>ReadError\<close> is its result -1), and an interface name is
  a string, here its bytes without the terminating 0. The frame object \<open>eth_frm\<close> is
  the list of its 1518 bytes.
\<close>

definition ETHER_HDR_LEN :: nat where [c_consts]: "ETHER_HDR_LEN = 14"
definition ETHER_MAX_LEN :: nat where [c_consts]: "ETHER_MAX_LEN = 1518"
definition AF_INET :: nat where [c_consts]: "AF_INET = 2"

section \<open>The interface\<close>

record ifaddr =
  ifa_name :: "u8 list"
  ifa_addr :: "(nat \<times> u32) option"  \<comment> \<open>family and address; \<open>None\<close> for a null pointer\<close>
  ifa_broadaddr :: "u32 option"
  ifa_netmask :: "u32 option"

definition LO_STR :: "u8 list" where [c_consts]: "LO_STR = [108, 111]"

text \<open>The search loop of \<open>get_ifa_name\<close>, which \<open>init\<close> of \<open>Application.c\<close> repeats.\<close>

fun pick_ifa :: "ifaddr list \<Rightarrow> ifaddr option outcome" where
  "pick_ifa [] = Inr None"
| "pick_ifa (it # its) =
     (case ifa_addr it of
        None \<Rightarrow> pick_ifa its
      | Some (sa_family, _) \<Rightarrow>
          if sa_family = AF_INET
          then seqE (c_strstr LO_STR (ifa_name it @ [0])) (\<lambda>lo.
            if lo = None then Inr (Some it) else pick_ifa its)
          else pick_ifa its)"

definition get_ifa_name :: "ifaddr list \<Rightarrow> (int \<times> u8 list) outcome" where
  "get_ifa_name addrs =
     (let ifname = replicate IFNAMSIZ 0
      in seqE (pick_ifa addrs) (\<lambda>it.
         seqE (case it of None \<Rightarrow> Inr ifname | Some it \<Rightarrow> c_strcpy ifname (ifa_name it @ [0]))
           (\<lambda>ifname. seqE (mem_read ifname 0) (\<lambda>c. Inr (if c \<noteq> 0 then 0 else - 1, ifname)))))"

section \<open>The device\<close>

record eth_env =
  ifas :: "ifaddr list"
  open_dev :: "u8 list \<Rightarrow> int"
  ioctl_setif :: "u8 list \<Rightarrow> int"
  ioctl_immediate :: int
  ioctl_gblen :: int
  gblen :: nat                     \<comment> \<open>what a successful \<open>BIOCGBLEN\<close> stores\<close>
  ifr_stack :: "u8 list"           \<comment> \<open>what \<open>bound_if.ifr_name\<close> holds before the copy\<close>

record eth_state =
  ifname :: "u8 list"
  buf_size :: nat
  bpf :: int

definition dev_path :: "nat \<Rightarrow> u8 list" where
  "dev_path i = map of_char (''/dev/bpf'' @ dec_str i) @ [0]"

text \<open>
  The loop over the devices, \<open>k\<close> of them from number \<open>i\<close>; the result
  says whether one was opened. \<open>buf\<close> is the array the path is printed to.
\<close>

fun open_bpf :: "(u8 list \<Rightarrow> int) \<Rightarrow> nat \<Rightarrow> nat \<Rightarrow> u8 list \<Rightarrow> int \<Rightarrow> (int \<times> bool) outcome" where
  "open_bpf dev 0 i buf fd = Inr (fd, False)"
| "open_bpf dev (Suc k) i buf fd =
     seqE (mem_write buf 0 (dev_path i)) (\<lambda>buf.
       let fd = dev (takeWhile (\<lambda>b. b \<noteq> 0) buf)
       in if fd < 0 then open_bpf dev k (i + 1) buf fd else Inr (fd, True))"

text \<open>Opening, binding and configuring the device, once the name is known, and \<open>eth_init\<close>.\<close>

definition eth_attach :: "eth_env \<Rightarrow> eth_state \<Rightarrow> (int \<times> eth_state) outcome" where
  "eth_attach env st =
     seqE (open_bpf (open_dev env) 99 0 (replicate 11 0) (bpf st)) (\<lambda>(fd, fnd_if).
     let st = st\<lparr>bpf := fd\<rparr>
     in if \<not> fnd_if then Inr (- 1, st)
        else seqE (c_strcpy (ifr_stack env) (ifname st)) (\<lambda>ifr_name.
          if 0 < ioctl_setif env (takeWhile (\<lambda>b. b \<noteq> 0) ifr_name) then Inr (- 1, st)
          else (let st = st\<lparr>buf_size := 1\<rparr>
            in if ioctl_immediate env < 0 then Inr (- 1, st)
               else if ioctl_gblen env < 0 then Inr (- 1, st)
               else Inr (0, st\<lparr>buf_size := gblen env\<rparr>))))"

definition eth_init :: "eth_env \<Rightarrow> eth_state \<Rightarrow> (int \<times> eth_state) outcome" where
  "eth_init env st =
     seqE (get_ifa_name (ifas env)) (\<lambda>(r, nm).
     let st = st\<lparr>ifname := nm\<rparr>
     in if r < 0 then Inr (- 1, st) else eth_attach env st)"

section \<open>A frame\<close>

datatype read_result = ReadError | ReadBytes "u8 list"

definition BH_HDRLEN_OFF :: nat where [c_consts]: "BH_HDRLEN_OFF = 16"

definition SIZE_MAX :: nat where [c_consts]: "SIZE_MAX = 18446744073709551615"

text \<open>
  \<open>bl\<close> is \<open>_buf_size\<close> and \<open>stack\<close> is what lies in the
  array \<open>bpf_buf\<close> behind its first \<open>_buf_size\<close> bytes: the array has
  \<open>_buf_size\<close> elements of type \<open>struct bpf_hdr\<close>, 20 bytes each, and
  only \<open>_buf_size\<close> bytes are cleared. The result of \<open>read\<close> is stored in
  a \<open>size_t\<close>.
\<close>

definition wait_eth_frame ::
  "read_result \<Rightarrow> u8 list \<Rightarrow> nat \<Rightarrow> u8 list \<Rightarrow> (nat \<times> u8 list) outcome" where
  "wait_eth_frame rd stack bl frame =
     (let max_l = ETHER_HDR_LEN + (ETHER_MAX_LEN - ETHER_HDR_LEN);
          bpf_buf = replicate bl 0 @ stack;
          data = (case rd of ReadError \<Rightarrow> [] | ReadBytes bs \<Rightarrow> take bl bs);
          read_bytes = (case rd of ReadError \<Rightarrow> SIZE_MAX | ReadBytes bs \<Rightarrow> length data);
          bpf_buf = data @ drop (length data) bpf_buf
      in if 0 < read_bytes
         then (let c_bytes = (if read_bytes < max_l then read_bytes else max_l)
           in seqE (mem_block bpf_buf BH_HDRLEN_OFF 2) (\<lambda>bh_hdrlen.
              seqE (mem_block bpf_buf (unat (ld16 bh_hdrlen)) c_bytes) (\<lambda>d.
              seqE (mem_write frame 0 d) (\<lambda>frame. Inr (c_bytes, frame)))))
         else Inr (0, frame))"

definition write_eth_frame :: "u8 list \<Rightarrow> int" where
  "write_eth_frame frame = 0"

definition print_mac_addr :: "u8 list \<Rightarrow> string" where
  "print_mac_addr src =
     print_sep (\<lambda>b. hex_str (unat b)) (CHR ''.'') (CHR 0x0A) (take 6 src)"

definition print_eth_frame :: "u8 list \<Rightarrow> string" where
  "print_eth_frame frame =
     ''Destination Mac Address: '' @ print_mac_addr (take 6 frame) @
     ''Source Mac Address: '' @ print_mac_addr (take 6 (drop 6 frame)) @
     ''EtherType: 0x'' @ hex_str (unat (ntohs (ld16 (take 2 (drop 12 frame))))) @ [CHR 0x0A]"

section \<open>The choice of the interface\<close>

definition usable :: "ifaddr \<Rightarrow> bool" where
  "usable it \<longleftrightarrow> map_option fst (ifa_addr it) = Some AF_INET \<and> \<not> sublist LO_STR (ifa_name it)"

definition name_ok :: "ifaddr \<Rightarrow> bool" where
  "name_ok it \<longleftrightarrow> ifa_name it \<noteq> [] \<and> 0 \<notin> set (ifa_name it) \<and> length (ifa_name it) < IFNAMSIZ"

lemma take_prefix_iff: "take (length n) xs = n \<longleftrightarrow> prefix n xs"
  by (metis append_eq_conv_conj append_take_drop_id prefix_def)

lemma prefix_snoc_other: "c \<notin> set n \<Longrightarrow> prefix n (s @ [c]) \<longleftrightarrow> prefix n s"
  by (auto simp: prefix_def append_eq_append_conv2 Cons_eq_append_conv)

lemma c_strstr_sublist:
  assumes "0 \<notin> set n" and "n \<noteq> []" and "0 \<notin> set s"
  shows "\<exists>r. c_strstr n (s @ [0]) = Inr r \<and> (r = None \<longleftrightarrow> \<not> sublist n s)"
  using assms(3)
proof (induction s)
  case Nil
  have "take (length n) [0] \<noteq> n"
    using assms(1,2) by (cases n) auto
  then show ?case using assms(2) by simp
next
  case (Cons b s)
  have "take (length n) ((b # s) @ [0]) = n \<longleftrightarrow> prefix n (b # s)"
    unfolding take_prefix_iff by (rule prefix_snoc_other [OF assms(1)])
  moreover obtain r where "c_strstr n (s @ [0]) = Inr r" "r = None \<longleftrightarrow> \<not> sublist n s"
    using Cons by auto
  ultimately show ?case
    using Cons.prems by (auto simp: sublist_Cons_right)
qed

lemma pick_ifa_find:
  assumes "\<forall>it \<in> set its. 0 \<notin> set (ifa_name it)"
  shows "pick_ifa its = Inr (find usable its)"
  using assms
proof (induction its)
  case (Cons it its)
  obtain r where "c_strstr LO_STR (ifa_name it @ [0]) = Inr r"
      "r = None \<longleftrightarrow> \<not> sublist LO_STR (ifa_name it)"
    using c_strstr_sublist [of LO_STR "ifa_name it"] Cons.prems by (auto simp: c_consts)
  then show ?case using Cons by (auto simp: usable_def split: option.splits)
qed simp

text \<open>
  The interface is the first one with an IPv4 address whose name does not contain
  \<open>lo\<close>: for names that fit, \<open>get_ifa_name\<close> stores that name, padded
  with zeros, and returns 0, and returns -1 with an empty name when there is none; it never
  writes outside its array.
\<close>

lemma get_ifa_name_find:
  assumes "\<forall>it \<in> set its. name_ok it"
  shows "get_ifa_name its =
    Inr (case find usable its of
           None \<Rightarrow> (- 1, replicate IFNAMSIZ 0)
         | Some it \<Rightarrow> (0, ifa_name it @ replicate (IFNAMSIZ - length (ifa_name it)) 0))"
proof (cases "find usable its")
  case None
  then show ?thesis
    using assms pick_ifa_find [of its]
    by (simp add: get_ifa_name_def name_ok_def mem_read_def c_consts)
next
  case (Some it)
  then have ok: "name_ok it" using assms by (auto simp: find_Some_iff)
  then have "c_strcpy (replicate IFNAMSIZ 0) (ifa_name it @ [0]) =
      Inr (ifa_name it @ 0 # drop (length (ifa_name it) + 1) (replicate IFNAMSIZ 0))"
    by (intro c_strcpy_ok) (auto simp: name_ok_def)
  moreover have "0 # drop (length (ifa_name it) + 1) (replicate IFNAMSIZ (0 :: u8)) =
      replicate (IFNAMSIZ - length (ifa_name it)) 0"
    using ok by (auto simp: name_ok_def Suc_diff_Suc simp flip: replicate_Suc)
  moreover obtain c cs where "ifa_name it = c # cs" "c \<noteq> 0"
    using ok by (cases "ifa_name it") (auto simp: name_ok_def)
  ultimately show ?thesis
    using assms Some pick_ifa_find [of its]
    by (simp add: get_ifa_name_def name_ok_def mem_read_def)
qed

text \<open>
  An interface whose name merely contains \<open>lo\<close> is passed over like the loopback device: a
  host whose only interface is the wireless card \<open>wlo1\<close> has no interface for the program.
\<close>

lemma name_containing_lo_skipped:
  assumes "ifa_name it = pre @ LO_STR @ post" and "0 \<notin> set pre" and "0 \<notin> set post"
  shows "get_ifa_name (it # its) = get_ifa_name its"
proof -
  have "sublist LO_STR (ifa_name it)" using assms(1) by (auto simp: sublist_def)
  moreover have "0 \<notin> set (ifa_name it)" using assms by (auto simp: c_consts)
  ultimately obtain i where "c_strstr LO_STR (ifa_name it @ [0]) = Inr (Some i)"
    using c_strstr_sublist [of LO_STR "ifa_name it"] by (auto simp: c_consts)
  then have "pick_ifa (it # its) = pick_ifa its" by (simp split: option.splits)
  then show ?thesis by (simp add: get_ifa_name_def)
qed

section \<open>The device\<close>

definition dev_name :: "nat \<Rightarrow> u8 list" where
  "dev_name i = map of_char (''/dev/bpf'' @ dec_str i)"

lemma dev_name_no_zero: "0 \<notin> set (dev_name i)"
proof -
  have "(0 :: u8) \<notin> of_char ` hex_digits" by (simp add: hex_digits_def)
  then have "(0 :: u8) \<notin> of_char ` set (dec_str i)"
    using dec_str_digits [of i] by blast
  then show ?thesis by (auto simp: dev_name_def)
qed

lemma dev_path_fits: "i < 100 \<Longrightarrow> length (dev_path i) \<le> 11"
  using length_num_str [of 10 i 1] by (simp add: dev_path_def dec_str_def)

lemma print_dev_path:
  assumes "i < 100" and "length buf = 11"
  shows "\<exists>buf'. mem_write buf 0 (dev_path i) = Inr buf' \<and> length buf' = 11 \<and>
    takeWhile (\<lambda>b. b \<noteq> 0) buf' = dev_name i"
proof -
  have path: "dev_path i = dev_name i @ [0]" by (simp add: dev_path_def dev_name_def)
  have "takeWhile (\<lambda>b. b \<noteq> 0) (dev_name i @ 0 # r) = dev_name i" for r
    using dev_name_no_zero [of i] by (subst takeWhile_append2) auto
  moreover have "length (dev_name i) + 1 \<le> 11"
    using dev_path_fits [OF assms(1)] by (simp add: path)
  ultimately show ?thesis using assms(2) by (simp add: mem_write_def path)
qed

lemma open_bpf_first:
  assumes "i + k \<le> 100" and "length buf = 11"
  shows "open_bpf dev k i buf fd =
    Inr (case find (\<lambda>j. 0 \<le> dev (dev_name j)) [i..<i + k] of
           Some j \<Rightarrow> (dev (dev_name j), True)
         | None \<Rightarrow> (if k = 0 then fd else dev (dev_name (i + k - 1)), False))"
  using assms
proof (induction k arbitrary: i buf fd)
  case (Suc k)
  then obtain buf' where buf': "mem_write buf 0 (dev_path i) = Inr buf'" "length buf' = 11"
      "takeWhile (\<lambda>b. b \<noteq> 0) buf' = dev_name i"
    using print_dev_path [of i buf] by auto
  have "[i..<i + Suc k] = i # [Suc i..<Suc i + k]" by (simp add: upt_rec)
  then show ?case using buf' Suc.IH [of "Suc i" buf'] Suc.prems
    by (auto split: option.split)
qed simp

definition padded_name :: "ifaddr \<Rightarrow> u8 list" where
  "padded_name it = ifa_name it @ replicate (IFNAMSIZ - length (ifa_name it)) 0"

lemma takeWhile_name: "name_ok it \<Longrightarrow> takeWhile (\<lambda>b. b \<noteq> 0) (ifa_name it @ 0 # r) = ifa_name it"
  by (subst takeWhile_append2) (auto simp: name_ok_def)

lemma padded_name_zero: "name_ok it \<Longrightarrow> \<exists>r. padded_name it = ifa_name it @ 0 # r"
  by (cases "IFNAMSIZ - length (ifa_name it)") (auto simp: padded_name_def name_ok_def)

lemma padded_name_str: "name_ok it \<Longrightarrow> takeWhile (\<lambda>b. b \<noteq> 0) (padded_name it) = ifa_name it"
  using padded_name_zero takeWhile_name by metis

text \<open>What attaching comes to when the interface's name is stored.\<close>

definition attached :: "eth_env \<Rightarrow> ifaddr \<Rightarrow> eth_state \<Rightarrow> int \<times> eth_state" where
  "attached env it st =
     (case find (\<lambda>j. 0 \<le> open_dev env (dev_name j)) [0..<99] of
         None \<Rightarrow> (- 1, st\<lparr>bpf := open_dev env (dev_name 98)\<rparr>)
       | Some j \<Rightarrow>
           (let st = st\<lparr>bpf := open_dev env (dev_name j)\<rparr>
            in if 0 < ioctl_setif env (ifa_name it) then (- 1, st)
               else if ioctl_immediate env < 0 \<or> ioctl_gblen env < 0 then (- 1, st\<lparr>buf_size := 1\<rparr>)
               else (0, st\<lparr>buf_size := gblen env\<rparr>)))"

lemma eth_attach_result:
  assumes "name_ok it" and "length (ifr_stack env) = IFNAMSIZ" and "ifname st = padded_name it"
  shows "eth_attach env st = Inr (attached env it st)"
proof -
  obtain ifr where "c_strcpy (ifr_stack env) (padded_name it) = Inr ifr"
      "takeWhile (\<lambda>b. b \<noteq> 0) ifr = ifa_name it"
    using padded_name_zero [OF assms(1)] c_strcpy_ok [of "ifa_name it" "ifr_stack env"] assms(2)
      takeWhile_name [OF assms(1)] assms(1) by (auto simp: name_ok_def)
  then show ?thesis
    using open_bpf_first [of 0 99 "replicate 11 0" "open_dev env"] assms(3)
    by (cases "find (\<lambda>j. 0 \<le> open_dev env (dev_name j)) [0..<99]")
      (simp_all add: eth_attach_def attached_def Let_def)
qed

lemma eth_init_found:
  assumes "\<forall>it \<in> set (ifas env). name_ok it" and "length (ifr_stack env) = IFNAMSIZ"
    and "find usable (ifas env) = Some it"
  shows "eth_init env st = Inr (attached env it (st\<lparr>ifname := padded_name it\<rparr>))"
proof -
  have "name_ok it" using assms by (auto simp: find_Some_iff)
  moreover have "get_ifa_name (ifas env) = Inr (0, padded_name it)"
    using get_ifa_name_find [OF assms(1)] assms(3) by (simp add: padded_name_def)
  ultimately show ?thesis
    using eth_attach_result [OF _ assms(2), of it] by (simp add: eth_init_def)
qed

text \<open>
  C34. What makes the set-up succeed: it never faults, it returns 0 or -1, and it returns 0
  exactly when there is a usable interface, one of the devices 0 to 98 opens, the two calls on
  the buffer succeed, and the call that binds the interface does not return a positive number;
  the descriptor is then the one of the first device that opened. A failed bind returns -1 and
  so does not make the set-up fail.
\<close>

theorem eth_init_success_iff:
  assumes "\<forall>it \<in> set (ifas env). name_ok it" and "length (ifr_stack env) = IFNAMSIZ"
  shows "\<exists>ret st'. eth_init env st = Inr (ret, st') \<and> ret \<in> {0, - 1} \<and>
    (ret = 0 \<longleftrightarrow> (\<exists>it j. find usable (ifas env) = Some it \<and>
       find (\<lambda>j. 0 \<le> open_dev env (dev_name j)) [0..<99] = Some j \<and>
       ioctl_setif env (ifa_name it) \<le> 0 \<and> 0 \<le> ioctl_immediate env \<and> 0 \<le> ioctl_gblen env)) \<and>
    (\<forall>it j. ret = 0 \<and> find usable (ifas env) = Some it \<and>
       find (\<lambda>j. 0 \<le> open_dev env (dev_name j)) [0..<99] = Some j \<longrightarrow>
       bpf st' = open_dev env (dev_name j) \<and> buf_size st' = gblen env \<and>
       takeWhile (\<lambda>b. b \<noteq> 0) (ifname st') = ifa_name it)"
proof (cases "find usable (ifas env)")
  case None
  then show ?thesis
    using get_ifa_name_find [OF assms(1)] by (simp add: eth_init_def eth_attach_def Let_def)
next
  case (Some it)
  then have "name_ok it" using assms by (auto simp: find_Some_iff)
  then show ?thesis
    using padded_name_str [of it] Some
    unfolding eth_init_found [OF assms Some]
    by (cases "find (\<lambda>j. 0 \<le> open_dev env (dev_name j)) [0..<99]") (simp_all add: attached_def Let_def)
qed

section \<open>Frames\<close>

lemma max_l: "ETHER_HDR_LEN + (ETHER_MAX_LEN - ETHER_HDR_LEN) = 1518"
  by (simp add: c_consts)

text \<open>A BPF header: its bytes 16 and 17 hold its own length.\<close>

definition bpf_header :: "u8 list \<Rightarrow> bool" where
  "bpf_header hdr \<longleftrightarrow> 18 \<le> length hdr \<and> length hdr < 2 ^ 16 \<and>
     take 2 (drop 16 hdr) = st16 (of_nat (length hdr))"

lemma unat_of_nat_u16 [simp]: "n < 65536 \<Longrightarrow> unat (of_nat n :: u16) = n"
  by (simp add: unat_of_nat take_bit_eq_mod)

lemma take_short_end: "n \<le> length xs + k \<Longrightarrow> take n (xs @ replicate k c @ r) = take n (xs @ replicate k c)"
  by simp

text \<open>
  What one \<open>read\<close> leaves in the frame object when the buffer has room for the copy:
  everything behind the first header, further packets included, and zeros.
\<close>

definition delivered :: "u8 list \<Rightarrow> u8 list \<Rightarrow> u8 list" where
  "delivered hdr pkt = take 1518 (pkt @ replicate (length hdr) 0)"

definition read_fits :: "nat \<Rightarrow> u8 list \<Rightarrow> u8 list \<Rightarrow> bool" where
  "read_fits bl hdr pkt \<longleftrightarrow> bpf_header hdr \<and> length hdr + length pkt \<le> bl \<and>
     length hdr + min (length hdr + length pkt) 1518 \<le> bl"

lemma wait_eth_frame_block:
  assumes "read_fits bl hdr pkt" and "length frame = 1518"
  shows "wait_eth_frame (ReadBytes (hdr @ pkt)) stack bl frame =
    Inr (min (length hdr + length pkt) 1518,
      delivered hdr pkt @ drop (length (delivered hdr pkt)) frame)"
proof -
  let ?h = "length hdr" and ?p = "length pkt" and ?d = "delivered hdr pkt"
  let ?c = "min (?h + ?p) 1518" and ?z = "replicate (bl - (?h + ?p)) (0 :: u8) @ stack"
  have hdr: "bpf_header hdr" and fits: "?h + ?p \<le> bl" "?h + ?c \<le> bl"
    using assms(1) by (simp_all add: read_fits_def)
  have all: "take bl (hdr @ pkt) = hdr @ pkt" "drop (?h + ?p) (replicate bl (0 :: u8) @ stack) = ?z"
      "?h + ?p - bl = 0"
    using fits(1) by simp_all
  have c: "(if length (hdr @ pkt) < 1518 then length (hdr @ pkt) else 1518) = ?c"
    by (simp add: min_def)
  have len: "mem_block (hdr @ pkt @ ?z) BH_HDRLEN_OFF 2 = Inr (st16 (of_nat ?h))"
    using hdr by (simp add: mem_block_def bpf_header_def c_consts)
  have blk: "mem_block (hdr @ pkt @ ?z) ?h ?c = Inr ?d"
    using fits by (auto simp: mem_block_def delivered_def min_def)
  have d: "length ?d = ?c" by (auto simp: delivered_def min_def)
  then have "mem_write frame 0 ?d = Inr (?d @ drop (length ?d) frame)"
    using mem_write_front [of ?d frame] assms(2) by simp
  moreover have "0 < ?h + ?p" "unat (of_nat ?h :: u16) = ?h" using hdr by (auto simp: bpf_header_def)
  ultimately show ?thesis
    using len blk c d unfolding wait_eth_frame_def max_l Let_def read_result.case all
    by (simp add: all(2,3))
qed

lemma wait_eth_frame_copies:
  assumes "bpf_header hdr" and "2 * length hdr + length pkt \<le> bl" and "length frame = 1518"
  shows "wait_eth_frame (ReadBytes (hdr @ pkt)) stack bl frame =
    Inr (min (length hdr + length pkt) 1518,
      take 1518 (pkt @ replicate (length hdr) 0 @ drop (length hdr + length pkt) frame))"
proof -
  have "read_fits bl hdr pkt" using assms(1,2) by (auto simp: read_fits_def)
  moreover have "delivered hdr pkt @ drop (length (delivered hdr pkt)) frame =
      take 1518 (pkt @ replicate (length hdr) 0 @ drop (length hdr + length pkt) frame)"
    using assms(3) by (cases "length hdr + length pkt \<le> 1518") (auto simp: delivered_def min_def add.commute)
  ultimately show ?thesis using wait_eth_frame_block [OF _ assms(3)] by simp
qed

text \<open>
  C33. Reception: when the packet filter delivers one packet with its header, and the buffer has
  room for a second header, the frame object starts with the packet, cut at 1518 bytes. As many
  zeros as the header has bytes follow it, and the rest of the object keeps the bytes of the
  frame before. The count returned is the packet's length plus the header's.
\<close>

theorem wait_eth_frame_delivers:
  assumes "bpf_header hdr" and "2 * length hdr + length pkt \<le> bl" and "length frame = 1518"
  shows "wait_eth_frame (ReadBytes (hdr @ pkt)) stack bl frame =
    Inr (min (length hdr + length pkt) 1518,
      take 1518 (pkt @ replicate (length hdr) 0 @ drop (length hdr + length pkt) frame))"
  using wait_eth_frame_copies [OF assms] .

text \<open>
  A failed \<open>read\<close> is taken for a full frame: -1 is stored in a
  \<open>size_t\<close>, so the function reports 1518 bytes and has overwritten the frame object
  with the cleared buffer.
\<close>

lemma failed_read_reported_as_frame:
  assumes "1518 \<le> bl" and "length frame = 1518"
  shows "wait_eth_frame ReadError stack bl frame = Inr (1518, replicate 1518 0)"
proof -
  have blk: "mem_block (replicate bl 0 @ stack) i n = Inr (replicate n 0)" if "i + n \<le> 1518" for i n
    using assms(1) that by (simp add: mem_block_def min_def)
  have "ld16 (replicate 2 0) = 0" by (simp add: numeral_2_eq_2)
  moreover have "mem_write frame 0 (replicate 1518 0) = Inr (replicate 1518 0)"
    using mem_write_front [of "replicate 1518 0" frame] assms(2) by simp
  ultimately show ?thesis
    unfolding wait_eth_frame_def max_l Let_def read_result.case by (simp add: c_consts blk)
qed

section \<open>Printing\<close>

lemma print_mac_inject:
  "print_mac_addr a @ r = print_mac_addr b @ r' \<Longrightarrow> length a = 6 \<Longrightarrow> length b = 6 \<Longrightarrow> a = b \<and> r = r'"
  unfolding print_mac_addr_def
  by (drule print_sep_inject) (simp_all add: hex_str_digits)

text \<open>
  The printout of a frame shows its header: two frames with the same printout have the same
  14 bytes of addresses and type.
\<close>

lemma print_eth_frame_inject:
  assumes "print_eth_frame f = print_eth_frame g" and "14 \<le> length f" and "14 \<le> length g"
  shows "take 14 f = take 14 g"
proof -
  have split: "take 14 x = take 6 x @ take 6 (drop 6 x) @ take 2 (drop 12 x)" for x :: "u8 list"
    using take_add [of 6 8 x] take_add [of 6 2 "drop 6 x"] by simp
  have "take 6 f = take 6 g" and r: "take 6 (drop 6 f) = take 6 (drop 6 g) \<and>
      hex_str (unat (ntohs (ld16 (take 2 (drop 12 f))))) =
      hex_str (unat (ntohs (ld16 (take 2 (drop 12 g)))))"
    using assms by (auto simp: print_eth_frame_def dest!: print_mac_inject)
  moreover have "take 2 (drop 12 f) = take 2 (drop 12 g)"
  proof -
    have "ntohs (ld16 (take 2 (drop 12 f))) = ntohs (ld16 (take 2 (drop 12 g)))"
      using r by (auto intro: unsigned_word_eqI)
    then have "ld16 (take 2 (drop 12 f)) = ld16 (take 2 (drop 12 g))"
      by (rule n16.ntoh_eq)
    moreover have "length (take 2 (drop 12 f)) = 2" "length (take 2 (drop 12 g)) = 2"
      using assms(2,3) by simp_all
    ultimately show ?thesis by (metis st16_ld16)
  qed
  ultimately show ?thesis by (simp only: split)
qed

section \<open>Instances\<close>

definition sample_ifa :: ifaddr where
  "sample_ifa = \<lparr>ifa_name = [101, 110, 48], ifa_addr = Some (2, 0x018F200A),
     ifa_broadaddr = Some 0xFF8F200A, ifa_netmask = Some 0x00FFFFFF\<rparr>"

definition sample_wlo1 :: ifaddr where
  "sample_wlo1 = sample_ifa\<lparr>ifa_name := [119, 108, 111, 49]\<rparr>"

definition sample_eth_env :: eth_env where
  "sample_eth_env = \<lparr>ifas = [sample_ifa], open_dev = (\<lambda>p. 3), ioctl_setif = (\<lambda>n. - 1),
     ioctl_immediate = 0, ioctl_gblen = 0, gblen = 4096, ifr_stack = replicate 16 0\<rparr>"

lemma sample_ifa_ok: "name_ok sample_ifa" "usable sample_ifa"
  by (simp_all add: name_ok_def usable_def sample_ifa_def c_consts sublist_Cons_right)

lemma name_containing_lo_skipped_witness:
  "get_ifa_name [sample_wlo1, sample_ifa] = get_ifa_name [sample_ifa]"
  by (rule name_containing_lo_skipped [where pre = "[119]" and post = "[49]"])
    (simp_all add: sample_wlo1_def c_consts)

theorem eth_init_success_iff_witness:
  "\<exists>st'. eth_init sample_eth_env \<lparr>ifname = [], buf_size = 0, bpf = 0\<rparr> = Inr (0, st') \<and> bpf st' = 3"
proof -
  have env: "ifas sample_eth_env = [sample_ifa]" "open_dev sample_eth_env = (\<lambda>p. 3)"
      "ioctl_setif sample_eth_env = (\<lambda>n. - 1)" "ioctl_immediate sample_eth_env = 0"
      "ioctl_gblen sample_eth_env = 0" "ifr_stack sample_eth_env = replicate 16 0"
    by (simp_all add: sample_eth_env_def)
  have first: "find (\<lambda>j. True) [0..<99] = Some 0" by (simp add: upt_rec)
  show ?thesis
    using eth_init_success_iff [of sample_eth_env "\<lparr>ifname = [], buf_size = 0, bpf = 0\<rparr>"]
      sample_ifa_ok by (auto simp: env first c_consts)
qed

theorem wait_eth_frame_delivers_witness:
  "wait_eth_frame (ReadBytes ((replicate 16 0 @ [18, 0]) @ [1, 2, 3])) [] 64 (replicate 1518 7) =
    Inr (21, take 1518 ([1, 2, 3] @ replicate 18 0 @ replicate 1497 7))"
  using wait_eth_frame_delivers [of "replicate 16 0 @ [18, 0]" "[1, 2, 3]" 64 "replicate 1518 7" "[]"]
  by (simp add: bpf_header_def st16_def)

lemma failed_read_reported_as_frame_witness:
  "wait_eth_frame ReadError [] 4096 (replicate 1518 7) = Inr (1518, replicate 1518 0)"
  by (rule failed_read_reported_as_frame) simp_all

lemma print_eth_frame_inject_witness:
  "print_eth_frame (replicate 14 1 @ [2]) = print_eth_frame (replicate 14 1 @ [3]) \<and>
   take 14 (replicate 14 1 @ [2 :: u8]) = take 14 (replicate 14 1 @ [3])"
proof -
  have "print_eth_frame (replicate 14 1 @ [2]) = print_eth_frame (replicate 14 1 @ [3])"
    by (simp add: print_eth_frame_def)
  with print_eth_frame_inject [OF this] show ?thesis by simp
qed

end
