(* ===== verification/Dhcp_Header.thy ===== *)
theory Dhcp_Header
  imports C_Memory
begin

text \<open>
  The DHCP header of \<open>TF/dhcp.h\<close> and the two conversions of \<open>TF/dhcp.c\<close>
  between the struct and the bytes of a datagram.

  \<open>dhcp_hdr\<close> is the struct, its integer fields as the words the program sees and its
  arrays as byte lists; \<open>wf_hdr\<close> says the arrays have their declared lengths.
  \<open>hdr_bytes\<close> is the object representation of the struct (the fields in order; the
  struct has no padding, since every field starts at a multiple of its size) and
  \<open>bytes_hdr\<close> reads it back. \<open>memcpy\<close> to and from the struct goes
  through them.
\<close>

section \<open>The struct\<close>

definition CLT_HRD_ADDR_L :: nat where [c_consts]: "CLT_HRD_ADDR_L = 16"
definition SRV_HST_L :: nat where [c_consts]: "SRV_HST_L = 64"
definition BOOT_FLN_L :: nat where [c_consts]: "BOOT_FLN_L = 128"
definition OPT_MAX_L :: nat where [c_consts]: "OPT_MAX_L = 312"

record dhcp_hdr =
  opcode :: u8
  hrd_t :: u8
  hrd_addr_l :: u8
  hop_c :: u8
  trs_id :: u32
  num_s :: u16
  flags :: u16
  clt_ip :: u32
  own_ip :: u32
  srv_ip :: u32
  gtw_ip :: u32
  clt_hrd_addr :: "u8 list"
  srv_hst :: "u8 list"
  boot_fln :: "u8 list"
  opt :: "u8 list"

definition wf_hdr :: "dhcp_hdr \<Rightarrow> bool" where
  "wf_hdr h \<longleftrightarrow> length (clt_hrd_addr h) = CLT_HRD_ADDR_L \<and> length (srv_hst h) = SRV_HST_L \<and>
     length (boot_fln h) = BOOT_FLN_L \<and> length (opt h) = OPT_MAX_L"

text \<open>\<open>sizeof (dhcp_hdr)\<close>, and the value \<open>memset (&hdr, 0, sizeof (hdr))\<close> gives it.\<close>

definition sizeof_dhcp_hdr :: nat where
  "sizeof_dhcp_hdr = 28 + CLT_HRD_ADDR_L + SRV_HST_L + BOOT_FLN_L + OPT_MAX_L"

lemma sizeof_dhcp_hdr_548 [c_consts]: "sizeof_dhcp_hdr = 548"
  by (simp add: sizeof_dhcp_hdr_def c_consts)

definition hdr_bytes :: "dhcp_hdr \<Rightarrow> u8 list" where
  "hdr_bytes h =
     [opcode h, hrd_t h, hrd_addr_l h, hop_c h] @ st32 (trs_id h) @ st16 (num_s h) @
     st16 (flags h) @ st32 (clt_ip h) @ st32 (own_ip h) @ st32 (srv_ip h) @ st32 (gtw_ip h) @
     clt_hrd_addr h @ srv_hst h @ boot_fln h @ opt h"

definition bytes_hdr :: "u8 list \<Rightarrow> dhcp_hdr" where
  "bytes_hdr m =
     \<lparr>opcode = m ! 0, hrd_t = m ! 1, hrd_addr_l = m ! 2, hop_c = m ! 3,
      trs_id = ld32 (take 4 (drop 4 m)), num_s = ld16 (take 2 (drop 8 m)),
      flags = ld16 (take 2 (drop 10 m)), clt_ip = ld32 (take 4 (drop 12 m)),
      own_ip = ld32 (take 4 (drop 16 m)), srv_ip = ld32 (take 4 (drop 20 m)),
      gtw_ip = ld32 (take 4 (drop 24 m)), clt_hrd_addr = take 16 (drop 28 m),
      srv_hst = take 64 (drop 44 m), boot_fln = take 128 (drop 108 m),
      opt = take 312 (drop 236 m)\<rparr>"

definition zero_hdr :: dhcp_hdr where
  "zero_hdr = bytes_hdr (replicate sizeof_dhcp_hdr 0)"

lemma length_hdr_bytes [simp]: "wf_hdr h \<Longrightarrow> length (hdr_bytes h) = sizeof_dhcp_hdr"
  by (simp add: hdr_bytes_def wf_hdr_def c_consts sizeof_dhcp_hdr_def)

lemma wf_bytes_hdr [simp]: "length m = sizeof_dhcp_hdr \<Longrightarrow> wf_hdr (bytes_hdr m)"
  by (simp add: bytes_hdr_def wf_hdr_def c_consts)

lemma wf_zero_hdr [simp]: "wf_hdr zero_hdr"
  by (simp add: zero_hdr_def)

lemma bytes_hdr_hdr_bytes [simp]: "wf_hdr h \<Longrightarrow> bytes_hdr (hdr_bytes h) = h"
  by (simp add: bytes_hdr_def hdr_bytes_def wf_hdr_def c_consts nth_append)

lemma hdr_bytes_bytes_hdr [simp]:
  assumes "length m = sizeof_dhcp_hdr"
  shows "hdr_bytes (bytes_hdr m) = m"
proof -
  have len: "length m = 548" using assms by (simp add: c_consts)
  have "drop 0 m = [m ! 0, m ! 1, m ! 2, m ! 3] @ drop 4 m"
    using take_drop_split [of 0 4 m] take4_nth [of m] len by simp
  also have "drop 4 m = take 4 (drop 4 m) @ drop 8 m"
    using take_drop_split [of 4 4 m] len by simp
  also have "drop 8 m = take 2 (drop 8 m) @ drop 10 m"
    using take_drop_split [of 8 2 m] len by simp
  also have "drop 10 m = take 2 (drop 10 m) @ drop 12 m"
    using take_drop_split [of 10 2 m] len by simp
  also have "drop 12 m = take 4 (drop 12 m) @ drop 16 m"
    using take_drop_split [of 12 4 m] len by simp
  also have "drop 16 m = take 4 (drop 16 m) @ drop 20 m"
    using take_drop_split [of 16 4 m] len by simp
  also have "drop 20 m = take 4 (drop 20 m) @ drop 24 m"
    using take_drop_split [of 20 4 m] len by simp
  also have "drop 24 m = take 4 (drop 24 m) @ drop 28 m"
    using take_drop_split [of 24 4 m] len by simp
  also have "drop 28 m = take 16 (drop 28 m) @ drop 44 m"
    using take_drop_split [of 28 16 m] len by simp
  also have "drop 44 m = take 64 (drop 44 m) @ drop 108 m"
    using take_drop_split [of 44 64 m] len by simp
  also have "drop 108 m = take 128 (drop 108 m) @ drop 236 m"
    using take_drop_split [of 108 128 m] len by simp
  also have "drop 236 m = take 312 (drop 236 m)"
    using len by simp
  finally show ?thesis
    using len by (simp add: hdr_bytes_def bytes_hdr_def)
qed

section \<open>Conversions\<close>

text \<open>
  \<open>set_dhcp_hdr_from_bytes (pkg, ptr, ptr_l)\<close> copies \<open>ptr_l\<close> bytes over
  the struct and converts three fields; the copy faults when \<open>ptr\<close> has fewer bytes
  or the struct does not hold that many. The address fields stay in network order (their
  conversion is commented out in the source).
\<close>

definition set_dhcp_hdr_from_bytes :: "dhcp_hdr \<Rightarrow> u8 list \<Rightarrow> nat \<Rightarrow> dhcp_hdr outcome" where
  "set_dhcp_hdr_from_bytes pkg ptr ptr_l =
     seqE (mem_block ptr 0 ptr_l) (\<lambda>data.
     seqE (mem_write (hdr_bytes pkg) 0 data) (\<lambda>m.
     (let pkg = bytes_hdr m;
          pkg = pkg\<lparr>trs_id := ntohl (trs_id pkg)\<rparr>;
          pkg = pkg\<lparr>num_s := ntohs (num_s pkg)\<rparr>;
          pkg = pkg\<lparr>flags := ntohs (flags pkg)\<rparr>
      in Inr pkg)))"

text \<open>
  \<open>set_bytes_from_dhcp_hdr (pkg, ptr, ptr_l)\<close> converts the struct in place, so the
  result holds the struct as it is left and the buffer. Too small a \<open>ptr_l\<close> leaves
  the buffer alone and prints a message; the struct is converted all the same.
\<close>

definition set_bytes_from_dhcp_hdr ::
  "dhcp_hdr \<Rightarrow> u8 list \<Rightarrow> nat \<Rightarrow> (dhcp_hdr \<times> u8 list \<times> string list) outcome" where
  "set_bytes_from_dhcp_hdr pkg ptr ptr_l =
     (let pkg = pkg\<lparr>trs_id := htonl (trs_id pkg)\<rparr>;
          pkg = pkg\<lparr>num_s := htons (num_s pkg)\<rparr>;
          pkg = pkg\<lparr>flags := htons (flags pkg)\<rparr>
      in if ptr_l \<ge> sizeof_dhcp_hdr
         then seqE (mem_write ptr 0 (hdr_bytes pkg)) (\<lambda>ptr. Inr (pkg, ptr, []))
         else Inr (pkg, ptr,
           [''Couldn't copy dhcp_hdr to pointer, the pointer size is too small'']))"

text \<open>The bytes a header has on the wire.\<close>

definition wire_bytes :: "dhcp_hdr \<Rightarrow> u8 list" where
  "wire_bytes h =
     [opcode h, hrd_t h, hrd_addr_l h, hop_c h] @ rev (st32 (trs_id h)) @ rev (st16 (num_s h)) @
     rev (st16 (flags h)) @ st32 (clt_ip h) @ st32 (own_ip h) @ st32 (srv_ip h) @
     st32 (gtw_ip h) @ clt_hrd_addr h @ srv_hst h @ boot_fln h @ opt h"

definition to_net :: "dhcp_hdr \<Rightarrow> dhcp_hdr" where
  "to_net h = h\<lparr>trs_id := htonl (trs_id h), num_s := htons (num_s h), flags := htons (flags h)\<rparr>"

lemma wf_to_net [simp]: "wf_hdr (to_net h) = wf_hdr h"
  by (simp add: wf_hdr_def to_net_def)

lemma hdr_bytes_to_net: "hdr_bytes (to_net h) = wire_bytes h"
  by (simp add: hdr_bytes_def to_net_def wire_bytes_def)

lemma length_wire_bytes [simp]: "wf_hdr h \<Longrightarrow> length (wire_bytes h) = sizeof_dhcp_hdr"
  using length_hdr_bytes [of "to_net h"] by (simp add: hdr_bytes_to_net)

lemma set_bytes_ok:
  assumes "wf_hdr pkg" and "length ptr = sizeof_dhcp_hdr"
  shows "set_bytes_from_dhcp_hdr pkg ptr sizeof_dhcp_hdr = Inr (to_net pkg, wire_bytes pkg, [])"
proof -
  have "length (hdr_bytes (to_net pkg)) = sizeof_dhcp_hdr"
    using assms(1) by simp
  then have "mem_write ptr 0 (hdr_bytes (to_net pkg)) = Inr (wire_bytes pkg)"
    using assms(2) by (simp add: mem_write_def hdr_bytes_to_net)
  then show ?thesis
    by (simp add: set_bytes_from_dhcp_hdr_def to_net_def)
qed

lemma set_hdr_ok:
  assumes "wf_hdr pkg" and "n = length data" and "n \<le> sizeof_dhcp_hdr"
  shows "set_dhcp_hdr_from_bytes pkg data n =
    (let h = bytes_hdr (data @ drop n (hdr_bytes pkg))
     in Inr (h\<lparr>trs_id := ntohl (trs_id h), num_s := ntohs (num_s h), flags := ntohs (flags h)\<rparr>))"
  using assms by (simp add: set_dhcp_hdr_from_bytes_def mem_block_def mem_write_def Let_def)

section \<open>Properties\<close>

text \<open>
  C12. Round trip through a datagram: writing a header to a buffer of \<open>sizeof (dhcp_hdr)\<close>
  bytes and reading that buffer back into any header object gives the header that was
  written, every field included.
\<close>

theorem header_roundtrip:
  assumes "wf_hdr h" and "wf_hdr old" and "length buf = sizeof_dhcp_hdr"
  shows "seqE (set_bytes_from_dhcp_hdr h buf sizeof_dhcp_hdr)
           (\<lambda>(_, bytes, _). set_dhcp_hdr_from_bytes old bytes sizeof_dhcp_hdr) = Inr h"
proof -
  have "bytes_hdr (wire_bytes h) = to_net h"
    using assms(1) by (metis hdr_bytes_to_net wf_to_net bytes_hdr_hdr_bytes)
  then show ?thesis
    using assms set_hdr_ok [OF assms(2), of sizeof_dhcp_hdr "wire_bytes h"]
    by (simp add: set_bytes_ok to_net_def)
qed

text \<open>
  The wire format: the bytes written for a header are 548 bytes in the order of the
  protocol, with the transaction id, the seconds and the flags most significant byte first
  and the address fields copied as they lie in memory (they are kept in network order). The
  header object itself is left converted: its three fields are byte-swapped afterwards.
\<close>

lemma header_wire_format:
  assumes "wf_hdr h" and "length buf = sizeof_dhcp_hdr"
  shows "set_bytes_from_dhcp_hdr h buf sizeof_dhcp_hdr = Inr
    (h\<lparr>trs_id := htonl (trs_id h), num_s := htons (num_s h), flags := htons (flags h)\<rparr>,
     [opcode h, hrd_t h, hrd_addr_l h, hop_c h] @ rev (st32 (trs_id h)) @
     rev (st16 (num_s h)) @ rev (st16 (flags h)) @ st32 (clt_ip h) @ st32 (own_ip h) @
     st32 (srv_ip h) @ st32 (gtw_ip h) @ clt_hrd_addr h @ srv_hst h @ boot_fln h @ opt h, [])"
  using set_bytes_ok [OF assms] by (simp add: to_net_def wire_bytes_def)

text \<open>
  A datagram shorter than the struct keeps the old tail: reading \<open>n\<close> bytes into a
  cleared header gives the header of those bytes followed by zeros, and never faults as
  long as the datagram is not longer than the struct.
\<close>

lemma short_datagram_zero_filled:
  assumes "length data \<le> sizeof_dhcp_hdr"
  shows "set_dhcp_hdr_from_bytes zero_hdr data (length data) =
    set_dhcp_hdr_from_bytes zero_hdr (data @ replicate (sizeof_dhcp_hdr - length data) 0)
      sizeof_dhcp_hdr"
proof -
  have "hdr_bytes zero_hdr = replicate sizeof_dhcp_hdr 0"
    by (simp add: zero_hdr_def)
  then show ?thesis
    using assms by (simp add: set_hdr_ok)
qed

text \<open>
  The witnesses of the properties with hypotheses, at the cleared header.
\<close>

theorem header_roundtrip_witness:
  "seqE (set_bytes_from_dhcp_hdr (zero_hdr\<lparr>trs_id := 0x3903F326\<rparr>) (replicate 548 7) 548)
     (\<lambda>(_, bytes, _). set_dhcp_hdr_from_bytes zero_hdr bytes 548) =
   Inr (zero_hdr\<lparr>trs_id := 0x3903F326\<rparr>)"
proof -
  have "wf_hdr (zero_hdr\<lparr>trs_id := 0x3903F326\<rparr>)"
    using wf_zero_hdr by (simp add: wf_hdr_def)
  from header_roundtrip [OF this wf_zero_hdr, of "replicate 548 7"]
  show ?thesis by (simp add: c_consts)
qed

lemma header_wire_format_witness:
  "\<exists>h tl. set_bytes_from_dhcp_hdr (zero_hdr\<lparr>trs_id := 0x3903F326\<rparr>) (replicate 548 7) 548 =
     Inr (h, [0, 0, 0, 0, 0x39, 0x03, 0xF3, 0x26] @ tl, [])"
proof -
  have "wf_hdr (zero_hdr\<lparr>trs_id := 0x3903F326\<rparr>)"
    using wf_zero_hdr by (simp add: wf_hdr_def)
  from header_wire_format [OF this, of "replicate 548 7"]
  show ?thesis by (simp add: c_consts st32_def zero_hdr_def bytes_hdr_def)
qed

lemma short_datagram_zero_filled_witness:
  "set_dhcp_hdr_from_bytes zero_hdr [2, 1, 6] (length [2, 1, 6 :: u8]) =
   set_dhcp_hdr_from_bytes zero_hdr ([2, 1, 6] @ replicate 545 0) 548"
  using short_datagram_zero_filled [of "[2, 1, 6]"] by (simp add: c_consts)

end
