(* ===== verification/Dhcp_Options.thy ===== *)
theory Dhcp_Options
  imports Dhcp_Header
begin

text \<open>
  The options field of a DHCP message (\<open>TF/dhcp.h\<close>, \<open>TF/dhcp.c\<close>): the
  struct \<open>dhcp_opt\<close>, the reader \<open>set_dhcp_opt_from_dhcp_hdr\<close> and the
  writer \<open>set_dhcp_hdr_from_dhcp_opt\<close>, each one definition per \<open>switch\<close>
  case or section of the C function.

  The reader is a loop over a pointer into the 312 bytes of the field. The pointer is an offset,
  each access is checked against the field, and the loop itself is a partial function:
  \<open>None\<close> when the C loop never leaves. The advance of one iteration is an
  \<open>uint8_t\<close>, so it is computed modulo 256.
\<close>

section \<open>Types and constants\<close>

datatype dhcp_msg_t =
  DISCOVER | OFFER | REQUEST | DECLINE | ACK | NAK | RELEASE | INFORM | INVALID

datatype cookie_status_t = OK | NOK

definition MAGIC_COOKIE :: "u8 list" where [c_consts]: "MAGIC_COOKIE = [99, 130, 83, 99]"
definition MAX_HOST_NAME :: nat where [c_consts]: "MAX_HOST_NAME = OPT_MAX_L"
definition ETHER_ADDR_L :: nat where [c_consts]: "ETHER_ADDR_L = 6"
definition IP_ADDR_L :: nat where [c_consts]: "IP_ADDR_L = 4"

definition DHCP_MSG_OP :: u8 where [c_consts]: "DHCP_MSG_OP = 53"
definition DHCP_HST_NAME_OP :: u8 where [c_consts]: "DHCP_HST_NAME_OP = 12"
definition DHCP_CLT_ID_OP :: u8 where [c_consts]: "DHCP_CLT_ID_OP = 61"
definition DHCP_SUB_MSK_OP :: u8 where [c_consts]: "DHCP_SUB_MSK_OP = 1"
definition DHCP_RNW_TIME_OP :: u8 where [c_consts]: "DHCP_RNW_TIME_OP = 58"
definition DHCP_RBN_TIME_OP :: u8 where [c_consts]: "DHCP_RBN_TIME_OP = 59"
definition DHCP_IP_LEASE_TIME_OP :: u8 where [c_consts]: "DHCP_IP_LEASE_TIME_OP = 51"
definition DHCP_SRV_ID_OP :: u8 where [c_consts]: "DHCP_SRV_ID_OP = 54"
definition DHCP_RTR_ID_OP :: u8 where [c_consts]: "DHCP_RTR_ID_OP = 3"
definition DHCP_RQT_ID_OP :: u8 where [c_consts]: "DHCP_RQT_ID_OP = 50"
definition DHCP_DNS_OP :: u8 where [c_consts]: "DHCP_DNS_OP = 6"
definition DHCP_END_OP :: u8 where [c_consts]: "DHCP_END_OP = 255"

record dhcp_opt =
  cookie_status :: cookie_status_t
  dhcp_msg :: dhcp_msg_t
  hst_name :: "u8 list"
  clt_id :: "u8 list"
  sub_msk :: "u8 list"
  rnw_time :: u32
  rbn_time :: u32
  ip_lease_time :: u32
  srv_id :: "u8 list"
  rtr_id :: "u8 list"
  rqt_id :: "u8 list"
  dns_id :: "u8 list"

definition wf_opt :: "dhcp_opt \<Rightarrow> bool" where
  "wf_opt q \<longleftrightarrow> length (hst_name q) = MAX_HOST_NAME \<and> length (clt_id q) = ETHER_ADDR_L \<and>
     length (sub_msk q) = IP_ADDR_L \<and> length (srv_id q) = IP_ADDR_L \<and>
     length (rtr_id q) = IP_ADDR_L \<and> length (rqt_id q) = IP_ADDR_L \<and>
     length (dns_id q) = IP_ADDR_L"

text \<open>\<open>memset (&opt, 0, sizeof (opt))\<close>: the first constant of each enum has value 0.\<close>

definition zero_opt :: dhcp_opt where
  "zero_opt = \<lparr>cookie_status = OK, dhcp_msg = DISCOVER, hst_name = replicate MAX_HOST_NAME 0,
     clt_id = replicate ETHER_ADDR_L 0, sub_msk = replicate IP_ADDR_L 0, rnw_time = 0,
     rbn_time = 0, ip_lease_time = 0, srv_id = replicate IP_ADDR_L 0,
     rtr_id = replicate IP_ADDR_L 0, rqt_id = replicate IP_ADDR_L 0,
     dns_id = replicate IP_ADDR_L 0\<rparr>"

lemma wf_zero_opt [simp]: "wf_opt zero_opt"
  by (simp add: wf_opt_def zero_opt_def)

section \<open>Reading the options\<close>

text \<open>The two \<open>switch\<close> statements on the message type.\<close>

definition msg_of_code :: "u8 \<Rightarrow> dhcp_msg_t" where
  "msg_of_code v =
     (if v = 1 then DISCOVER else if v = 2 then OFFER else if v = 3 then REQUEST
      else if v = 4 then DECLINE else if v = 5 then ACK else if v = 6 then NAK
      else if v = 7 then RELEASE else if v = 8 then INFORM else INVALID)"

fun code_of_msg :: "dhcp_msg_t \<Rightarrow> u8" where
  "code_of_msg DISCOVER = 1"
| "code_of_msg OFFER = 2"
| "code_of_msg REQUEST = 3"
| "code_of_msg DECLINE = 4"
| "code_of_msg ACK = 5"
| "code_of_msg NAK = 6"
| "code_of_msg RELEASE = 7"
| "code_of_msg INFORM = 8"
| "code_of_msg INVALID = 0"

text \<open>The values given to the struct before the loop; \<open>ip_lease_time\<close> is not among them.\<close>

definition reset_opt :: "dhcp_opt \<Rightarrow> dhcp_opt" where
  "reset_opt q = q\<lparr>cookie_status := OK, dhcp_msg := INVALID,
     hst_name := replicate MAX_HOST_NAME 0, clt_id := replicate ETHER_ADDR_L 0,
     sub_msk := replicate IP_ADDR_L 0, rnw_time := 0, rbn_time := 0,
     srv_id := replicate IP_ADDR_L 0, rtr_id := replicate IP_ADDR_L 0,
     rqt_id := replicate IP_ADDR_L 0, dns_id := replicate IP_ADDR_L 0\<rparr>"

definition check_cookie :: "u8 list \<Rightarrow> dhcp_opt \<Rightarrow> dhcp_opt outcome" where
  "check_cookie m q =
     seqE (mem_block m 0 4) (\<lambda>c.
       Inr (if list_ex (\<lambda>i. c ! i \<noteq> MAGIC_COOKIE ! i) [0..<4] then q\<lparr>cookie_status := NOK\<rparr> else q))"

text \<open>
  One iteration: the \<open>switch\<close> on the option code at offset \<open>p\<close>. The
  result is the updated struct and \<open>dhcp_opt_len\<close>, by which the pointer then
  advances. A code that no case handles advances by 1.
\<close>

definition read_option :: "u8 list \<Rightarrow> nat \<Rightarrow> dhcp_opt \<Rightarrow> (dhcp_opt \<times> u8) outcome" where
  "read_option m p q =
     seqE (mem_read m p) (\<lambda>code.
     if code = DHCP_MSG_OP then
       seqE (mem_read m (p + 2)) (\<lambda>v. Inr (q\<lparr>dhcp_msg := msg_of_code v\<rparr>, 3))
     else if code = DHCP_HST_NAME_OP then
       seqE (mem_read m (p + 1)) (\<lambda>str_ll.
       seqE (mem_block m (p + 2) (unat str_ll)) (\<lambda>s.
       seqE (mem_write (hst_name q) 0 s) (\<lambda>h.
       seqE (mem_write h (unat str_ll) [0]) (\<lambda>h.
         Inr (q\<lparr>hst_name := h\<rparr>, 2 + str_ll)))))
     else if code = DHCP_CLT_ID_OP then
       seqE (mem_block m (p + 2) ETHER_ADDR_L) (\<lambda>v.
       seqE (mem_read m (p + 1)) (\<lambda>l. Inr (q\<lparr>clt_id := v\<rparr>, 2 + l)))
     else if code = DHCP_SUB_MSK_OP then
       seqE (mem_block m (p + 2) IP_ADDR_L) (\<lambda>v. Inr (q\<lparr>sub_msk := v\<rparr>, 6))
     else if code = DHCP_RNW_TIME_OP then
       seqE (mem_block m (p + 2) IP_ADDR_L) (\<lambda>v.
       seqE (mem_read m (p + 1)) (\<lambda>l. Inr (q\<lparr>rtr_id := v\<rparr>, 2 + l)))
     else if code = DHCP_RBN_TIME_OP then Inr (q, 6)
     else if code = DHCP_IP_LEASE_TIME_OP then Inr (q, 6)
     else if code = DHCP_SRV_ID_OP then
       seqE (mem_block m (p + 2) IP_ADDR_L) (\<lambda>v. Inr (q\<lparr>srv_id := v\<rparr>, 2 + of_nat IP_ADDR_L))
     else if code = DHCP_RTR_ID_OP then
       seqE (mem_block m (p + 2) IP_ADDR_L) (\<lambda>v.
       seqE (mem_read m (p + 1)) (\<lambda>l. Inr (q\<lparr>rtr_id := v\<rparr>, 2 + l)))
     else if code = DHCP_RQT_ID_OP then
       seqE (mem_block m (p + 2) IP_ADDR_L) (\<lambda>v. Inr (q\<lparr>rqt_id := v\<rparr>, 2 + of_nat IP_ADDR_L))
     else if code = DHCP_DNS_OP then
       seqE (mem_block m (p + 2) IP_ADDR_L) (\<lambda>v.
       seqE (mem_read m (p + 1)) (\<lambda>l. Inr (q\<lparr>dns_id := v\<rparr>, 2 + l)))
     else Inr (q, 1))"

partial_function (option) read_options ::
  "u8 list \<Rightarrow> nat \<Rightarrow> dhcp_opt \<Rightarrow> dhcp_opt outcome option" where
  "read_options m p q =
     (case mem_read m p of
        Inl e \<Rightarrow> Some (Inl e)
      | Inr b \<Rightarrow>
          if b = DHCP_END_OP then Some (Inr q)
          else (case read_option m p q of
                  Inl e \<Rightarrow> Some (Inl e)
                | Inr (q', dhcp_opt_len) \<Rightarrow> read_options m (p + unat dhcp_opt_len) q'))"

definition set_dhcp_opt_from_dhcp_hdr ::
  "dhcp_opt \<Rightarrow> dhcp_hdr \<Rightarrow> dhcp_opt outcome option" where
  "set_dhcp_opt_from_dhcp_hdr q pkg =
     (case check_cookie (opt pkg) (reset_opt q) of
        Inl e \<Rightarrow> Some (Inl e)
      | Inr q' \<Rightarrow> read_options (opt pkg) 4 q')"

section \<open>Writing the options\<close>

text \<open>
  The writer's \<open>ptr\<close> is an offset into the field, threaded with the field through
  the sections. \<open>put\<close> stores bytes at \<open>ptr\<close> and advances it past them:
  the stores of one section go to consecutive bytes from \<open>ptr\<close> on.
\<close>

type_synonym opt_out = "u8 list \<times> nat"

definition put :: "u8 list \<Rightarrow> opt_out \<Rightarrow> opt_out outcome" where
  "put vs s = seqE (mem_write (fst s) (snd s) vs) (\<lambda>m. Inr (m, snd s + length vs))"

definition put_option :: "u8 \<Rightarrow> u8 \<Rightarrow> u8 list \<Rightarrow> opt_out \<Rightarrow> opt_out outcome" where
  "put_option code len data s =
     seqE (put [code] s) (\<lambda>s. seqE (put [len] s) (\<lambda>s. put data s))"

text \<open>The loops that set a \<open>_v\<close> flag: 1 when one of the bytes is not 0.\<close>

definition valid_flag :: "u8 list \<Rightarrow> int" where
  "valid_flag bs = (if list_ex (\<lambda>b. b \<noteq> 0) bs then 1 else 0)"

definition put_msg :: "dhcp_opt \<Rightarrow> opt_out \<Rightarrow> opt_out outcome" where
  "put_msg q s =
     (let dhcp_msg_type = code_of_msg (dhcp_msg q)
      in if dhcp_msg_type \<noteq> 0 then put_option DHCP_MSG_OP 1 [dhcp_msg_type] s else Inr s)"

definition put_hst_name :: "dhcp_opt \<Rightarrow> opt_out \<Rightarrow> opt_out outcome" where
  "put_hst_name q s =
     seqE (c_strlen (hst_name q)) (\<lambda>hst_name_l.
       if hst_name_l \<noteq> 0
       then put_option DHCP_HST_NAME_OP (of_nat hst_name_l) (take hst_name_l (hst_name q)) s
       else Inr s)"

definition put_clt_id :: "dhcp_opt \<Rightarrow> opt_out \<Rightarrow> opt_out outcome" where
  "put_clt_id q s =
     (if valid_flag (clt_id q) \<noteq> 0
      then put_option DHCP_CLT_ID_OP (of_nat ETHER_ADDR_L + 1) (1 # clt_id q) s
      else Inr s)"

definition put_addr :: "u8 \<Rightarrow> u8 list \<Rightarrow> opt_out \<Rightarrow> opt_out outcome" where
  "put_addr code a s =
     (if valid_flag a \<noteq> 0 then put_option code (of_nat IP_ADDR_L) a s else Inr s)"

definition put_time :: "u8 \<Rightarrow> u32 \<Rightarrow> opt_out \<Rightarrow> opt_out outcome" where
  "put_time code t s = (if t \<noteq> 0 then put_option code 4 (st32 t) s else Inr s)"

text \<open>
  The server and the request identifier sections, with their two flags. The loop over
  \<open>rqt_id\<close> assigns \<open>srv_id_v\<close>, as the source does.
\<close>

definition put_srv_rqt_id :: "dhcp_opt \<Rightarrow> opt_out \<Rightarrow> opt_out outcome" where
  "put_srv_rqt_id q s =
     (let srv_id_v = valid_flag (srv_id q)
      in seqE (if srv_id_v \<noteq> 0 then put_option DHCP_SRV_ID_OP (of_nat IP_ADDR_L) (srv_id q) s
               else Inr s) (\<lambda>s.
         let rqt_id_v = (0 :: int);
             srv_id_v = (if list_ex (\<lambda>b. b \<noteq> 0) (rqt_id q) then 1 else srv_id_v)
         in if rqt_id_v \<noteq> 0
            then put_option DHCP_RQT_ID_OP (of_nat IP_ADDR_L) (rqt_id q) s
            else Inr s))"

definition set_dhcp_hdr_from_dhcp_opt :: "dhcp_opt \<Rightarrow> dhcp_hdr \<Rightarrow> dhcp_hdr outcome" where
  "set_dhcp_hdr_from_dhcp_opt q pkg =
     seqE (put MAGIC_COOKIE (opt pkg, 0)) (\<lambda>s.
     seqE (put_msg q s) (\<lambda>s.
     seqE (put_hst_name q s) (\<lambda>s.
     seqE (put_clt_id q s) (\<lambda>s.
     seqE (put_addr DHCP_SUB_MSK_OP (sub_msk q) s) (\<lambda>s.
     seqE (put_addr DHCP_RTR_ID_OP (rtr_id q) s) (\<lambda>s.
     seqE (put_time DHCP_RNW_TIME_OP (rnw_time q) s) (\<lambda>s.
     seqE (put_time DHCP_RBN_TIME_OP (rbn_time q) s) (\<lambda>s.
     seqE (put_time DHCP_IP_LEASE_TIME_OP (ip_lease_time q) s) (\<lambda>s.
     seqE (put_srv_rqt_id q s) (\<lambda>s.
     seqE (put_addr DHCP_DNS_OP (dns_id q) s) (\<lambda>s.
     seqE (put [DHCP_END_OP] s) (\<lambda>s.
       Inr (pkg\<lparr>opt := fst s\<rparr>)))))))))))))"

end
