(* ===== verification/Dhcp_Reader.thy ===== *)
theory Dhcp_Reader
  imports Dhcp_Options
begin

text \<open>
  What the options reader of \<open>TF/dhcp.c\<close> computes, and when it returns.

  The loop is first related to a step relation on (offset, struct) pairs: it follows
  the steps, returns at the end code, faults where an access leaves the field, and
  never returns exactly when it reaches an iteration with advance 0. Then the reader
  is compared with its specification: on a sequence of items whose sizes are the ones
  the code expects it returns the fold of the items.
\<close>

section \<open>One iteration\<close>

definition opt_stalls :: "u8 list \<Rightarrow> nat \<Rightarrow> bool" where
  "opt_stalls m p \<longleftrightarrow> p + 1 < length m \<and> m ! (p + 1) = 254 \<and>
     (m ! p = DHCP_HST_NAME_OP \<and> p + 256 \<le> length m \<or>
      m ! p = DHCP_CLT_ID_OP \<and> p + 8 \<le> length m \<or>
      m ! p \<in> {DHCP_RNW_TIME_OP, DHCP_RTR_ID_OP, DHCP_DNS_OP} \<and> p + 6 \<le> length m)"

inductive opt_step :: "u8 list \<Rightarrow> nat \<times> dhcp_opt \<Rightarrow> nat \<times> dhcp_opt \<Rightarrow> bool" for m where
  advance: "p < length m \<Longrightarrow> m ! p \<noteq> DHCP_END_OP \<Longrightarrow> read_option m p q = Inr (q', l) \<Longrightarrow>
     opt_step m (p, q) (p + unat l, q')"

inductive_cases opt_stepE: "opt_step m (p, q) c"

lemma read_option_bound: "read_option m p q = Inr r \<Longrightarrow> p < length m"
  by (auto simp: read_option_def seqE_eq_Inr mem_read_Inr)

lemma read_option_hst_length:
  "read_option m p q = Inr (q', l) \<Longrightarrow> length (hst_name q') = length (hst_name q)"
  by (auto simp: read_option_def seqE_eq_Inr split: if_splits dest!: mem_write_length)

lemma u8_add2_zero: "2 + l = (0 :: u8) \<longleftrightarrow> l = 254"
proof
  assume "2 + l = 0"
  then have "l = - 2" by (simp add: add_eq_0_iff)
  then show "l = 254" by simp
qed simp

lemma read_option_len_0:
  assumes "length (hst_name q) = MAX_HOST_NAME"
  shows "(\<exists>q'. read_option m p q = Inr (q', 0)) \<longleftrightarrow> opt_stalls m p"
  using assms
  by (auto simp: read_option_def opt_stalls_def c_consts seqE_eq_Inr mem_read_def mem_block_def
      mem_write_def u8_add2_zero split: if_splits)

section \<open>The loop\<close>

lemma read_options_unfold_step:
  "opt_step m (p, q) (p', q') \<Longrightarrow> read_options m p q = read_options m p' q'"
  by (auto elim!: opt_stepE simp: read_options.simps [of m p q] mem_read_def)

lemma read_options_steps:
  "(opt_step m)\<^sup>*\<^sup>* c c' \<Longrightarrow>
   read_options m (fst c) (snd c) = read_options m (fst c') (snd c')"
proof (induction rule: rtranclp_induct)
  case (step y z)
  then show ?case
    by (metis prod.collapse read_options_unfold_step)
qed simp

lemma steps_hst_length:
  "(opt_step m)\<^sup>*\<^sup>* c c' \<Longrightarrow> length (hst_name (snd c')) = length (hst_name (snd c))"
  by (induction rule: rtranclp_induct)
    (auto elim!: opt_step.cases dest: read_option_hst_length)

lemma read_options_stalled:
  assumes "opt_stalls m p" and "length (hst_name q) = MAX_HOST_NAME"
  shows "read_options m p q = None"
proof (rule ccontr)
  assume "read_options m p q \<noteq> None"
  then obtain r where "read_options m p q = Some r" by auto
  then have "length (hst_name q) = MAX_HOST_NAME \<longrightarrow> \<not> opt_stalls m p"
  proof (rule read_options.raw_induct [rotated])
    fix f m p q r
    assume IH: "\<And>m p q r. f m p q = Some r \<Longrightarrow>
        length (hst_name q) = MAX_HOST_NAME \<longrightarrow> \<not> opt_stalls m p"
      and body: "(case mem_read m p of Inl e \<Rightarrow> Some (Inl e)
        | Inr b \<Rightarrow> if b = DHCP_END_OP then Some (Inr q)
            else (case read_option m p q of Inl e \<Rightarrow> Some (Inl e)
              | Inr (q', l) \<Rightarrow> f m (p + unat l) q')) = Some r"
    show "length (hst_name q) = MAX_HOST_NAME \<longrightarrow> \<not> opt_stalls m p"
    proof (intro impI notI)
      assume len: "length (hst_name q) = MAX_HOST_NAME" and stall: "opt_stalls m p"
      obtain q' where q': "read_option m p q = Inr (q', 0)"
        using read_option_len_0 [OF len] stall by blast
      have "m ! p \<noteq> DHCP_END_OP"
        using stall by (auto simp: opt_stalls_def c_consts)
      with body q' read_option_bound [OF q'] have "f m p q' = Some r"
        by (simp add: mem_read_def)
      with IH stall len read_option_hst_length [OF q'] show False by auto
    qed
  qed
  with assms show False by simp
qed

lemma read_options_returns:
  assumes "\<And>c. (opt_step m)\<^sup>*\<^sup>* (p, q) c \<Longrightarrow> \<not> opt_stalls m (fst c)"
    and "length (hst_name q) = MAX_HOST_NAME"
  shows "read_options m p q \<noteq> None"
  using assms
proof (induction "length m - p" arbitrary: p q rule: less_induct)
  case less
  consider (fault) e where "mem_read m p = Inl e"
    | (finish) "mem_read m p = Inr DHCP_END_OP"
    | (bad) b e where "mem_read m p = Inr b" "b \<noteq> DHCP_END_OP" "read_option m p q = Inl e"
    | (go) b q' l where "mem_read m p = Inr b" "b \<noteq> DHCP_END_OP" "read_option m p q = Inr (q', l)"
    by (metis prod.exhaust sum.exhaust)
  then show ?case
  proof cases
    case go
    then have p: "p < length m" and st: "opt_step m (p, q) (p + unat l, q')"
      by (auto simp: mem_read_Inr intro: opt_step.advance)
    have "\<not> opt_stalls m p" using less.prems(1) [of "(p, q)"] by simp
    then have "l \<noteq> 0" using read_option_len_0 [OF less.prems(2)] go(3) by blast
    then have "0 < unat l" by (simp add: unat_gt_0)
    then have "length m - (p + unat l) < length m - p" using p by linarith
    moreover have "\<not> opt_stalls m (fst c)" if "(opt_step m)\<^sup>*\<^sup>* (p + unat l, q') c" for c
      using less.prems(1) [of c] that st by (meson converse_rtranclp_into_rtranclp)
    ultimately have "read_options m (p + unat l) q' \<noteq> None"
      using less.hyps less.prems(2) read_option_hst_length [OF go(3)] by simp
    then show ?thesis
      by (simp add: read_options_unfold_step [OF st])
  qed (simp_all add: read_options.simps [of m p q])
qed

lemma read_options_None_iff:
  assumes "length (hst_name q) = MAX_HOST_NAME"
  shows "read_options m p q = None \<longleftrightarrow>
    (\<exists>p' q'. (opt_step m)\<^sup>*\<^sup>* (p, q) (p', q') \<and> opt_stalls m p')"
proof
  assume "read_options m p q = None"
  then show "\<exists>p' q'. (opt_step m)\<^sup>*\<^sup>* (p, q) (p', q') \<and> opt_stalls m p'"
    using read_options_returns [of m p q] assms by (metis prod.collapse)
next
  assume "\<exists>p' q'. (opt_step m)\<^sup>*\<^sup>* (p, q) (p', q') \<and> opt_stalls m p'"
  then obtain p' q' where "(opt_step m)\<^sup>*\<^sup>* (p, q) (p', q')" "opt_stalls m p'" by blast
  then show "read_options m p q = None"
    using read_options_steps [of m "(p, q)" "(p', q')"] steps_hst_length [of m "(p, q)" "(p', q')"]
      read_options_stalled assms by simp
qed

definition ends_from :: "u8 list \<Rightarrow> nat \<Rightarrow> bool" where
  "ends_from m p \<longleftrightarrow> (\<exists>i. p \<le> i \<and> i < length m \<and> m ! i = DHCP_END_OP)"

lemma ends_from_advance: "ends_from m (p + n) \<Longrightarrow> ends_from m p"
  by (auto simp: ends_from_def intro: add_leD1)

lemma read_options_ends:
  assumes "read_options m p q = Some r"
  shows "isl r \<or> ends_from m p"
proof (rule read_options.raw_induct [where P = "\<lambda>m p q r. isl r \<or> ends_from m p", OF _ assms])
  fix f m p q r
  assume IH: "\<And>m p q r. f m p q = Some r \<Longrightarrow> isl r \<or> ends_from m p"
    and body: "(case mem_read m p of Inl e \<Rightarrow> Some (Inl e)
        | Inr b \<Rightarrow> if b = DHCP_END_OP then Some (Inr q)
            else (case read_option m p q of Inl e \<Rightarrow> Some (Inl e)
              | Inr (q', l) \<Rightarrow> f m (p + unat l) q')) = Some r"
  show "isl r \<or> ends_from m p"
  proof (cases "\<exists>q' l. f m (p + unat (l :: u8)) q' = Some r")
    case True
    then show ?thesis using IH ends_from_advance by blast
  next
    case False
    with body show ?thesis
      by (auto simp: mem_read_Inr ends_from_def split: sum.splits if_splits prod.splits)
  qed
qed

section \<open>Specification: a sequence of items\<close>

text \<open>
  The contents of the field as the protocol has them: pad bytes and items of a code
  and a value. \<open>sized\<close> says the value has the size the reader assumes for its code;
  the reader takes the length byte of the item into account for five of the codes only.
\<close>

datatype opt_item = Pad | Item u8 "u8 list"

fun enc_item :: "opt_item \<Rightarrow> u8 list" where
  "enc_item Pad = [0]"
| "enc_item (Item c v) = c # of_nat (length v) # v"

fun sized :: "opt_item \<Rightarrow> bool" where
  "sized Pad = True"
| "sized (Item c v) =
     (if c = DHCP_MSG_OP then length v = 1
      else if c = DHCP_HST_NAME_OP then length v \<le> 253
      else if c = DHCP_CLT_ID_OP then 6 \<le> length v \<and> length v \<le> 253
      else if c \<in> {DHCP_RNW_TIME_OP, DHCP_RTR_ID_OP, DHCP_DNS_OP}
        then 4 \<le> length v \<and> length v \<le> 253
      else c \<in> {DHCP_SUB_MSK_OP, DHCP_RBN_TIME_OP, DHCP_IP_LEASE_TIME_OP, DHCP_SRV_ID_OP,
                DHCP_RQT_ID_OP} \<and> length v = 4)"

fun apply_item :: "opt_item \<Rightarrow> dhcp_opt \<Rightarrow> dhcp_opt" where
  "apply_item Pad q = q"
| "apply_item (Item c v) q =
     (if c = DHCP_MSG_OP then q\<lparr>dhcp_msg := msg_of_code (v ! 0)\<rparr>
      else if c = DHCP_HST_NAME_OP
        then q\<lparr>hst_name := v @ 0 # drop (length v + 1) (hst_name q)\<rparr>
      else if c = DHCP_CLT_ID_OP then q\<lparr>clt_id := take 6 v\<rparr>
      else if c = DHCP_SUB_MSK_OP then q\<lparr>sub_msk := v\<rparr>
      else if c = DHCP_RNW_TIME_OP then q\<lparr>rtr_id := take 4 v\<rparr>
      else if c = DHCP_SRV_ID_OP then q\<lparr>srv_id := v\<rparr>
      else if c = DHCP_RTR_ID_OP then q\<lparr>rtr_id := take 4 v\<rparr>
      else if c = DHCP_RQT_ID_OP then q\<lparr>rqt_id := v\<rparr>
      else if c = DHCP_DNS_OP then q\<lparr>dns_id := take 4 v\<rparr>
      else q)"

lemma unat_len_byte [simp]: "n \<le> 253 \<Longrightarrow> unat (2 + of_nat n :: u8) = 2 + n"
  using unat_of_nat_u8 [of "2 + n"] by (simp del: unat_of_nat_u8)

lemma mem_read_at: "mem_read (pre @ ys) (length pre) = mem_read ys 0"
  using mem_read_offset [of pre ys 0] by simp

lemma read_option_offset:
  "read_option (pre @ ys) (length pre) q = read_option ys 0 q"
  by (simp only: read_option_def mem_read_at mem_read_offset mem_block_offset add_0)

lemma item_bytes:
  "mem_read (c # l # v @ rest) 0 = Inr c"
  "mem_read (c # l # v @ rest) (Suc 0) = Inr l"
  "v \<noteq> [] \<Longrightarrow> mem_read (c # l # v @ rest) (Suc (Suc 0)) = Inr (v ! 0)"
  "n \<le> length v \<Longrightarrow> mem_block (c # l # v @ rest) (Suc (Suc 0)) n = Inr (take n v)"
  by (simp_all add: mem_read_def mem_block_def nth_append)

lemma host_name_store:
  "length v < length h \<Longrightarrow>
   seqE (mem_write h 0 v) (\<lambda>h. mem_write h (length v) [0]) = Inr (v @ 0 # drop (length v + 1) h)"
  by (simp add: mem_write_def)

lemma read_option_item:
  assumes "sized it" and "length (hst_name q) = MAX_HOST_NAME"
  shows "\<exists>l. read_option (enc_item it @ rest) 0 q = Inr (apply_item it q, l) \<and>
    unat l = length (enc_item it)"
proof (cases it)
  case Pad
  then show ?thesis by (simp add: read_option_def mem_read_def c_consts)
next
  case (Item c v)
  consider "c = 53" "length v = 1" | "c = 12" "length v \<le> 253"
    | "c = 61" "6 \<le> length v" "length v \<le> 253"
    | "c = 58 \<or> c = 3 \<or> c = 6" "4 \<le> length v" "length v \<le> 253"
    | "c = 1 \<or> c = 59 \<or> c = 51 \<or> c = 54 \<or> c = 50" "length v = 4"
    using assms(1) Item by (auto simp: c_consts split: if_splits)
  then show ?thesis
  proof cases
    case 1
    then have "v \<noteq> []" by auto
    with 1 Item show ?thesis by (simp add: read_option_def item_bytes c_consts)
  next
    case 2
    then have "unat (of_nat (length v) :: u8) = length v" by simp
    moreover have "length v < length (hst_name q)" using 2 assms(2) by (simp add: c_consts)
    ultimately show ?thesis
      using 2 Item host_name_store [of v "hst_name q"]
      by (simp add: read_option_def item_bytes c_consts seqE_assoc [symmetric])
  next
    case 3
    with Item show ?thesis by (simp add: read_option_def item_bytes c_consts)
  next
    case 4
    from 4(1) show ?thesis
      by (elim disjE) (use 4(2,3) Item in \<open>simp add: read_option_def item_bytes c_consts\<close>)+
  next
    case 5
    from 5(1) show ?thesis
      by (elim disjE) (use 5(2) Item in \<open>simp add: read_option_def item_bytes c_consts\<close>)+
  qed
qed

lemma apply_item_hst_length:
  "sized it \<Longrightarrow> length (hst_name q) = MAX_HOST_NAME \<Longrightarrow>
   length (hst_name (apply_item it q)) = MAX_HOST_NAME"
  by (cases it) (auto simp: c_consts split: if_splits)

lemma enc_item_hd: "sized it \<Longrightarrow> \<exists>c cs. enc_item it = c # cs \<and> c \<noteq> DHCP_END_OP"
  by (cases it) (auto simp: c_consts split: if_splits)

lemma read_options_item:
  assumes "sized it" and "length (hst_name q) = MAX_HOST_NAME"
  shows "read_options (pre @ enc_item it @ rest) (length pre) q =
    read_options ((pre @ enc_item it) @ rest) (length (pre @ enc_item it)) (apply_item it q)"
proof -
  obtain l where l: "read_option (enc_item it @ rest) 0 q = Inr (apply_item it q, l)"
      "unat l = length (enc_item it)"
    using read_option_item [OF assms] by blast
  obtain c cs where c: "enc_item it = c # cs" "c \<noteq> DHCP_END_OP"
    using enc_item_hd [OF assms(1)] by blast
  have "opt_step (pre @ enc_item it @ rest) (length pre, q)
      (length pre + unat l, apply_item it q)"
    by (rule opt_step.advance) (use c l in \<open>simp_all add: read_option_offset\<close>)
  from read_options_unfold_step [OF this] show ?thesis
    by (simp add: l(2))
qed

lemma read_options_items:
  assumes "list_all sized ts" and "length (hst_name q) = MAX_HOST_NAME"
  shows "read_options (pre @ concat (map enc_item ts) @ DHCP_END_OP # rest) (length pre) q =
    Some (Inr (fold apply_item ts q))"
  using assms
proof (induction ts arbitrary: pre q)
  case Nil
  then show ?case by (simp add: read_options.simps)
next
  case (Cons it ts)
  then have it: "sized it" "list_all sized ts" by simp_all
  have "read_options (pre @ concat (map enc_item (it # ts)) @ DHCP_END_OP # rest) (length pre) q =
      read_options ((pre @ enc_item it) @ concat (map enc_item ts) @ DHCP_END_OP # rest)
        (length (pre @ enc_item it)) (apply_item it q)"
    using read_options_item [OF it(1) Cons.prems(2), of pre
        "concat (map enc_item ts) @ DHCP_END_OP # rest"] by simp
  also have "\<dots> = Some (Inr (fold apply_item ts (apply_item it q)))"
    by (rule Cons.IH [OF it(2) apply_item_hst_length [OF it(1) Cons.prems(2)]])
  finally show ?case by simp
qed

lemma check_cookie_ok: "check_cookie (MAGIC_COOKIE @ rest) q = Inr q"
  by (simp add: check_cookie_def mem_block_def MAGIC_COOKIE_def upt_rec)

lemma check_cookie_total:
  "4 \<le> length m \<Longrightarrow>
   check_cookie m q = Inr (if take 4 m = MAGIC_COOKIE then q else q\<lparr>cookie_status := NOK\<rparr>)"
  using take4_nth [of m]
  by (auto simp add: check_cookie_def mem_block_def MAGIC_COOKIE_def upt_rec)

lemma reset_hst_length [simp]: "length (hst_name (reset_opt q)) = MAX_HOST_NAME"
  by (simp add: reset_opt_def)

lemma reader_on_items:
  assumes "list_all sized ts"
    and "opt h = MAGIC_COOKIE @ concat (map enc_item ts) @ DHCP_END_OP # rest"
  shows "set_dhcp_opt_from_dhcp_hdr q h = Some (Inr (fold apply_item ts (reset_opt q)))"
proof -
  have "length MAGIC_COOKIE = 4" by (simp add: MAGIC_COOKIE_def)
  then show ?thesis
    using read_options_items [OF assms(1), of "reset_opt q" MAGIC_COOKIE rest]
    by (simp add: set_dhcp_opt_from_dhcp_hdr_def assms(2) check_cookie_ok)
qed

section \<open>Properties\<close>

text \<open>
  C23. When the reader returns: for every header, reading the options fails to return exactly
  when the loop, started behind the cookie, reaches an offset that holds one of the codes
  whose advance depends on the packet (host name, client identifier, renewal time, router,
  DNS) with length byte 254, for which the 8-bit advance 2 + 254 wraps to 0, and what the reader
  copies for that code lies inside the field: 256 bytes from the offset on for a host name, 8 for a
  client identifier, 6 for the others. (Where it does not, the reader faults.)
\<close>

theorem reader_hangs_iff:
  assumes "wf_hdr h"
  shows "set_dhcp_opt_from_dhcp_hdr q h = None \<longleftrightarrow>
    (\<exists>p q'. (opt_step (opt h))\<^sup>*\<^sup>*
        (4, if take 4 (opt h) = MAGIC_COOKIE then reset_opt q
            else (reset_opt q)\<lparr>cookie_status := NOK\<rparr>) (p, q') \<and> opt_stalls (opt h) p)"
proof -
  have "4 \<le> length (opt h)" using assms by (simp add: wf_hdr_def c_consts)
  then show ?thesis
    by (simp add: set_dhcp_opt_from_dhcp_hdr_def check_cookie_total read_options_None_iff)
qed

text \<open>
  A single packet stops the server's receiving loop: whatever the rest of the datagram
  holds, a first option with the client identifier code and length byte 254 makes the reader
  loop forever.
\<close>

lemma reader_hangs_on_length_254:
  assumes "wf_hdr h" and "opt h ! 4 = DHCP_CLT_ID_OP" and "opt h ! 5 = 254"
  shows "set_dhcp_opt_from_dhcp_hdr q h = None"
proof -
  have len: "length (opt h) = 312" using assms(1) by (simp add: wf_hdr_def c_consts)
  then have "opt_stalls (opt h) 4" using assms by (simp add: opt_stalls_def)
  then show ?thesis
    using len by (simp add: set_dhcp_opt_from_dhcp_hdr_def check_cookie_total
        read_options_stalled)
qed

text \<open>
  No end code, no result: if none of the 308 bytes behind the cookie is the end code, the
  reader never completes; it reads past the field or does not return. The length of the
  field is not a condition of its loop.
\<close>

lemma reader_needs_end_code:
  assumes "wf_hdr h" and "DHCP_END_OP \<notin> set (drop 4 (opt h))"
  shows "\<forall>r. set_dhcp_opt_from_dhcp_hdr q h = Some r \<longrightarrow> isl r"
proof -
  have len: "length (opt h) = 312" using assms(1) by (simp add: wf_hdr_def c_consts)
  have "\<not> ends_from (opt h) 4"
  proof
    assume "ends_from (opt h) 4"
    then obtain i where "4 \<le> i" "i < 312" "opt h ! i = DHCP_END_OP"
      using len by (auto simp: ends_from_def)
    then have "drop 4 (opt h) ! (i - 4) = DHCP_END_OP" "i - 4 < length (drop 4 (opt h))"
      using len by simp_all
    with assms(2) show False by (metis nth_mem)
  qed
  then show ?thesis
    using len read_options_ends
    by (auto simp: set_dhcp_opt_from_dhcp_hdr_def check_cookie_total)
qed

text \<open>
  C10. Refinement of the reader to its specification: on a field that holds the cookie, a
  sequence of pad bytes and items of the sizes the reader assumes, and the end code, the
  reader returns the reset struct updated by the items in order, with the cookie status OK,
  whatever follows the end code.
\<close>

theorem reader_refines_items:
  assumes "list_all sized ts"
    and "opt h = MAGIC_COOKIE @ concat (map enc_item ts) @ DHCP_END_OP # rest"
  shows "set_dhcp_opt_from_dhcp_hdr q h = Some (Inr (fold apply_item ts (reset_opt q)))"
  using assms by (rule reader_on_items)

text \<open>
  Options the reader does not know are not skipped as the protocol asks: at a code that
  no case handles the loop moves on by one byte, so it goes on with the option's length byte
  as if that were a code.
\<close>

lemma reader_enters_unknown_option:
  assumes "c \<notin> {0, DHCP_END_OP, DHCP_MSG_OP, DHCP_HST_NAME_OP, DHCP_CLT_ID_OP, DHCP_SUB_MSK_OP,
      DHCP_RNW_TIME_OP, DHCP_RBN_TIME_OP, DHCP_IP_LEASE_TIME_OP, DHCP_SRV_ID_OP,
      DHCP_RTR_ID_OP, DHCP_RQT_ID_OP, DHCP_DNS_OP}"
  shows "read_options (pre @ c # len # rest) (length pre) q =
    read_options ((pre @ [c]) @ len # rest) (length (pre @ [c])) q"
proof -
  have "read_option (pre @ c # len # rest) (length pre) q = Inr (q, 1)"
    using assms by (simp add: read_option_def)
  then have "opt_step (pre @ c # len # rest) (length pre, q) (length pre + unat (1 :: u8), q)"
    by (rule opt_step.advance [rotated 2]) (use assms in simp_all)
  from read_options_unfold_step [OF this] show ?thesis by simp
qed

text \<open>
  Witnesses. The last one is a parameter request list (code 55) that asks for the router and
  the subnet mask: the reader takes its length byte for a code.
\<close>

theorem reader_hangs_iff_witness:
  "set_dhcp_opt_from_dhcp_hdr zero_opt
     (zero_hdr\<lparr>opt := MAGIC_COOKIE @ [12, 254] @ replicate 306 0\<rparr>) = None"
proof -
  let ?h = "zero_hdr\<lparr>opt := MAGIC_COOKIE @ [12, 254] @ replicate 306 0\<rparr>"
  have "wf_hdr ?h" using wf_zero_hdr by (simp add: wf_hdr_def c_consts)
  moreover have "opt_stalls (opt ?h) 4" by (simp add: opt_stalls_def c_consts)
  ultimately show ?thesis using reader_hangs_iff [of ?h zero_opt] by blast
qed

lemma reader_hangs_on_length_254_witness:
  "set_dhcp_opt_from_dhcp_hdr zero_opt
     (zero_hdr\<lparr>opt := MAGIC_COOKIE @ [61, 254] @ replicate 306 0\<rparr>) = None"
  by (rule reader_hangs_on_length_254)
    (use wf_zero_hdr in \<open>simp_all add: wf_hdr_def c_consts\<close>)

lemma reader_needs_end_code_witness:
  "\<forall>r. set_dhcp_opt_from_dhcp_hdr zero_opt zero_hdr = Some r \<longrightarrow> isl r"
  by (rule reader_needs_end_code [OF wf_zero_hdr])
    (auto simp: zero_hdr_def bytes_hdr_def c_consts)

theorem reader_refines_items_witness:
  "set_dhcp_opt_from_dhcp_hdr zero_opt (zero_hdr\<lparr>opt := MAGIC_COOKIE @
       [53, 1, 3, 0, 50, 4, 10, 32, 143, 77, 12, 2, 112, 99, 255] @ replicate 293 9\<rparr>) =
   Some (Inr ((reset_opt zero_opt)\<lparr>dhcp_msg := REQUEST, rqt_id := [10, 32, 143, 77],
     hst_name := [112, 99, 0] @ replicate 309 0\<rparr>))"
proof -
  let ?ts = "[Item 53 [3], Pad, Item 50 [10, 32, 143, 77], Item 12 [112, 99]]"
  have "list_all sized ?ts" by (simp add: c_consts)
  then have "set_dhcp_opt_from_dhcp_hdr zero_opt (zero_hdr\<lparr>opt := MAGIC_COOKIE @
       [53, 1, 3, 0, 50, 4, 10, 32, 143, 77, 12, 2, 112, 99, 255] @ replicate 293 9\<rparr>) =
     Some (Inr (fold apply_item ?ts (reset_opt zero_opt)))"
    by (rule reader_refines_items [where rest = "replicate 293 9"]) (simp add: c_consts)
  also have "fold apply_item ?ts (reset_opt zero_opt) =
     (reset_opt zero_opt)\<lparr>dhcp_msg := REQUEST, rqt_id := [10, 32, 143, 77],
       hst_name := [112, 99, 0] @ replicate 309 0\<rparr>"
    by (simp add: c_consts reset_opt_def zero_opt_def msg_of_code_def)
  finally show ?thesis .
qed

lemma reader_enters_unknown_option_witness:
  "read_options (MAGIC_COOKIE @ 55 # 2 # [3, 1, 255, 0, 0, 0]) (length MAGIC_COOKIE) q =
   read_options ((MAGIC_COOKIE @ [55]) @ 2 # [3, 1, 255, 0, 0, 0]) (length (MAGIC_COOKIE @ [55])) q"
  by (rule reader_enters_unknown_option) (simp add: c_consts)

end
