(* ===== verification/Dhcp_Writer.thy ===== *)
theory Dhcp_Writer
  imports Dhcp_Reader
begin

text \<open>
  What the options writer of \<open>TF/dhcp.c\<close> stores, and what the reader of the same file
  makes of it.

  Every section of the writer appends a byte sequence that does not depend on what was
  written before (\<open>emits\<close>), so the whole writer stores one sequence: the cookie, the
  encoding of \<open>written_items\<close> and the end code. It faults exactly when that sequence
  does not fit into the field.
\<close>

section \<open>Appending to the field\<close>

definition at_out :: "u8 list \<Rightarrow> u8 list \<Rightarrow> opt_out" where
  "at_out m w = (w @ drop (length w) m, length w)"

definition emits :: "(opt_out \<Rightarrow> opt_out outcome) \<Rightarrow> u8 list \<Rightarrow> bool" where
  "emits f e \<longleftrightarrow> (\<forall>m w. length w \<le> length m \<longrightarrow> f (at_out m w) =
     (if length w + length e \<le> length m then Inr (at_out m (w @ e)) else Inl BadWrite))"

named_theorems emit_intros "what the sections of the writer append"

lemma emits_put [emit_intros]: "emits (put vs) vs"
  by (auto simp: emits_def at_out_def put_def mem_write_def add.commute)

lemma emits_none [emit_intros]: "emits Inr []"
  by (simp add: emits_def)

lemma emits_seq [emit_intros]:
  assumes "emits f d" and "emits g e"
  shows "emits (\<lambda>s. seqE (f s) (\<lambda>s. g s)) (d @ e)"
  using assms unfolding emits_def
  by (auto simp: add.assoc)

lemma emits_if [emit_intros]:
  "emits f d \<Longrightarrow> emits g e \<Longrightarrow> emits (\<lambda>s. if b then f s else g s) (if b then d else e)"
  by simp

lemma emits_put_option [emit_intros]:
  "emits (put_option c l v) ([c] @ [l] @ v)"
  unfolding put_option_def by (intro emit_intros)

section \<open>What the sections append\<close>

definition opt_if :: "bool \<Rightarrow> opt_item \<Rightarrow> opt_item list" where
  "opt_if b i = (if b then [i] else [])"

definition nonzero :: "u8 list \<Rightarrow> bool" where
  "nonzero bs \<longleftrightarrow> (\<exists>b \<in> set bs. b \<noteq> 0)"

lemma valid_flag_nonzero [simp]: "valid_flag bs \<noteq> 0 \<longleftrightarrow> nonzero bs"
  by (simp add: valid_flag_def nonzero_def list_ex_iff)

lemma not_nonzero: "\<not> nonzero bs \<longleftrightarrow> bs = replicate (length bs) 0"
  unfolding nonzero_def by (metis in_set_replicate replicate_length_same)

definition written_items :: "dhcp_opt \<Rightarrow> u8 list \<Rightarrow> opt_item list" where
  "written_items q name =
     opt_if (dhcp_msg q \<noteq> INVALID) (Item DHCP_MSG_OP [code_of_msg (dhcp_msg q)]) @
     opt_if (name \<noteq> []) (Item DHCP_HST_NAME_OP name) @
     opt_if (nonzero (clt_id q)) (Item DHCP_CLT_ID_OP (1 # clt_id q)) @
     opt_if (nonzero (sub_msk q)) (Item DHCP_SUB_MSK_OP (sub_msk q)) @
     opt_if (nonzero (rtr_id q)) (Item DHCP_RTR_ID_OP (rtr_id q)) @
     opt_if (rnw_time q \<noteq> 0) (Item DHCP_RNW_TIME_OP (st32 (rnw_time q))) @
     opt_if (rbn_time q \<noteq> 0) (Item DHCP_RBN_TIME_OP (st32 (rbn_time q))) @
     opt_if (ip_lease_time q \<noteq> 0) (Item DHCP_IP_LEASE_TIME_OP (st32 (ip_lease_time q))) @
     opt_if (nonzero (srv_id q)) (Item DHCP_SRV_ID_OP (srv_id q)) @
     opt_if (nonzero (dns_id q)) (Item DHCP_DNS_OP (dns_id q))"

definition enc_items :: "opt_item list \<Rightarrow> u8 list" where
  "enc_items ts = concat (map enc_item ts)"

lemma enc_items_append [simp]: "enc_items (ts @ us) = enc_items ts @ enc_items us"
  by (simp add: enc_items_def)

lemma enc_items_opt_if [simp]: "enc_items (opt_if b i) = (if b then enc_item i else [])"
  by (simp add: enc_items_def opt_if_def)

lemma emits_cong: "emits f e \<Longrightarrow> e = e' \<Longrightarrow> emits f e'"
  by simp

lemma code_of_msg_0 [simp]: "code_of_msg k = 0 \<longleftrightarrow> k = INVALID"
  by (cases k) simp_all

lemma msg_of_code_of_msg [simp]: "msg_of_code (code_of_msg k) = k"
  by (cases k) (simp_all add: msg_of_code_def)

lemma emits_msg [emit_intros]:
  "emits (put_msg q)
     (enc_items (opt_if (dhcp_msg q \<noteq> INVALID) (Item DHCP_MSG_OP [code_of_msg (dhcp_msg q)])))"
  unfolding put_msg_def Let_def
  by (rule emits_cong, (rule emit_intros)+) simp

lemma emits_hst_name:
  assumes "0 \<notin> set name" and "hst_name q = name @ 0 # trail"
  shows "emits (put_hst_name q) (enc_items (opt_if (name \<noteq> []) (Item DHCP_HST_NAME_OP name)))"
proof -
  have "put_hst_name q = (\<lambda>s. if length name \<noteq> 0
      then put_option DHCP_HST_NAME_OP (of_nat (length name)) name s else Inr s)"
    by (simp add: put_hst_name_def fun_eq_iff assms c_strlen_terminated)
  then show ?thesis
    by (simp only:) (rule emits_cong, (rule emit_intros)+, simp)
qed

lemma emits_clt_id [emit_intros]:
  "length (clt_id q) = ETHER_ADDR_L \<Longrightarrow> emits (put_clt_id q)
     (enc_items (opt_if (nonzero (clt_id q)) (Item DHCP_CLT_ID_OP (1 # clt_id q))))"
  unfolding put_clt_id_def
  by (rule emits_cong, (rule emit_intros)+) (simp add: c_consts)

lemma emits_addr [emit_intros]:
  "length a = IP_ADDR_L \<Longrightarrow> emits (put_addr c a) (enc_items (opt_if (nonzero a) (Item c a)))"
  unfolding put_addr_def
  by (rule emits_cong, (rule emit_intros)+) (simp add: c_consts)

lemma emits_time [emit_intros]:
  "emits (put_time c t) (enc_items (opt_if (t \<noteq> 0) (Item c (st32 t))))"
  unfolding put_time_def
  by (rule emits_cong, (rule emit_intros)+) simp

lemma emits_srv_rqt_id [emit_intros]:
  "length (srv_id q) = IP_ADDR_L \<Longrightarrow> emits (put_srv_rqt_id q)
     (enc_items (opt_if (nonzero (srv_id q)) (Item DHCP_SRV_ID_OP (srv_id q))))"
  unfolding put_srv_rqt_id_def Let_def
  by (rule emits_cong, simp, (rule emit_intros)+) (simp add: c_consts)

section \<open>The writer\<close>

definition written_bytes :: "dhcp_opt \<Rightarrow> u8 list \<Rightarrow> u8 list" where
  "written_bytes q name = MAGIC_COOKIE @ enc_items (written_items q name) @ [DHCP_END_OP]"

lemma emits_written:
  assumes "wf_opt q" and "0 \<notin> set name" and "hst_name q = name @ 0 # trail"
  shows "emits (\<lambda>s.
     seqE (put MAGIC_COOKIE s) (\<lambda>s.
     seqE (put_msg q s) (\<lambda>s.
     seqE (put_hst_name q s) (\<lambda>s.
     seqE (put_clt_id q s) (\<lambda>s.
     seqE (put_addr DHCP_SUB_MSK_OP (sub_msk q) s) (\<lambda>s.
     seqE (put_addr DHCP_RTR_ID_OP (rtr_id q) s) (\<lambda>s.
     seqE (put_time DHCP_RNW_TIME_OP (rnw_time q) s) (\<lambda>s.
     seqE (put_time DHCP_RBN_TIME_OP (rbn_time q) s) (\<lambda>s.
     seqE (put_time DHCP_IP_LEASE_TIME_OP (ip_lease_time q) s) (\<lambda>s.
     seqE (put_srv_rqt_id q s) (\<lambda>s.
     seqE (put_addr DHCP_DNS_OP (dns_id q) s) (\<lambda>s.
     put [DHCP_END_OP] s)))))))))))) (written_bytes q name)"
proof -
  have "length (clt_id q) = ETHER_ADDR_L" "length (sub_msk q) = IP_ADDR_L"
      "length (srv_id q) = IP_ADDR_L" "length (rtr_id q) = IP_ADDR_L"
      "length (dns_id q) = IP_ADDR_L"
    using assms(1) by (simp_all add: wf_opt_def)
  note sections = emits_hst_name [OF assms(2,3)] emits_clt_id [OF this(1)]
    emits_addr [OF this(2)] emits_srv_rqt_id [OF this(3)] emits_addr [OF this(4)]
    emits_addr [OF this(5)] emits_msg emits_time emits_put
  show ?thesis
    by (rule emits_cong, (rule emits_seq sections)+)
      (simp add: written_bytes_def written_items_def)
qed

lemma writer_result:
  assumes "wf_opt q" and "0 \<notin> set name" and "hst_name q = name @ 0 # trail"
  shows "set_dhcp_hdr_from_dhcp_opt q pkg =
    (let w = written_bytes q name
     in if length w \<le> length (opt pkg)
        then Inr (pkg\<lparr>opt := w @ drop (length w) (opt pkg)\<rparr>) else Inl BadWrite)"
proof -
  have "set_dhcp_hdr_from_dhcp_opt q pkg = seqE ((\<lambda>s.
     seqE (put MAGIC_COOKIE s) (\<lambda>s.
     seqE (put_msg q s) (\<lambda>s.
     seqE (put_hst_name q s) (\<lambda>s.
     seqE (put_clt_id q s) (\<lambda>s.
     seqE (put_addr DHCP_SUB_MSK_OP (sub_msk q) s) (\<lambda>s.
     seqE (put_addr DHCP_RTR_ID_OP (rtr_id q) s) (\<lambda>s.
     seqE (put_time DHCP_RNW_TIME_OP (rnw_time q) s) (\<lambda>s.
     seqE (put_time DHCP_RBN_TIME_OP (rbn_time q) s) (\<lambda>s.
     seqE (put_time DHCP_IP_LEASE_TIME_OP (ip_lease_time q) s) (\<lambda>s.
     seqE (put_srv_rqt_id q s) (\<lambda>s.
     seqE (put_addr DHCP_DNS_OP (dns_id q) s) (\<lambda>s.
     put [DHCP_END_OP] s)))))))))))) (at_out (opt pkg) [])) (\<lambda>s. Inr (pkg\<lparr>opt := fst s\<rparr>))"
    by (simp add: set_dhcp_hdr_from_dhcp_opt_def at_out_def seqE_assoc)
  also have "\<dots> = seqE (if length (written_bytes q name) \<le> length (opt pkg)
      then Inr (at_out (opt pkg) (written_bytes q name)) else Inl BadWrite)
      (\<lambda>s. Inr (pkg\<lparr>opt := fst s\<rparr>))"
    using emits_written [OF assms] by (simp add: emits_def)
  finally show ?thesis by (simp add: at_out_def Let_def)
qed

lemma writer_unterminated:
  assumes "0 \<notin> set (hst_name q)" and "7 \<le> length (opt pkg)"
  shows "set_dhcp_hdr_from_dhcp_opt q pkg = Inl BadRead"
proof -
  have name: "put_hst_name q s = Inl BadRead" for s
    using assms(1) by (simp add: put_hst_name_def c_strlen_unterminated)
  have "emits (\<lambda>s. seqE (put MAGIC_COOKIE s) (\<lambda>s. put_msg q s))
      (MAGIC_COOKIE @ enc_items (opt_if (dhcp_msg q \<noteq> INVALID)
        (Item DHCP_MSG_OP [code_of_msg (dhcp_msg q)])))" (is "emits _ ?e")
    by (rule emits_seq emit_intros)+
  moreover have "length ?e \<le> length (opt pkg)"
    using assms(2) by (simp add: MAGIC_COOKIE_def)
  ultimately have "seqE (put MAGIC_COOKIE (at_out (opt pkg) [])) (\<lambda>s. put_msg q s) =
      Inr (at_out (opt pkg) ?e)"
    by (simp add: emits_def)
  then obtain s where "put MAGIC_COOKIE (opt pkg, 0) = Inr s"
      "put_msg q s = Inr (at_out (opt pkg) ?e)"
    by (auto simp: seqE_eq_Inr at_out_def)
  then show ?thesis by (simp add: set_dhcp_hdr_from_dhcp_opt_def name)
qed

lemma split_at_zero:
  assumes "0 \<in> set (bs :: u8 list)"
  shows "\<exists>trail. bs = takeWhile (\<lambda>b. b \<noteq> 0) bs @ 0 # trail \<and> 0 \<notin> set (takeWhile (\<lambda>b. b \<noteq> 0) bs)"
proof -
  obtain xs ys where "bs = xs @ 0 # ys" "0 \<notin> set xs"
    using split_list_first [OF assms] by blast
  moreover have "takeWhile (\<lambda>b. b \<noteq> 0) (xs @ 0 # ys) = xs"
    using calculation(2) by (subst takeWhile_append2) auto
  ultimately show ?thesis by auto
qed

lemma length_written_bytes:
  assumes "wf_opt q"
  shows "length (written_bytes q name) \<le> 61 + length name"
  using assms by (simp add: written_bytes_def written_items_def wf_opt_def c_consts)

section \<open>Reading back what was written\<close>

lemma fold_opt_if:
  "fold apply_item (opt_if b i) r = (if b then apply_item i r else r)"
  by (simp add: opt_if_def)

lemma apply_sections:
  "fold apply_item (opt_if b (Item DHCP_MSG_OP v)) r =
     r\<lparr>dhcp_msg := (if b then msg_of_code (v ! 0) else dhcp_msg r)\<rparr>"
  "fold apply_item (opt_if b (Item DHCP_HST_NAME_OP v)) r =
     r\<lparr>hst_name := (if b then v @ 0 # drop (length v + 1) (hst_name r) else hst_name r)\<rparr>"
  "fold apply_item (opt_if b (Item DHCP_CLT_ID_OP v)) r =
     r\<lparr>clt_id := (if b then take 6 v else clt_id r)\<rparr>"
  "fold apply_item (opt_if b (Item DHCP_SUB_MSK_OP v)) r =
     r\<lparr>sub_msk := (if b then v else sub_msk r)\<rparr>"
  "fold apply_item (opt_if b (Item DHCP_RTR_ID_OP v)) r =
     r\<lparr>rtr_id := (if b then take 4 v else rtr_id r)\<rparr>"
  "fold apply_item (opt_if b (Item DHCP_RNW_TIME_OP v)) r =
     r\<lparr>rtr_id := (if b then take 4 v else rtr_id r)\<rparr>"
  "fold apply_item (opt_if b (Item DHCP_RBN_TIME_OP v)) r = r"
  "fold apply_item (opt_if b (Item DHCP_IP_LEASE_TIME_OP v)) r = r"
  "fold apply_item (opt_if b (Item DHCP_SRV_ID_OP v)) r =
     r\<lparr>srv_id := (if b then v else srv_id r)\<rparr>"
  "fold apply_item (opt_if b (Item DHCP_DNS_OP v)) r =
     r\<lparr>dns_id := (if b then take 4 v else dns_id r)\<rparr>"
  by (simp_all add: fold_opt_if c_consts)

lemma sized_written:
  assumes "wf_opt q" and "length name \<le> 253"
  shows "list_all sized (written_items q name)"
  using assms by (simp add: written_items_def opt_if_def wf_opt_def c_consts)

definition decoded :: "dhcp_opt \<Rightarrow> dhcp_opt \<Rightarrow> dhcp_opt" where
  "decoded q old = q\<lparr>cookie_status := OK,
     clt_id := (if nonzero (clt_id q) then 1 # take 5 (clt_id q) else clt_id q),
     rnw_time := 0, rbn_time := 0, ip_lease_time := ip_lease_time old,
     rtr_id := (if rnw_time q \<noteq> 0 then st32 (rnw_time q) else rtr_id q),
     rqt_id := replicate IP_ADDR_L 0\<rparr>"

lemma zeros_when_not_nonzero: "length bs = n \<Longrightarrow> \<not> nonzero bs \<Longrightarrow> bs = replicate n 0"
  using not_nonzero by blast

lemma read_written_items:
  assumes "wf_opt q" and "hst_name q = name @ replicate (MAX_HOST_NAME - length name) 0"
    and "length name \<le> 253"
  shows "fold apply_item (written_items q name) (reset_opt old) = decoded q old"
proof -
  have "1 # take 5 (clt_id q) = take 6 (1 # clt_id q)" by simp
  moreover have "name @ 0 # drop (length name + 1) (replicate MAX_HOST_NAME 0) = hst_name q"
  proof -
    have "MAX_HOST_NAME - length name = Suc (MAX_HOST_NAME - (length name + 1))"
      using assms(3) by (simp add: c_consts)
    then show ?thesis using assms(2) by simp
  qed
  moreover have "name = [] \<Longrightarrow> hst_name q = replicate MAX_HOST_NAME 0"
    using assms(2) by simp
  ultimately show ?thesis
    using assms(1) zeros_when_not_nonzero [of "clt_id q" ETHER_ADDR_L]
      zeros_when_not_nonzero [of "sub_msk q" IP_ADDR_L]
      zeros_when_not_nonzero [of "rtr_id q" IP_ADDR_L]
      zeros_when_not_nonzero [of "srv_id q" IP_ADDR_L]
      zeros_when_not_nonzero [of "dns_id q" IP_ADDR_L]
    unfolding written_items_def fold_append comp_apply apply_sections
    by (intro dhcp_opt.equality) (simp_all add: decoded_def reset_opt_def wf_opt_def IP_ADDR_L_def)
qed

section \<open>Properties\<close>

text \<open>
  C11. The writer, completely: for a well-formed options struct and header it either reads past a
  host name that has no terminating 0, or writes past the field when the message does not fit, or
  stores at the front of the field the cookie, the items, and the end code, and changes no other
  byte. There is one item, its code, a length byte and the value, for each of these that is set:
  message type, host name, client identifier, subnet mask, router, the two times, lease time,
  server identifier and DNS server; the requested address is never written. The length byte is
  the length modulo 256, so it is that of the value unless the host name has 256 bytes or more.
\<close>

theorem writer_correct:
  assumes "wf_opt q" and "wf_hdr h"
  shows "set_dhcp_hdr_from_dhcp_opt q h =
    (if 0 \<notin> set (hst_name q) then Inl BadRead
     else let w = MAGIC_COOKIE @
                enc_items (written_items q (takeWhile (\<lambda>b. b \<noteq> 0) (hst_name q))) @ [DHCP_END_OP]
          in if length w \<le> OPT_MAX_L
             then Inr (h\<lparr>opt := w @ drop (length w) (opt h)\<rparr>) else Inl BadWrite)"
proof (cases "0 \<in> set (hst_name q)")
  case True
  obtain trail where "hst_name q = takeWhile (\<lambda>b. b \<noteq> 0) (hst_name q) @ 0 # trail"
      "0 \<notin> set (takeWhile (\<lambda>b. b \<noteq> 0) (hst_name q))"
    using split_at_zero [OF True] by blast
  then show ?thesis
    using writer_result [OF assms(1)] assms(2) True by (simp add: written_bytes_def wf_hdr_def)
next
  case False
  then show ?thesis
    using writer_unterminated [of q h] assms(2) by (simp add: wf_hdr_def c_consts Let_def)
qed

text \<open>
  The field is large enough: a struct whose host name has at most 251 bytes before its
  terminating 0 is always written without a fault.
\<close>

lemma writer_fits:
  assumes "wf_opt q" and "wf_hdr h" and "0 \<notin> set name" and "hst_name q = name @ 0 # trail"
    and "length name \<le> 251"
  shows "\<exists>h'. set_dhcp_hdr_from_dhcp_opt q h = Inr h' \<and> wf_hdr h'"
proof -
  have "length (written_bytes q name) \<le> 312"
    using length_written_bytes [OF assms(1), of name] assms(5) by simp
  then show ?thesis
    using writer_result [OF assms(1,3,4), of h] assms(2) by (simp add: wf_hdr_def c_consts Let_def)
qed

text \<open>
  C9. What survives a write followed by a read, for a host name of at most 251 bytes that is
  padded with zeros: the write and the read both succeed, and the message type, the host name,
  the subnet mask, the server identifier and the DNS server come back as they were; the client
  identifier, if there is one, comes back shifted by its type byte, the times and the requested
  address are lost, the lease time is the one the struct held before, and a renewal time, if
  there is one, replaces the router.
\<close>

theorem options_roundtrip:
  assumes "wf_opt q" and "wf_hdr h" and "0 \<notin> set name"
    and "hst_name q = name @ replicate (MAX_HOST_NAME - length name) 0" and "length name \<le> 251"
  shows "\<exists>h'. set_dhcp_hdr_from_dhcp_opt q h = Inr h' \<and>
    set_dhcp_opt_from_dhcp_hdr old h' = Some (Inr (q\<lparr>cookie_status := OK,
      clt_id := (if nonzero (clt_id q) then 1 # take 5 (clt_id q) else clt_id q),
      rnw_time := 0, rbn_time := 0, ip_lease_time := ip_lease_time old,
      rtr_id := (if rnw_time q \<noteq> 0 then st32 (rnw_time q) else rtr_id q),
      rqt_id := [0, 0, 0, 0]\<rparr>))"
proof -
  have "MAX_HOST_NAME - length name = Suc (MAX_HOST_NAME - (length name + 1))"
    using assms(5) by (simp add: c_consts)
  then have name: "hst_name q = name @ 0 # replicate (MAX_HOST_NAME - (length name + 1)) 0"
    using assms(4) by simp
  have fits: "length (written_bytes q name) \<le> length (opt h)"
    using length_written_bytes [OF assms(1), of name] assms(2,5) by (simp add: wf_hdr_def c_consts)
  have "fold apply_item (written_items q name) (reset_opt old) = decoded q old"
    using read_written_items assms(1,4,5) by simp
  then show ?thesis
    using writer_result [OF assms(1,3) name, of h] fits assms(5)
      reader_on_items [OF sized_written [OF assms(1), of name], of "h\<lparr>opt := written_bytes q name @ r\<rparr>" for r]
    by (simp add: written_bytes_def enc_items_def decoded_def IP_ADDR_L_def numeral_eq_Suc Let_def)
qed

text \<open>Witnesses, at the options of a reply with a router and a renewal time.\<close>

definition sample_opt :: dhcp_opt where
  "sample_opt = zero_opt\<lparr>dhcp_msg := OFFER, rtr_id := [10, 32, 143, 1], rnw_time := 10000\<rparr>"

lemma zero_addr: "replicate 4 (0 :: u8) = [0, 0, 0, 0]"
  by (simp add: numeral_eq_Suc)

lemma sample_opt_facts:
  "wf_opt sample_opt" "hst_name sample_opt = [] @ replicate (MAX_HOST_NAME - length []) 0"
  "hst_name sample_opt = [] @ 0 # replicate 311 0"
  by (simp_all add: sample_opt_def wf_opt_def zero_opt_def c_consts numeral_eq_Suc)

theorem writer_correct_witness:
  "set_dhcp_hdr_from_dhcp_opt sample_opt zero_hdr =
     Inr (zero_hdr\<lparr>opt := MAGIC_COOKIE @
       [53, 1, 2, 3, 4, 10, 32, 143, 1, 58, 4, 0x10, 0x27, 0, 0, 255] @ replicate 292 0\<rparr>)"
proof -
  have name: "takeWhile (\<lambda>b. b \<noteq> 0) (hst_name sample_opt) = []" "0 \<in> set (hst_name sample_opt)"
    using sample_opt_facts(3) by simp_all
  have items: "written_items sample_opt [] =
      [Item 53 [2], Item 3 [10, 32, 143, 1], Item 58 [0x10, 0x27, 0, 0]]"
    by (simp add: written_items_def sample_opt_def zero_opt_def opt_if_def nonzero_def c_consts
        st32_def)
  have field: "opt zero_hdr = replicate 312 0"
    by (simp add: zero_hdr_def bytes_hdr_def c_consts)
  show ?thesis
    using writer_correct [OF sample_opt_facts(1) wf_zero_hdr] name(2)
    unfolding name(1) items field by (simp add: enc_items_def c_consts Let_def)
qed

lemma writer_fits_witness:
  "\<exists>h'. set_dhcp_hdr_from_dhcp_opt sample_opt zero_hdr = Inr h' \<and> wf_hdr h'"
  by (rule writer_fits [OF sample_opt_facts(1) wf_zero_hdr _ sample_opt_facts(3)]) simp_all

theorem options_roundtrip_witness:
  "\<exists>h'. set_dhcp_hdr_from_dhcp_opt sample_opt zero_hdr = Inr h' \<and>
    set_dhcp_opt_from_dhcp_hdr zero_opt h' = Some (Inr (sample_opt\<lparr>rnw_time := 0,
      rtr_id := [0x10, 0x27, 0, 0]\<rparr>))"
proof -
  have "sample_opt\<lparr>cookie_status := OK,
      clt_id := (if nonzero (clt_id sample_opt) then 1 # take 5 (clt_id sample_opt)
                 else clt_id sample_opt),
      rnw_time := 0, rbn_time := 0, ip_lease_time := ip_lease_time zero_opt,
      rtr_id := (if rnw_time sample_opt \<noteq> 0 then st32 (rnw_time sample_opt)
                 else rtr_id sample_opt),
      rqt_id := [0, 0, 0, 0]\<rparr> = sample_opt\<lparr>rnw_time := 0, rtr_id := [0x10, 0x27, 0, 0]\<rparr>"
    using zero_addr by (simp add: sample_opt_def zero_opt_def nonzero_def c_consts st32_def)
  then show ?thesis
    using options_roundtrip [OF sample_opt_facts(1) wf_zero_hdr _ sample_opt_facts(2), of zero_opt]
    by simp
qed

end
