(* ===== verification/Ip_Pool.thy ===== *)
theory Ip_Pool
  imports C_Memory
begin

text \<open>
  \<open>TF/ippool.c\<close>: the table in which the DHCP server remembers the address it
  offered for a transaction id. The table has \<open>MAX_IP\<close> slots; the slot of a
  transaction id is the sum of its four bytes, an \<open>uint8_t\<close>. The two file-scope
  variables are the record \<open>ippool_state\<close>; the table is cleared by the first
  call that finds \<open>is_valid\<close> unset.
\<close>

section \<open>State and operations\<close>

definition MAX_IP :: nat where [c_consts]: "MAX_IP = 1024"

record ippool_state =
  ippool :: "u32 list"
  is_valid :: bool

definition ippool_start :: ippool_state where
  "ippool_start = \<lparr>ippool = replicate MAX_IP 0, is_valid = False\<rparr>"

definition lazy_init :: "ippool_state \<Rightarrow> ippool_state" where
  "lazy_init s = s\<lparr>ippool := replicate MAX_IP 0, is_valid := True\<rparr>"

definition get_key_for_trs_id :: "u32 \<Rightarrow> u8" where
  "get_key_for_trs_id trs_id =
     (let key = st32 trs_id in key ! 0 + key ! 1 + key ! 2 + key ! 3)"

definition set_ip_for_trs_id :: "u32 \<Rightarrow> u32 \<Rightarrow> ippool_state \<Rightarrow> ippool_state outcome" where
  "set_ip_for_trs_id ip trs_id s =
     (let s = (if \<not> is_valid s then lazy_init s else s);
          k = unat (get_key_for_trs_id trs_id)
      in if k < length (ippool s) then Inr (s\<lparr>ippool := (ippool s)[k := ip]\<rparr>)
         else Inl BadWrite)"

definition get_ip_for_trs_id :: "u32 \<Rightarrow> ippool_state \<Rightarrow> (u32 \<times> ippool_state) outcome" where
  "get_ip_for_trs_id trs_id s =
     (let s = (if \<not> is_valid s then lazy_init s else s);
          k = unat (get_key_for_trs_id trs_id)
      in if k < length (ippool s) then Inr (ippool s ! k, s) else Inl BadRead)"

section \<open>The contract of an address pool\<close>

text \<open>
  What the DHCP server relies on: a pool answers 0 for everything at first, an
  update is seen by the ids that share the slot of the updated id and by no
  other id, and a lookup changes no answer.
\<close>

locale addr_pool =
  fixes start :: 'p
    and put :: "u32 \<Rightarrow> u32 \<Rightarrow> 'p \<Rightarrow> 'p outcome"
    and get :: "u32 \<Rightarrow> 'p \<Rightarrow> (u32 \<times> 'p) outcome"
    and slot :: "u32 \<Rightarrow> 'k"
    and answer :: "'p \<Rightarrow> u32 \<Rightarrow> u32"
    and wf :: "'p \<Rightarrow> bool"
  assumes wf_start: "wf start"
    and answer_start: "answer start t = 0"
    and put_ok: "wf s \<Longrightarrow> \<exists>s'. put ip t s = Inr s' \<and> wf s' \<and>
          answer s' = (\<lambda>u. if slot u = slot t then ip else answer s u)"
    and get_ok: "wf s \<Longrightarrow> \<exists>s'. get t s = Inr (answer s t, s') \<and> wf s' \<and> answer s' = answer s"
begin

lemma get_after_put:
  assumes "wf s"
  shows "\<exists>s'. seqE (put ip t s) (get u) = Inr (if slot u = slot t then ip else answer s u, s') \<and> wf s'"
proof -
  obtain s1 where s1: "put ip t s = Inr s1" "wf s1"
      "answer s1 = (\<lambda>u. if slot u = slot t then ip else answer s u)"
    using put_ok [OF assms] by blast
  obtain s2 where "get u s1 = Inr (answer s1 u, s2)" "wf s2"
    using get_ok [OF s1(2)] by blast
  with s1 show ?thesis by simp
qed

lemma puts_ok:
  assumes "wf s"
  shows "\<exists>s'. foldE (\<lambda>(ip, t). put ip t) ps s = Inr s' \<and> wf s' \<and>
     (\<forall>u. answer s' u = fold (\<lambda>(ip, t) a. if slot u = slot t then ip else a) ps (answer s u))"
  using assms
proof (induction ps arbitrary: s)
  case Nil
  then show ?case by simp
next
  case (Cons p ps)
  obtain ip t where p: "p = (ip, t)" by (cases p)
  obtain s1 where s1: "put ip t s = Inr s1" "wf s1"
      "answer s1 = (\<lambda>u. if slot u = slot t then ip else answer s u)"
    using put_ok [OF Cons.prems] by blast
  obtain s' where "foldE (\<lambda>(ip, t). put ip t) ps s1 = Inr s'" "wf s'"
      "\<forall>u. answer s' u = fold (\<lambda>(ip, t) a. if slot u = slot t then ip else a) ps (answer s1 u)"
    using Cons.IH [OF s1(2)] by blast
  with s1 p show ?case by simp
qed

lemma get_after_puts:
  "\<exists>s'. seqE (foldE (\<lambda>(ip, t). put ip t) ps start) (get u) =
     Inr (fold (\<lambda>(ip, t) a. if slot u = slot t then ip else a) ps 0, s') \<and> wf s'"
proof -
  obtain s1 where s1: "foldE (\<lambda>(ip, t). put ip t) ps start = Inr s1" "wf s1"
      "\<forall>u. answer s1 u = fold (\<lambda>(ip, t) a. if slot u = slot t then ip else a) ps (answer start u)"
    using puts_ok [OF wf_start] by blast
  obtain s2 where "get u s1 = Inr (answer s1 u, s2)" "wf s2"
    using get_ok [OF s1(2)] by blast
  with s1 show ?thesis by (simp add: answer_start)
qed

end

section \<open>The table meets the contract\<close>

definition pool_wf :: "ippool_state \<Rightarrow> bool" where
  "pool_wf s \<longleftrightarrow> length (ippool s) = MAX_IP"

definition pool_answer :: "ippool_state \<Rightarrow> u32 \<Rightarrow> u32" where
  "pool_answer s t = (if is_valid s then ippool s ! unat (get_key_for_trs_id t) else 0)"

lemma key_in_table [simp]: "unat (get_key_for_trs_id t) < MAX_IP"
  by (rule less_trans [OF unat_u8_less]) (simp add: MAX_IP_def)

lemma pool_set_answer:
  "pool_wf s \<Longrightarrow> \<exists>s'. set_ip_for_trs_id ip t s = Inr s' \<and> pool_wf s' \<and> is_valid s' \<and>
     pool_answer s' = (\<lambda>u. if get_key_for_trs_id u = get_key_for_trs_id t then ip
                          else pool_answer s u)"
  by (auto simp: set_ip_for_trs_id_def Let_def lazy_init_def pool_wf_def pool_answer_def
      fun_eq_iff nth_list_update word_unat_eq_iff)

lemma pool_get_answer:
  "pool_wf s \<Longrightarrow> \<exists>s'. get_ip_for_trs_id t s = Inr (pool_answer s t, s') \<and> pool_wf s' \<and>
     is_valid s' \<and> pool_answer s' = pool_answer s"
  by (auto simp: get_ip_for_trs_id_def Let_def lazy_init_def pool_wf_def pool_answer_def
      fun_eq_iff)

interpretation pool: addr_pool ippool_start set_ip_for_trs_id get_ip_for_trs_id
  get_key_for_trs_id pool_answer pool_wf
proof unfold_locales
  show "pool_wf ippool_start"
    by (simp add: pool_wf_def ippool_start_def)
  show "pool_answer ippool_start t = 0" for t
    by (simp add: pool_answer_def ippool_start_def)
qed (use pool_set_answer pool_get_answer in blast)+

section \<open>Properties\<close>

text \<open>
  The slot computation: the key of a transaction id is the sum of its four bytes
  modulo 256, so every access of the pool stays inside the first 256 of the \<open>MAX_IP\<close>
  slots, whatever the id.
\<close>

lemma key_is_byte_sum:
  "unat (get_key_for_trs_id t) = sum_list (map unat (st32 t)) mod 256 \<and>
   unat (get_key_for_trs_id t) < 256 \<and> 256 \<le> MAX_IP"
  by (simp add: get_key_for_trs_id_def st32_def unat_word_ariths MAX_IP_def mod_simps
      add.assoc)

text \<open>
  Functional correctness of the pool: starting from the program's initial state, after
  any sequence of \<open>set_ip_for_trs_id\<close> calls a lookup never faults and returns the address
  of the last call whose transaction id has the same key, and 0 when there was none.
\<close>

lemma pool_returns_last_set:
  "\<exists>s'. seqE (foldE (\<lambda>(ip, t). set_ip_for_trs_id ip t) ps ippool_start) (get_ip_for_trs_id u) =
     Inr (fold (\<lambda>(ip, t) a. if get_key_for_trs_id u = get_key_for_trs_id t then ip else a) ps 0, s')"
  using pool.get_after_puts by blast

text \<open>
  The header promises 0 "if no ip was found"; the table cannot tell ids with the same
  key apart. For every transaction id, the id with its bytes reversed has the same key, so
  setting an address for one id overwrites, and answers for, the other.
\<close>

lemma pool_confuses_reversed_ids:
  "\<exists>s'. seqE (set_ip_for_trs_id ip t ippool_start) (get_ip_for_trs_id (htonl t)) = Inr (ip, s')"
proof -
  have "get_key_for_trs_id (htonl t) = get_key_for_trs_id t"
    by (simp add: get_key_for_trs_id_def) (simp add: st32_def add.commute add.left_commute)
  then show ?thesis
    using pool.get_after_put [OF pool.wf_start, of ip t "htonl t"] by auto
qed

end
