(* ===== verification/Dhcp_Server.thy ===== *)
theory Dhcp_Server
  imports Dhcp_Writer Ip_Pool Net_Calls
begin

text \<open>
  The DHCP server thread: \<open>wait_dhcp_hdr\<close> and \<open>send_dhcp_hdr\<close> of
  \<open>TF/dhcp.c\<close>, \<open>get_cur_ip\<close> and \<open>init_DHCP_server\<close> of
  \<open>TF/Application.c\<close>.

  The operating system is a parameter. \<open>recv_env\<close> and \<open>send_env\<close> hold
  the results of the socket calls of one receive and of one send; the calls that get an address
  get it here too. What a call gives is documented behaviour of the call: \<open>recvfrom\<close>
  on a datagram socket stores at most as many bytes as the buffer holds and reports how many it
  stored. The state of the thread is the record \<open>dhcp_srv\<close>: the address pool, the
  counter \<open>cur_ip\<close>, the datagrams sent and the lines printed; what
  \<open>init\<close> read from the interface is \<open>net_conf\<close>.
\<close>

section \<open>Receiving and sending a header\<close>

definition DHCP_PRT_NUM_S :: u16 where [c_consts]: "DHCP_PRT_NUM_S = 67"
definition DHCP_PRT_NUM_C :: u16 where [c_consts]: "DHCP_PRT_NUM_C = 68"
definition INADDR_BROADCAST :: u32 where [c_consts]: "INADDR_BROADCAST = 0xFFFFFFFF"

datatype recv_result = RecvError | Received "u8 list" u32

record recv_env =
  r_socket :: int
  r_bind :: "u32 \<Rightarrow> u16 \<Rightarrow> int"
  r_recvfrom :: recv_result

definition wait_dhcp_hdr :: "recv_env \<Rightarrow> dhcp_hdr \<Rightarrow> (dhcp_hdr \<times> u32) outcome" where
  "wait_dhcp_hdr env pkg =
     (if r_socket env < 0 then Inl (ExitFailure ''socket'')
      else if r_bind env (htonl INADDR_ANY) (htons DHCP_PRT_NUM_S) < 0
        then Inl (ExitFailure ''bind'')
      else case r_recvfrom env of
        RecvError \<Rightarrow> Inl (ExitFailure ''recvfrom'')
      | Received payload src \<Rightarrow>
          (let dhcp_hdr_l = sizeof_dhcp_hdr;
               buffer = replicate dhcp_hdr_l 0;
               data = take dhcp_hdr_l payload;
               recv_data_l = length data;
               buffer = data @ drop recv_data_l buffer
           in seqE (set_dhcp_hdr_from_bytes pkg buffer recv_data_l) (\<lambda>pkg. Inr (pkg, src))))"

text \<open>A datagram: its bytes, and the address and the port as the socket address holds them.\<close>

type_synonym datagram = "u8 list \<times> u32 \<times> u16"

record send_env =
  s_socket :: int
  s_setsockopt :: int
  s_sendto :: "datagram \<Rightarrow> int"

text \<open>
  \<open>send_dhcp_hdr\<close> leaves the header converted; its local buffer is overwritten before it is
  sent, so the zeros it starts with here reach no datagram (\<open>set_bytes_ok\<close> holds for any).
\<close>

definition send_dhcp_hdr ::
  "send_env \<Rightarrow> dhcp_hdr \<Rightarrow> u32 \<Rightarrow> (dhcp_hdr \<times> datagram \<times> string list) outcome" where
  "send_dhcp_hdr env pkg addr =
     (let dhcp_hdr_l = sizeof_dhcp_hdr
      in if s_socket env < 0 then Inl (ExitFailure ''socket'')
         else if s_setsockopt env < 0 then Inl (ExitFailure ''setsockopt'')
         else seqE (set_bytes_from_dhcp_hdr pkg (replicate dhcp_hdr_l 0) dhcp_hdr_l)
           (\<lambda>(pkg, buffer, out).
             let dg = (take dhcp_hdr_l buffer, addr, htons DHCP_PRT_NUM_S)
             in if s_sendto env dg \<noteq> int dhcp_hdr_l then Inl (ExitFailure ''sendto'')
                else Inr (pkg, dg, out)))"

section \<open>The server thread\<close>

record net_conf =
  my_ip :: u32
  sub_addr :: u32
  dns_addr :: u32

record dhcp_srv =
  pool :: ippool_state
  cur_ip :: u32
  sent :: "datagram list"
  console :: "string list"

definition srv_start :: dhcp_srv where
  "srv_start = \<lparr>pool = ippool_start, cur_ip = 40, sent = [], console = []\<rparr>"

definition srv_hst_name :: "u8 list" where
  "srv_hst_name = map of_char ''NOT-A-ROUTER''"

definition get_cur_ip :: "net_conf \<Rightarrow> u32 \<Rightarrow> u32" where
  "get_cur_ip c cur = (my_ip c AND sub_addr c) + htonl cur"

definition mem_copy :: "u8 list \<Rightarrow> u8 list \<Rightarrow> nat \<Rightarrow> u8 list outcome" where
  "mem_copy dst src n = seqE (mem_block src 0 n) (mem_write dst 0)"

text \<open>
  The header both replies start from; the two cases of the source differ in the two
  addresses only.
\<close>

definition reply_header ::
  "net_conf \<Rightarrow> dhcp_hdr \<Rightarrow> u32 \<Rightarrow> u32 \<Rightarrow> dhcp_hdr \<Rightarrow> dhcp_hdr outcome" where
  "reply_header c i_hdr clt own o_hdr =
     (let o_hdr = o_hdr\<lparr>opcode := 2, hrd_t := 1, hrd_addr_l := of_nat ETHER_ADDR_L, hop_c := 0,
            trs_id := trs_id i_hdr, num_s := 0, flags := flags i_hdr, clt_ip := clt,
            own_ip := own, srv_ip := my_ip c, gtw_ip := my_ip c\<rparr>
      in seqE (mem_copy (clt_hrd_addr o_hdr) (clt_hrd_addr i_hdr) CLT_HRD_ADDR_L) (\<lambda>a.
         seqE (mem_copy (srv_hst o_hdr) srv_hst_name (length srv_hst_name)) (\<lambda>n.
         seqE (mem_copy (boot_fln o_hdr) (boot_fln i_hdr) BOOT_FLN_L) (\<lambda>b.
           Inr (o_hdr\<lparr>clt_hrd_addr := a, srv_hst := n, boot_fln := b\<rparr>)))))"

definition reply_options :: "net_conf \<Rightarrow> dhcp_msg_t \<Rightarrow> dhcp_opt \<Rightarrow> dhcp_opt" where
  "reply_options c msg o_opt =
     o_opt\<lparr>dhcp_msg := msg, ip_lease_time := 10000, srv_id := st32 (my_ip c),
       rtr_id := st32 (my_ip c), sub_msk := st32 (sub_addr c), dns_id := st32 (dns_addr c),
       rnw_time := 10000, rbn_time := 10000\<rparr>"

definition on_discover ::
  "net_conf \<Rightarrow> send_env \<Rightarrow> dhcp_hdr \<Rightarrow> dhcp_srv \<Rightarrow> dhcp_srv outcome" where
  "on_discover c env i_hdr s =
     (let s = s\<lparr>console := console s @ [''Discover'']\<rparr>
      in seqE (reply_header c i_hdr 0 (get_cur_ip c (cur_ip s)) zero_hdr) (\<lambda>o_hdr.
         seqE (set_dhcp_hdr_from_dhcp_opt (reply_options c OFFER zero_opt) o_hdr) (\<lambda>o_hdr.
         seqE (send_dhcp_hdr env o_hdr INADDR_BROADCAST) (\<lambda>(o_hdr, dg, out).
         seqE (set_ip_for_trs_id (get_cur_ip c (cur_ip s)) (trs_id i_hdr) (pool s)) (\<lambda>p.
           Inr (s\<lparr>pool := p, sent := sent s @ [dg], console := console s @ out\<rparr>))))))"

definition on_request ::
  "net_conf \<Rightarrow> send_env \<Rightarrow> dhcp_hdr \<Rightarrow> dhcp_srv \<Rightarrow> dhcp_srv outcome" where
  "on_request c env i_hdr s =
     seqE (get_ip_for_trs_id (trs_id i_hdr) (pool s)) (\<lambda>(o_addr, p).
     let s = s\<lparr>pool := p\<rparr>;
         own = (if o_addr = 0 then get_cur_ip c (cur_ip s) else o_addr)
     in seqE (reply_header c i_hdr (clt_ip i_hdr) own zero_hdr) (\<lambda>o_hdr.
        seqE (set_dhcp_hdr_from_dhcp_opt (reply_options c ACK zero_opt) o_hdr) (\<lambda>o_hdr.
        seqE (send_dhcp_hdr env o_hdr INADDR_BROADCAST) (\<lambda>(o_hdr, dg, out).
        seqE (set_ip_for_trs_id (get_cur_ip c (cur_ip s)) (trs_id i_hdr) (pool s)) (\<lambda>p.
          Inr (s\<lparr>pool := p, cur_ip := cur_ip s + 1, sent := sent s @ [dg],
            console := console s @ out @ [''Request'']\<rparr>))))))"

fun handle_dhcp_msg ::
  "net_conf \<Rightarrow> send_env \<Rightarrow> dhcp_hdr \<Rightarrow> dhcp_msg_t \<Rightarrow> dhcp_srv \<Rightarrow> dhcp_srv outcome" where
  "handle_dhcp_msg c env i_hdr DISCOVER s = on_discover c env i_hdr s"
| "handle_dhcp_msg c env i_hdr OFFER s = Inr (s\<lparr>console := console s @ [''Offer'']\<rparr>)"
| "handle_dhcp_msg c env i_hdr REQUEST s = on_request c env i_hdr s"
| "handle_dhcp_msg c env i_hdr DECLINE s = Inr (s\<lparr>console := console s @ [''Decline'']\<rparr>)"
| "handle_dhcp_msg c env i_hdr ACK s = Inr (s\<lparr>console := console s @ [''Ack'']\<rparr>)"
| "handle_dhcp_msg c env i_hdr NAK s = Inr (s\<lparr>console := console s @ [''Nak'']\<rparr>)"
| "handle_dhcp_msg c env i_hdr RELEASE s = Inr (s\<lparr>console := console s @ [''Release'']\<rparr>)"
| "handle_dhcp_msg c env i_hdr INFORM s = Inr (s\<lparr>console := console s @ [''Inform'']\<rparr>)"
| "handle_dhcp_msg c env i_hdr INVALID s = Inr (s\<lparr>console := console s @ [''Invalid'']\<rparr>)"

text \<open>
  One round of the server's loop, and the loop over the packets of a run. \<open>None\<close> when the
  options reader does not return.
\<close>

definition dhcp_round ::
  "net_conf \<Rightarrow> recv_env \<times> send_env \<Rightarrow> dhcp_srv \<Rightarrow> dhcp_srv outcome option" where
  "dhcp_round c e s =
     (case wait_dhcp_hdr (fst e) zero_hdr of
        Inl err \<Rightarrow> Some (Inl err)
      | Inr (i_hdr, i_addr) \<Rightarrow>
          (case set_dhcp_opt_from_dhcp_hdr zero_opt i_hdr of
             None \<Rightarrow> None
           | Some (Inl err) \<Rightarrow> Some (Inl err)
           | Some (Inr i_opt) \<Rightarrow> Some (handle_dhcp_msg c (snd e) i_hdr (dhcp_msg i_opt) s)))"

fun init_DHCP_server ::
  "net_conf \<Rightarrow> (recv_env \<times> send_env) list \<Rightarrow> dhcp_srv \<Rightarrow> dhcp_srv outcome option" where
  "init_DHCP_server c [] s = Some (Inr s)"
| "init_DHCP_server c (e # es) s =
     (case dhcp_round c e s of
        None \<Rightarrow> None
      | Some (Inl err) \<Rightarrow> Some (Inl err)
      | Some (Inr s') \<Rightarrow> init_DHCP_server c es s')"

end
