(* ===== verification/App_Init.thy ===== *)
theory App_Init
  imports Eth_Frame Dhcp_Server
begin

text \<open>
  \<open>init\<close> of \<open>TF/Application.c\<close>: the addresses of the host are read from
  the network interface and the Ethernet layer is set up. \<open>init\<close> walks its own copy
  of the interface list with the loop of \<open>get_ifa_name\<close> (\<open>pick_ifa\<close>).
  The global variables it sets are the record \<open>app_globals\<close>; the shell command that
  turns on forwarding and \<open>atexit\<close> are left out, and the output is the subject of
  \<open>Tf_Console\<close>. The value of \<open>inet_addr\<close> on the constant string is
  written out.
\<close>

record app_globals =
  conf :: net_conf
  brd_addr :: u32
  app_ifa_name :: "u8 list"
  eth :: eth_state

definition DNS_SRV_ADDR :: u32 where "DNS_SRV_ADDR = ld32 [8, 8, 8, 8]"

definition deref :: "'a option \<Rightarrow> 'a outcome" where
  "deref p = (case p of None \<Rightarrow> Inl BadRead | Some x \<Rightarrow> Inr x)"

definition init_addresses :: "ifaddr list \<Rightarrow> app_globals \<Rightarrow> app_globals outcome" where
  "init_addresses addrs g =
     (let g = g\<lparr>app_ifa_name := replicate (IFNAMSIZ + 1) 0\<rparr>
      in seqE (pick_ifa addrs) (\<lambda>it.
         case it of None \<Rightarrow> Inr g
         | Some it \<Rightarrow>
             seqE (deref (ifa_addr it)) (\<lambda>(_, ip).
             seqE (deref (ifa_broadaddr it)) (\<lambda>brd.
             seqE (deref (ifa_netmask it)) (\<lambda>sub.
             seqE (c_strcpy (app_ifa_name g) (ifa_name it @ [0])) (\<lambda>nm.
               Inr (g\<lparr>conf := (conf g)\<lparr>my_ip := ip, sub_addr := sub\<rparr>, brd_addr := brd,
                 app_ifa_name := nm\<rparr>)))))))"

definition app_init :: "ifaddr list \<Rightarrow> eth_env \<Rightarrow> app_globals \<Rightarrow> app_globals outcome" where
  "app_init addrs env g =
     seqE (init_addresses addrs g) (\<lambda>g.
     let g = g\<lparr>conf := (conf g)\<lparr>dns_addr := DNS_SRV_ADDR\<rparr>\<rparr>
     in seqE (eth_init env (eth g)) (\<lambda>(_, st). Inr (g\<lparr>eth := st\<rparr>)))"

text \<open>The global variables of a C program start as zeros.\<close>

definition globals_start :: app_globals where
  "globals_start = \<lparr>conf = \<lparr>my_ip = 0, sub_addr = 0, dns_addr = 0\<rparr>, brd_addr = 0,
     app_ifa_name = replicate (IFNAMSIZ + 1) 0,
     eth = \<lparr>ifname = replicate IFNAMSIZ 0, buf_size = 0, bpf = 0\<rparr>\<rparr>"

section \<open>Properties\<close>

definition ifa_complete :: "ifaddr \<Rightarrow> bool" where
  "ifa_complete it \<longleftrightarrow> name_ok it \<and> ifa_broadaddr it \<noteq> None \<and> ifa_netmask it \<noteq> None"

lemma init_addresses_find:
  assumes "\<forall>it \<in> set addrs. ifa_complete it"
  shows "init_addresses addrs globals_start = Inr (case find usable addrs of
      None \<Rightarrow> globals_start
    | Some it \<Rightarrow> globals_start\<lparr>conf := \<lparr>my_ip = snd (the (ifa_addr it)), sub_addr = the (ifa_netmask it),
        dns_addr = 0\<rparr>, brd_addr := the (ifa_broadaddr it),
        app_ifa_name := ifa_name it @ replicate (IFNAMSIZ + 1 - length (ifa_name it)) 0\<rparr>)"
proof (cases "find usable addrs")
  case None
  then show ?thesis
    using assms pick_ifa_find [of addrs]
    by (simp add: init_addresses_def ifa_complete_def name_ok_def globals_start_def)
next
  case (Some it)
  then have ok: "ifa_complete it" "usable it" using assms by (auto simp: find_Some_iff)
  then have "c_strcpy (replicate (IFNAMSIZ + 1) 0) (ifa_name it @ [0]) =
      Inr (ifa_name it @ 0 # drop (length (ifa_name it) + 1) (replicate (IFNAMSIZ + 1) 0))"
    by (intro c_strcpy_ok) (auto simp: name_ok_def ifa_complete_def)
  moreover have "0 # drop (length (ifa_name it) + 1) (replicate (IFNAMSIZ + 1) (0 :: u8)) =
      replicate (IFNAMSIZ + 1 - length (ifa_name it)) 0"
    using ok by (auto simp: name_ok_def ifa_complete_def Suc_diff_le simp flip: replicate_Suc)
  ultimately show ?thesis
    using assms Some ok pick_ifa_find [of addrs]
    by (auto simp: init_addresses_def ifa_complete_def name_ok_def globals_start_def deref_def
        usable_def split: option.splits)
qed

text \<open>
  The server answers on the interface the sniffer listens on: when the list has a usable
  interface and its entries are complete, \<open>init\<close> takes address, mask and name from
  the first usable one, and the name is the one \<open>eth_init\<close> stored for the packet
  filter. A failure of \<open>eth_init\<close> does not stop the program.
\<close>

lemma init_one_interface:
  assumes "\<forall>it \<in> set (ifas env). ifa_complete it" and "find usable (ifas env) = Some it"
    and "length (ifr_stack env) = IFNAMSIZ"
  shows "\<exists>g. app_init (ifas env) env globals_start = Inr g \<and>
    conf g = \<lparr>my_ip = snd (the (ifa_addr it)), sub_addr = the (ifa_netmask it),
      dns_addr = DNS_SRV_ADDR\<rparr> \<and>
    takeWhile (\<lambda>b. b \<noteq> 0) (app_ifa_name g) = ifa_name it \<and>
    takeWhile (\<lambda>b. b \<noteq> 0) (ifname (eth g)) = ifa_name it \<and>
    eth g = snd (attached env it ((eth globals_start)\<lparr>ifname := padded_name it\<rparr>))"
proof -
  have names: "\<forall>it \<in> set (ifas env). name_ok it" using assms(1) by (simp add: ifa_complete_def)
  have ok: "name_ok it" using assms(2) names by (auto simp: find_Some_iff)
  let ?a = "attached env it ((eth globals_start)\<lparr>ifname := padded_name it\<rparr>)"
  obtain r st where a: "?a = (r, st)" by (cases ?a)
  have "ifname (snd ?a) = padded_name it"
    by (simp add: attached_def Let_def split: option.split)
  then have "ifname st = padded_name it" by (simp only: a snd_conv)
  moreover have "eth_init env (eth globals_start) = Inr (r, st)"
    using eth_init_found [OF names assms(3,2), of "eth globals_start"] by (simp only: a)
  moreover have "takeWhile (\<lambda>b. b \<noteq> 0) (ifa_name it @ replicate (IFNAMSIZ + 1 - length (ifa_name it)) 0) =
      ifa_name it"
    using ok takeWhile_name [OF ok]
    by (cases "IFNAMSIZ + 1 - length (ifa_name it)") (auto simp: name_ok_def)
  ultimately show ?thesis
    using init_addresses_find [OF assms(1)] assms(2) padded_name_str [OF ok] a
    by (simp add: app_init_def globals_start_def)
qed

text \<open>
  Without a usable interface the program still starts: all addresses stay 0, and the DHCP
  server would offer \<open>0.0.0.40\<close> and the addresses after it.
\<close>

lemma init_without_interface:
  assumes "\<forall>it \<in> set (ifas env). ifa_complete it" and "find usable (ifas env) = None"
  shows "\<exists>g. app_init (ifas env) env globals_start = Inr g \<and>
    st32 (get_cur_ip (conf g) (cur_ip srv_start)) = [0, 0, 0, 40]"
proof -
  have "eth_init env (eth globals_start) = Inr (- 1, (eth globals_start)\<lparr>ifname := replicate IFNAMSIZ 0\<rparr>)"
    using get_ifa_name_find [of "ifas env"] assms by (simp add: eth_init_def ifa_complete_def)
  moreover have "st32 (get_cur_ip \<lparr>my_ip = 0, sub_addr = 0, dns_addr = DNS_SRV_ADDR\<rparr> (cur_ip srv_start)) =
      [0, 0, 0, 40]"
    by (simp add: get_cur_ip_def srv_start_def) (simp add: st32_def)
  ultimately show ?thesis
    using init_addresses_find [OF assms(1)] assms(2) by (simp add: app_init_def globals_start_def)
qed

lemma init_without_interface_witness:
  "\<exists>g. app_init [sample_ifa\<lparr>ifa_addr := None\<rparr>] (sample_eth_env\<lparr>ifas := [sample_ifa\<lparr>ifa_addr := None\<rparr>]\<rparr>)
     globals_start = Inr g \<and> st32 (get_cur_ip (conf g) (cur_ip srv_start)) = [0, 0, 0, 40]"
proof -
  let ?i = "sample_ifa\<lparr>ifa_addr := None\<rparr>"
  have "ifa_complete ?i" "\<not> usable ?i"
    by (simp_all add: ifa_complete_def sample_ifa_def name_ok_def usable_def c_consts)
  then show ?thesis
    using init_without_interface [of "sample_eth_env\<lparr>ifas := [?i]\<rparr>"] by simp
qed

end
