(* ===== verification/Dhcp_Leases.thy ===== *)
theory Dhcp_Leases
  imports Dhcp_Server
begin

text \<open>
  What the DHCP server hands out. The replies are computed once in closed form
  (\<open>reply_datagram\<close>); the server thread is then shown to refine a lease table that
  knows only a counter and an answer per transaction id, and the properties of runs are
  proved over the lease table.
\<close>

section \<open>Addresses\<close>

lemma subnet_htonl: "v AND w = htonl (ntohl v AND ntohl w)"
  by (simp add: htonl_AND)

lemma plus_disjoint: "(v :: u32) AND w = 0 \<Longrightarrow> v + w = v OR w"
  by (metis word_plus_and_or add_0)

lemma htonl_plus_disjoint: "v AND w = 0 \<Longrightarrow> htonl v + htonl w = htonl (v + w)"
  by (metis htonl_AND htonl_OR htonl_0 plus_disjoint)

lemma get_cur_ip_inject [simp]: "get_cur_ip c m = get_cur_ip c n \<longleftrightarrow> m = n"
  by (simp add: get_cur_ip_def)

section \<open>The replies\<close>

definition send_ok :: "send_env \<Rightarrow> bool" where
  "send_ok env \<longleftrightarrow> 0 \<le> s_socket env \<and> 0 \<le> s_setsockopt env \<and>
     (\<forall>dg. s_sendto env dg = int (length (fst dg)))"

definition reply_pkg ::
  "net_conf \<Rightarrow> dhcp_hdr \<Rightarrow> dhcp_msg_t \<Rightarrow> u32 \<Rightarrow> u32 \<Rightarrow> dhcp_hdr" where
  "reply_pkg c i msg clt own =
     \<lparr>opcode = 2, hrd_t = 1, hrd_addr_l = 6, hop_c = 0, trs_id = trs_id i, num_s = 0,
      flags = flags i, clt_ip = clt, own_ip = own, srv_ip = my_ip c, gtw_ip = my_ip c,
      clt_hrd_addr = clt_hrd_addr i, srv_hst = srv_hst_name @ replicate 52 0,
      boot_fln = boot_fln i,
      opt = (let w = written_bytes (reply_options c msg zero_opt) []
             in w @ replicate (312 - length w) 0)\<rparr>"

definition reply_datagram ::
  "net_conf \<Rightarrow> dhcp_hdr \<Rightarrow> dhcp_msg_t \<Rightarrow> u32 \<Rightarrow> u32 \<Rightarrow> datagram" where
  "reply_datagram c i msg clt own =
     (wire_bytes (reply_pkg c i msg clt own), INADDR_BROADCAST, htons DHCP_PRT_NUM_S)"

lemma length_srv_hst_name [simp]: "length srv_hst_name = 12"
  by (simp add: srv_hst_name_def)

lemma mem_copy_all: "length dst = n \<Longrightarrow> length src = n \<Longrightarrow> mem_copy dst src n = Inr src"
  by (simp add: mem_copy_def mem_block_def mem_write_def)

lemma mem_copy_prefix:
  "length src \<le> length dst \<Longrightarrow>
   mem_copy dst src (length src) = Inr (src @ drop (length src) dst)"
  by (simp add: mem_copy_def mem_block_def mem_write_def)

lemma zero_hdr_fields [simp]:
  "clt_hrd_addr zero_hdr = replicate 16 0" "srv_hst zero_hdr = replicate 64 0"
  "boot_fln zero_hdr = replicate 128 0" "opt zero_hdr = replicate 312 0"
  by (simp_all add: zero_hdr_def bytes_hdr_def c_consts)

lemma wf_reply_options [simp]: "wf_opt (reply_options c msg zero_opt)"
  by (simp add: wf_opt_def reply_options_def zero_opt_def IP_ADDR_L_def)

lemma reply_options_name: "hst_name (reply_options c msg zero_opt) = [] @ 0 # replicate 311 0"
  by (simp add: reply_options_def zero_opt_def c_consts numeral_eq_Suc)

lemma length_reply_bytes: "length (written_bytes (reply_options c msg zero_opt) []) \<le> 61"
  using length_written_bytes [OF wf_reply_options, of c msg "[]"] by simp

lemma wf_reply_pkg [simp]: "wf_hdr i \<Longrightarrow> wf_hdr (reply_pkg c i msg clt own)"
  using length_reply_bytes [of c msg] by (simp add: wf_hdr_def reply_pkg_def c_consts Let_def)

lemma reply_header_ok:
  "wf_hdr i \<Longrightarrow> reply_header c i clt own zero_hdr =
     Inr ((reply_pkg c i msg clt own)\<lparr>opt := replicate 312 0\<rparr>)"
  using mem_copy_prefix [of srv_hst_name "replicate 64 0"]
  by (simp add: reply_header_def mem_copy_all wf_hdr_def c_consts reply_pkg_def Let_def
      zero_hdr_def bytes_hdr_def)

lemma reply_written:
  "set_dhcp_hdr_from_dhcp_opt (reply_options c msg zero_opt)
     ((reply_pkg c i msg clt own)\<lparr>opt := replicate 312 0\<rparr>) = Inr (reply_pkg c i msg clt own)"
  using writer_result [OF wf_reply_options _ reply_options_name, of c msg] length_reply_bytes [of c msg]
  by (simp add: Let_def reply_pkg_def)

lemma send_reply:
  "wf_hdr i \<Longrightarrow> send_ok env \<Longrightarrow>
   send_dhcp_hdr env (reply_pkg c i msg clt own) INADDR_BROADCAST =
     Inr (to_net (reply_pkg c i msg clt own), reply_datagram c i msg clt own, [])"
  by (simp add: send_dhcp_hdr_def send_ok_def Let_def set_bytes_ok reply_datagram_def)

lemma on_discover_ok:
  assumes "pool_wf (pool s)" and "wf_hdr i" and "send_ok env"
  shows "\<exists>p. on_discover c env i s = Inr (s\<lparr>pool := p,
      sent := sent s @ [reply_datagram c i OFFER 0 (get_cur_ip c (cur_ip s))],
      console := console s @ [''Discover'']\<rparr>) \<and> pool_wf p \<and>
    pool_answer p = (\<lambda>u. if get_key_for_trs_id u = get_key_for_trs_id (trs_id i)
       then get_cur_ip c (cur_ip s) else pool_answer (pool s) u)"
proof -
  obtain p where "set_ip_for_trs_id (get_cur_ip c (cur_ip s)) (trs_id i) (pool s) = Inr p"
      "pool_wf p" "pool_answer p = (\<lambda>u. if get_key_for_trs_id u = get_key_for_trs_id (trs_id i)
         then get_cur_ip c (cur_ip s) else pool_answer (pool s) u)"
    using pool.put_ok [OF assms(1)] by blast
  then show ?thesis
    using assms(2,3)
    by (intro exI [of _ p]) (simp add: on_discover_def Let_def reply_header_ok [where msg = OFFER] reply_written
        send_reply)
qed

lemma on_request_ok:
  assumes "pool_wf (pool s)" and "wf_hdr i" and "send_ok env"
  shows "\<exists>p. on_request c env i s = Inr (s\<lparr>pool := p, cur_ip := cur_ip s + 1,
      sent := sent s @ [reply_datagram c i ACK (clt_ip i)
        (if pool_answer (pool s) (trs_id i) = 0 then get_cur_ip c (cur_ip s)
         else pool_answer (pool s) (trs_id i))],
      console := console s @ [''Request'']\<rparr>) \<and> pool_wf p \<and>
    pool_answer p = (\<lambda>u. if get_key_for_trs_id u = get_key_for_trs_id (trs_id i)
       then get_cur_ip c (cur_ip s) else pool_answer (pool s) u)"
proof -
  obtain p1 where p1: "get_ip_for_trs_id (trs_id i) (pool s) =
      Inr (pool_answer (pool s) (trs_id i), p1)" "pool_wf p1"
      "pool_answer p1 = pool_answer (pool s)"
    using pool.get_ok [OF assms(1)] by blast
  obtain p where "set_ip_for_trs_id (get_cur_ip c (cur_ip s)) (trs_id i) p1 = Inr p"
      "pool_wf p" "pool_answer p = (\<lambda>u. if get_key_for_trs_id u = get_key_for_trs_id (trs_id i)
         then get_cur_ip c (cur_ip s) else pool_answer p1 u)"
    using pool.put_ok [OF p1(2)] by blast
  with p1 show ?thesis
    using assms(2,3)
    by (intro exI [of _ p]) (simp add: on_request_def Let_def reply_header_ok [where msg = ACK]
        reply_written send_reply cong: if_cong)
qed

lemma reply_reads_back:
  assumes "wf_hdr i"
  shows "set_dhcp_hdr_from_bytes zero_hdr (wire_bytes (reply_pkg c i msg clt own)) sizeof_dhcp_hdr =
    Inr (reply_pkg c i msg clt own)"
proof -
  let ?p = "reply_pkg c i msg clt own"
  have wf: "wf_hdr ?p" using assms by simp
  then have "bytes_hdr (wire_bytes ?p) = to_net ?p"
    by (metis hdr_bytes_to_net wf_to_net bytes_hdr_hdr_bytes)
  then show ?thesis
    using set_hdr_ok [OF wf_zero_hdr, of sizeof_dhcp_hdr "wire_bytes ?p"] wf
    by (simp add: to_net_def)
qed

lemma reply_options_read_back:
  "set_dhcp_opt_from_dhcp_hdr zero_opt (reply_pkg c i msg clt own) =
     Some (Inr (decoded (reply_options c msg zero_opt) zero_opt))"
proof -
  let ?q = "reply_options c msg zero_opt"
  have "list_all sized (written_items ?q [])"
    by (rule sized_written) simp_all
  moreover have "opt (reply_pkg c i msg clt own) = MAGIC_COOKIE @
      concat (map enc_item (written_items ?q [])) @ DHCP_END_OP #
      replicate (312 - length (written_bytes ?q [])) 0"
    by (simp add: reply_pkg_def written_bytes_def enc_items_def Let_def)
  moreover have "fold apply_item (written_items ?q []) (reset_opt zero_opt) = decoded ?q zero_opt"
    by (rule read_written_items [OF wf_reply_options])
      (simp_all add: reply_options_def zero_opt_def)
  ultimately show ?thesis by (simp add: reader_on_items)
qed

text \<open>
  A reply as the program's own decoder reads it from the datagram: message type, transaction id and
  the address for the client.
\<close>

type_synonym reply = "dhcp_msg_t \<times> u32 \<times> u32"

definition decode_reply :: "datagram \<Rightarrow> reply option" where
  "decode_reply dg =
     (case set_dhcp_hdr_from_bytes zero_hdr (fst dg) sizeof_dhcp_hdr of
        Inl e \<Rightarrow> None
      | Inr h \<Rightarrow> (case set_dhcp_opt_from_dhcp_hdr zero_opt h of
            Some (Inr q) \<Rightarrow> Some (dhcp_msg q, trs_id h, own_ip h)
          | _ \<Rightarrow> None))"

lemma decode_reply_datagram [simp]:
  "wf_hdr i \<Longrightarrow> decode_reply (reply_datagram c i msg clt own) = Some (msg, trs_id i, own)"
  by (simp add: decode_reply_def reply_datagram_def reply_reads_back reply_options_read_back)
    (simp add: decoded_def reply_options_def reply_pkg_def)

definition to_clients :: "datagram \<Rightarrow> bool" where
  "to_clients dg \<longleftrightarrow> snd dg = (INADDR_BROADCAST, htons DHCP_PRT_NUM_S)"

lemma to_clients_datagram [simp]: "to_clients (reply_datagram c i msg clt own)"
  by (simp add: to_clients_def reply_datagram_def)

text \<open>The address of a reply as it lies in the datagram.\<close>

definition reply_own_ip :: "datagram \<Rightarrow> u32" where
  "reply_own_ip dg = ld32 (take 4 (drop 16 (fst dg)))"

lemma reply_own_ip_datagram [simp]: "reply_own_ip (reply_datagram c i msg clt own) = own"
  by (simp add: reply_own_ip_def reply_datagram_def wire_bytes_def reply_pkg_def)

section \<open>The lease table\<close>

text \<open>
  The specification: the next address is a counter; a packet is a message type and a
  transaction id; a reply is a message type, the transaction id and an address.
\<close>

record leases =
  next_ip :: u32
  answers :: "u32 \<Rightarrow> u32"

definition lease_for :: "net_conf \<Rightarrow> u32 \<Rightarrow> leases \<Rightarrow> leases" where
  "lease_for c t l = l\<lparr>answers := (\<lambda>u. if get_key_for_trs_id u = get_key_for_trs_id t
       then get_cur_ip c (next_ip l) else answers l u)\<rparr>"

fun lease_step :: "net_conf \<Rightarrow> dhcp_msg_t \<times> u32 \<Rightarrow> leases \<Rightarrow> leases \<times> reply list" where
  "lease_step c (DISCOVER, t) l = (lease_for c t l, [(OFFER, t, get_cur_ip c (next_ip l))])"
| "lease_step c (REQUEST, t) l =
     ((lease_for c t l)\<lparr>next_ip := next_ip l + 1\<rparr>,
      [(ACK, t, if answers l t = 0 then get_cur_ip c (next_ip l) else answers l t)])"
| "lease_step c (_, t) l = (l, [])"

fun lease_run :: "net_conf \<Rightarrow> (dhcp_msg_t \<times> u32) list \<Rightarrow> leases \<Rightarrow> leases \<times> reply list" where
  "lease_run c [] l = (l, [])"
| "lease_run c (e # es) l =
     (fst (lease_run c es (fst (lease_step c e l))),
      snd (lease_step c e l) @ snd (lease_run c es (fst (lease_step c e l))))"

abbreviation reply_addr :: "reply \<Rightarrow> u32" where
  "reply_addr r \<equiv> snd (snd r)"

definition srv_leases :: "dhcp_srv \<Rightarrow> leases" where
  "srv_leases s = \<lparr>next_ip = cur_ip s, answers = pool_answer (pool s)\<rparr>"

text \<open>
  A round whose receive succeeds, whose packet the reader completes and whose sends succeed.
\<close>

definition carries :: "recv_env \<times> send_env \<Rightarrow> dhcp_msg_t \<times> u32 \<Rightarrow> bool" where
  "carries e pkt \<longleftrightarrow> send_ok (snd e) \<and>
     (\<exists>h src q. wait_dhcp_hdr (fst e) zero_hdr = Inr (h, src) \<and>
        set_dhcp_opt_from_dhcp_hdr zero_opt h = Some (Inr q) \<and> pkt = (dhcp_msg q, trs_id h))"

lemma wait_wf: "wait_dhcp_hdr env zero_hdr = Inr (h, src) \<Longrightarrow> wf_hdr h"
proof -
  assume "wait_dhcp_hdr env zero_hdr = Inr (h, src)"
  then obtain payload where p: "set_dhcp_hdr_from_bytes zero_hdr
      (take sizeof_dhcp_hdr payload @ drop (length (take sizeof_dhcp_hdr payload))
        (replicate sizeof_dhcp_hdr 0)) (length (take sizeof_dhcp_hdr payload)) = Inr h"
    by (auto simp: wait_dhcp_hdr_def Let_def seqE_eq_Inr split: if_splits recv_result.splits)
  then obtain m where "length m = sizeof_dhcp_hdr" "h = (let pkg = bytes_hdr m in
      pkg\<lparr>trs_id := ntohl (trs_id pkg), num_s := ntohs (num_s pkg), flags := ntohs (flags pkg)\<rparr>)"
    by (auto simp: set_dhcp_hdr_from_bytes_def seqE_eq_Inr Let_def dest: mem_write_length)
  then show "wf_hdr h"
    using wf_bytes_hdr [of m] by (simp add: wf_hdr_def Let_def)
qed

lemma round_refines:
  assumes "carries e pkt" and "pool_wf (pool s)"
  shows "\<exists>s'. dhcp_round c e s = Some (Inr s') \<and> pool_wf (pool s') \<and>
    srv_leases s' = fst (lease_step c pkt (srv_leases s)) \<and>
    (\<exists>dgs. sent s' = sent s @ dgs \<and> list_all to_clients dgs \<and>
      map decode_reply dgs = map Some (snd (lease_step c pkt (srv_leases s))) \<and>
      map reply_own_ip dgs = map reply_addr (snd (lease_step c pkt (srv_leases s))))"
proof -
  obtain h src q where e: "send_ok (snd e)" "wait_dhcp_hdr (fst e) zero_hdr = Inr (h, src)"
      "set_dhcp_opt_from_dhcp_hdr zero_opt h = Some (Inr q)" "pkt = (dhcp_msg q, trs_id h)"
    using assms(1) by (auto simp: carries_def)
  have wf: "wf_hdr h" by (rule wait_wf [OF e(2)])
  have r: "dhcp_round c e s = Some (handle_dhcp_msg c (snd e) h (dhcp_msg q) s)"
    using e by (simp add: dhcp_round_def)
  show ?thesis
  proof (cases "dhcp_msg q")
    case DISCOVER
    then show ?thesis
      using on_discover_ok [OF assms(2) wf e(1), of c] r e(4) wf
      by (auto simp: srv_leases_def lease_for_def cong: if_cong)
  next
    case REQUEST
    then show ?thesis
      using on_request_ok [OF assms(2) wf e(1), of c] r e(4) wf
      by (auto simp: srv_leases_def lease_for_def cong: if_cong)
  qed (use r e(4) assms(2) in \<open>auto simp: srv_leases_def\<close>)
qed

lemma run_replies:
  assumes "list_all2 carries es pkts" and "pool_wf (pool s)"
  shows "\<exists>s'. init_DHCP_server c es s = Some (Inr s') \<and> pool_wf (pool s') \<and>
    srv_leases s' = fst (lease_run c pkts (srv_leases s)) \<and>
    (\<exists>dgs. sent s' = sent s @ dgs \<and> list_all to_clients dgs \<and>
      map decode_reply dgs = map Some (snd (lease_run c pkts (srv_leases s))) \<and>
      map reply_own_ip dgs = map reply_addr (snd (lease_run c pkts (srv_leases s))))"
  using assms
proof (induction es pkts arbitrary: s rule: list_all2_induct)
  case Nil
  then show ?case by simp
next
  case (Cons e es pkt pkts)
  let ?l = "srv_leases s"
  obtain s1 dgs1 where s1: "dhcp_round c e s = Some (Inr s1)" "pool_wf (pool s1)"
      "srv_leases s1 = fst (lease_step c pkt ?l)" "sent s1 = sent s @ dgs1" "list_all to_clients dgs1"
      "map decode_reply dgs1 = map Some (snd (lease_step c pkt ?l))"
      "map reply_own_ip dgs1 = map reply_addr (snd (lease_step c pkt ?l))"
    using round_refines [OF Cons.hyps(1) Cons.prems] by blast
  obtain s' dgs where "init_DHCP_server c es s1 = Some (Inr s')" "pool_wf (pool s')"
      "srv_leases s' = fst (lease_run c pkts (srv_leases s1))" "sent s' = sent s1 @ dgs"
      "list_all to_clients dgs"
      "map decode_reply dgs = map Some (snd (lease_run c pkts (srv_leases s1)))"
      "map reply_own_ip dgs = map reply_addr (snd (lease_run c pkts (srv_leases s1)))"
    using Cons.IH [OF s1(2)] by blast
  with s1 show ?case by (intro exI [of _ s']) auto
qed

lemma run_refines:
  assumes "list_all2 carries es pkts" and "pool_wf (pool s)"
  shows "\<exists>s'. init_DHCP_server c es s = Some (Inr s') \<and> pool_wf (pool s') \<and>
    srv_leases s' = fst (lease_run c pkts (srv_leases s)) \<and>
    map reply_own_ip (sent s') =
      map reply_own_ip (sent s) @ map reply_addr (snd (lease_run c pkts (srv_leases s)))"
  using run_replies [OF assms, of c] by auto

section \<open>Runs of the lease table\<close>

lemma lease_run_append:
  "lease_run c (xs @ ys) l =
     (fst (lease_run c ys (fst (lease_run c xs l))),
      snd (lease_run c xs l) @ snd (lease_run c ys (fst (lease_run c xs l))))"
  by (induction xs arbitrary: l) simp_all

lemma lease_step_next:
  "next_ip (fst (lease_step c p l)) = (if fst p = REQUEST then next_ip l + 1 else next_ip l)"
  by (cases "(c, p, l)" rule: lease_step.cases) (simp_all add: lease_for_def)

lemma lease_step_replies:
  "length (snd (lease_step c p l)) = (if fst p \<in> {DISCOVER, REQUEST} then 1 else 0)"
  by (cases "(c, p, l)" rule: lease_step.cases) simp_all

lemma lease_step_frame:
  "fst p \<in> {DISCOVER, REQUEST} \<longrightarrow> get_key_for_trs_id (snd p) \<noteq> get_key_for_trs_id t \<Longrightarrow>
   answers (fst (lease_step c p l)) t = answers l t"
  by (cases "(c, p, l)" rule: lease_step.cases) (auto simp: lease_for_def)

lemma lease_run_next:
  "next_ip (fst (lease_run c ps l)) =
     next_ip l + of_nat (length (filter (\<lambda>p. fst p = REQUEST) ps))"
  by (induction ps arbitrary: l) (simp_all add: lease_step_next)

lemma lease_run_replies:
  "length (snd (lease_run c ps l)) = length (filter (\<lambda>p. fst p \<in> {DISCOVER, REQUEST}) ps)"
  by (induction ps arbitrary: l) (simp_all add: lease_step_replies)

lemma lease_run_frame:
  "\<forall>p \<in> set ps. fst p \<in> {DISCOVER, REQUEST} \<longrightarrow>
     get_key_for_trs_id (snd p) \<noteq> get_key_for_trs_id t \<Longrightarrow>
   answers (fst (lease_run c ps l)) t = answers l t"
proof (induction ps arbitrary: l)
  case (Cons p ps)
  have "answers (fst (lease_run c (p # ps) l)) t =
      answers (fst (lease_run c ps (fst (lease_step c p l)))) t"
    by simp
  also have "\<dots> = answers (fst (lease_step c p l)) t"
    by (rule Cons.IH) (use Cons.prems in simp)
  also have "\<dots> = answers l t"
    by (rule lease_step_frame) (use Cons.prems in simp)
  finally show ?case .
qed simp

definition handshake :: "u32 \<Rightarrow> (dhcp_msg_t \<times> u32) list" where
  "handshake t = [(DISCOVER, t), (REQUEST, t)]"

lemma lease_handshakes:
  "map reply_addr (snd (lease_run c (concat (map handshake ts)) l)) =
     concat (map (\<lambda>k. [get_cur_ip c (next_ip l + of_nat k), get_cur_ip c (next_ip l + of_nat k)])
       [0..<length ts])"
proof (induction ts arbitrary: l)
  case (Cons t ts)
  have shift: "[0..<length (t # ts)] = 0 # map Suc [0..<length ts]"
    by (simp add: upt_conv_Cons map_Suc_upt del: upt_Suc)
  show ?case
    using Cons.IH [of "(lease_for c t (lease_for c t l))\<lparr>next_ip := next_ip l + 1\<rparr>"]
    unfolding shift
    by (simp add: handshake_def lease_for_def comp_def add.assoc)
qed simp

end
