(* ===== verification/Dhcp_Properties.thy ===== *)
theory Dhcp_Properties
  imports Dhcp_Leases
begin

text \<open>
  The properties of the DHCP server thread: what one reply holds, which addresses a run
  of packets is given, and which packets end the thread. They are consequences of
  \<open>run_refines\<close> and of the reader and writer lemmas.
\<close>

section \<open>Packets that end the thread\<close>

lemma zero_step: "read_option m p q = Inr (q, 1)" if "p < length m" "m ! p = 0"
  using that by (simp add: read_option_def mem_read_def c_consts)

lemma read_options_zeros:
  assumes "\<forall>i. p \<le> i \<and> i < length m \<longrightarrow> m ! i = 0"
  shows "read_options m p q = Some (Inl BadRead)"
  using assms
proof (induction "length m - p" arbitrary: p)
  case 0
  then show ?case by (simp add: read_options.simps mem_read_def)
next
  case (Suc n)
  then have p: "p < length m" "m ! p = 0" by auto
  then have "opt_step m (p, q) (p + unat (1 :: u8), q)"
    by (intro opt_step.advance zero_step) (simp_all add: c_consts)
  then have "read_options m p q = read_options m (Suc p) q"
    using read_options_unfold_step by fastforce
  then show ?case using Suc by simp
qed

definition recv_ok :: "recv_env \<Rightarrow> u8 list \<Rightarrow> u32 \<Rightarrow> bool" where
  "recv_ok env payload src \<longleftrightarrow> 0 \<le> r_socket env \<and>
     0 \<le> r_bind env (htonl INADDR_ANY) (htons DHCP_PRT_NUM_S) \<and>
     r_recvfrom env = Received payload src"

lemma wait_padded:
  assumes "recv_ok env payload src"
  shows "\<exists>h. wait_dhcp_hdr env zero_hdr = Inr (h, src) \<and> wf_hdr h \<and>
    opt h = take 312 (drop 236 (take 548 payload @ replicate (548 - length payload) 0))"
proof -
  let ?d = "take 548 payload @ drop (length (take 548 payload)) (replicate 548 0)"
  let ?n = "length (take 548 payload)"
  have n: "?n \<le> sizeof_dhcp_hdr" by (simp add: c_consts)
  have zero: "hdr_bytes zero_hdr = replicate 548 0"
    by (simp add: zero_hdr_def c_consts)
  have data: "take ?n ?d = take 548 payload" by (simp add: min_def)
  have wait: "wait_dhcp_hdr env zero_hdr =
      seqE (set_dhcp_hdr_from_bytes zero_hdr ?d ?n) (\<lambda>pkg. Inr (pkg, src))"
    using assms by (simp add: wait_dhcp_hdr_def recv_ok_def c_consts Let_def)
  have "set_dhcp_hdr_from_bytes zero_hdr ?d ?n =
      set_dhcp_hdr_from_bytes zero_hdr (take 548 payload) ?n"
    using data by (simp only: set_dhcp_hdr_from_bytes_def mem_block_def drop_0 add_0) simp
  also have "\<dots> = (let h = bytes_hdr (take 548 payload @ replicate (548 - length payload) 0)
      in Inr (h\<lparr>trs_id := ntohl (trs_id h), num_s := ntohs (num_s h), flags := ntohs (flags h)\<rparr>))"
  proof -
    have "548 - min (length payload) 548 = 548 - length payload" by (simp add: min_def)
    then show ?thesis using set_hdr_ok [OF wf_zero_hdr refl n] by (simp add: zero)
  qed
  finally obtain h where h: "wait_dhcp_hdr env zero_hdr = Inr (h, src)"
      "opt h = opt (bytes_hdr (take 548 payload @ replicate (548 - length payload) 0))"
    using wait by (simp add: Let_def)
  then show ?thesis
    using wait_wf [OF h(1)] by (auto simp: bytes_hdr_def)
qed

lemma padded_nth:
  "i < 548 \<Longrightarrow> (take 548 payload @ replicate (548 - length payload) (0 :: u8)) ! i =
     (if i < length payload then payload ! i else 0)"
  by (auto simp: nth_append)

lemma opt_nth:
  assumes "opt h = take 312 (drop 236 (take 548 payload @ replicate (548 - length payload) 0))"
    and "i < 312"
  shows "opt h ! i = (if 236 + i < length payload then payload ! (236 + i) else 0)"
proof -
  let ?x = "take 548 payload @ replicate (548 - length payload) (0 :: u8)"
  have "length ?x = 548" by simp
  then have "opt h ! i = ?x ! (236 + i)"
    using assms by (simp only: nth_take nth_drop)
  then show ?thesis using assms(2) padded_nth [of "236 + i" payload] by simp
qed

text \<open>
  A short datagram ends the server: any datagram that carries nothing behind the magic
  cookie (240 bytes or less, as the empty datagram or a plain BOOTP packet) makes the round
  read past the options field, whatever the state of the server.
\<close>

lemma short_datagram_faults:
  assumes "recv_ok renv payload src" and "length payload \<le> 240"
  shows "dhcp_round c (renv, senv) s = Some (Inl BadRead)"
proof -
  obtain h where h: "wait_dhcp_hdr renv zero_hdr = Inr (h, src)" "wf_hdr h"
      "opt h = take 312 (drop 236 (take 548 payload @ replicate (548 - length payload) 0))"
    using wait_padded [OF assms(1)] by blast
  have len: "length (opt h) = 312" using h(2) by (simp add: wf_hdr_def c_consts)
  have "\<forall>i. 4 \<le> i \<and> i < length (opt h) \<longrightarrow> opt h ! i = 0"
    using opt_nth [OF h(3)] assms(2) len by simp
  then have "read_options (opt h) 4 q = Some (Inl BadRead)" for q
    by (rule read_options_zeros)
  then show ?thesis
    using len by (simp add: dhcp_round_def h(1) set_dhcp_opt_from_dhcp_hdr_def check_cookie_total)
qed

text \<open>
  One datagram stops the server for good: a packet whose first option is a client
  identifier with length byte 254 (at least 242 bytes long, any other contents) makes the
  round, and so every run with that packet next, never return.
\<close>

lemma length_254_datagram_hangs_server:
  assumes "recv_ok renv payload src" and "242 \<le> length payload"
    and "payload ! 240 = DHCP_CLT_ID_OP" and "payload ! 241 = 254"
  shows "init_DHCP_server c ((renv, senv) # es) s = None"
proof -
  obtain h where h: "wait_dhcp_hdr renv zero_hdr = Inr (h, src)" "wf_hdr h"
      "opt h = take 312 (drop 236 (take 548 payload @ replicate (548 - length payload) 0))"
    using wait_padded [OF assms(1)] by blast
  have len: "length (opt h) = 312" using h(2) by (simp add: wf_hdr_def c_consts)
  have "opt h ! 4 = DHCP_CLT_ID_OP" "opt h ! 5 = 254"
    using opt_nth [OF h(3), of 4] opt_nth [OF h(3), of 5] assms by simp_all
  then have "opt_stalls (opt h) 4" using len by (simp add: opt_stalls_def)
  then have "set_dhcp_opt_from_dhcp_hdr zero_opt h = None"
    using len by (simp add: set_dhcp_opt_from_dhcp_hdr_def check_cookie_total read_options_stalled)
  then show ?thesis by (simp add: dhcp_round_def h(1))
qed

section \<open>One reply\<close>

lemma st32_10000: "st32 10000 = [0x10, 0x27, 0, 0]"
  by (simp add: st32_def)

text \<open>
  C39. The offer a client gets: when the sends succeed, the answer to a DISCOVER is one
  broadcast datagram to the server port, and the program's own decoder reads from it a reply
  with the client's transaction id and hardware address, the address the counter gives, and
  the server, mask and DNS settings of the interface.
\<close>

theorem offer_contents:
  assumes "pool_wf (pool s)" and "wf_hdr i" and "send_ok env"
  shows "\<exists>s' bytes h q. on_discover c env i s = Inr s' \<and>
    sent s' = sent s @ [(bytes, INADDR_BROADCAST, htons DHCP_PRT_NUM_S)] \<and> cur_ip s' = cur_ip s \<and>
    set_dhcp_hdr_from_bytes zero_hdr bytes sizeof_dhcp_hdr = Inr h \<and>
    set_dhcp_opt_from_dhcp_hdr zero_opt h = Some (Inr q) \<and>
    opcode h = 2 \<and> trs_id h = trs_id i \<and> flags h = flags i \<and>
    clt_hrd_addr h = clt_hrd_addr i \<and> own_ip h = get_cur_ip c (cur_ip s) \<and>
    srv_ip h = my_ip c \<and> dhcp_msg q = OFFER \<and> srv_id q = st32 (my_ip c) \<and>
    sub_msk q = st32 (sub_addr c) \<and> dns_id q = st32 (dns_addr c)"
proof -
  obtain p where p: "on_discover c env i s = Inr (s\<lparr>pool := p,
      sent := sent s @ [reply_datagram c i OFFER 0 (get_cur_ip c (cur_ip s))],
      console := console s @ [''Discover'']\<rparr>)"
    using on_discover_ok [OF assms] by blast
  show ?thesis
    by (intro exI conjI, rule p, simp add: reply_datagram_def, simp,
        rule reply_reads_back [OF assms(2)], rule reply_options_read_back)
      (simp_all add: reply_pkg_def decoded_def reply_options_def)
qed

text \<open>
  The renewal time hides the router: in every reply of the server the reader of the same
  program finds the bytes of the renewal time, 10000 in host order, as the router's address,
  although the server stored its own address there.
\<close>

lemma reply_router_is_renewal_time:
  "rtr_id (reply_options c msg zero_opt) = st32 (my_ip c) \<and>
   (\<exists>q. set_dhcp_opt_from_dhcp_hdr zero_opt (reply_pkg c i msg clt own) = Some (Inr q) \<and>
     rtr_id q = [0x10, 0x27, 0, 0] \<and> rnw_time q = 0)"
  by (intro conjI exI, simp add: reply_options_def, rule reply_options_read_back)
    (simp_all add: decoded_def reply_options_def st32_10000)

section \<open>Runs\<close>

text \<open>
  C2. Refinement of the server thread: on any sequence of packets that arrive, that the reader
  completes and whose replies the socket takes, the thread from its initial state never faults,
  sends exactly the replies of the lease table in order, and ends in a state that represents
  the table's. A reply is compared by what the program's own decoder reads from the datagram:
  message type, transaction id and address; every one is a broadcast to the server port.
\<close>

theorem server_refines_lease_table:
  assumes "list_all2 carries es pkts"
  shows "\<exists>s'. init_DHCP_server c es srv_start = Some (Inr s') \<and>
    srv_leases s' = fst (lease_run c pkts (srv_leases srv_start)) \<and>
    map decode_reply (sent s') = map Some (snd (lease_run c pkts (srv_leases srv_start))) \<and>
    list_all to_clients (sent s')"
proof -
  have "pool_wf (pool srv_start)" "sent srv_start = []"
    using pool.wf_start by (simp_all add: srv_start_def)
  then show ?thesis using run_replies [OF assms, of srv_start c] by auto
qed

text \<open>
  Counting: after any run of such packets the address counter has advanced by the number
  of REQUESTs, modulo 2 to the 32, and there is one datagram for each DISCOVER and REQUEST
  and none for any other message.
\<close>

lemma server_counts:
  assumes "list_all2 carries es pkts" and "pool_wf (pool s)"
  shows "\<exists>s'. init_DHCP_server c es s = Some (Inr s') \<and>
    cur_ip s' = cur_ip s + of_nat (length (filter (\<lambda>p. fst p = REQUEST) pkts)) \<and>
    length (sent s') = length (sent s) + length (filter (\<lambda>p. fst p \<in> {DISCOVER, REQUEST}) pkts)"
proof -
  obtain s' where s': "init_DHCP_server c es s = Some (Inr s')"
      "srv_leases s' = fst (lease_run c pkts (srv_leases s))"
      "map reply_own_ip (sent s') =
         map reply_own_ip (sent s) @ map reply_addr (snd (lease_run c pkts (srv_leases s)))"
    using run_refines [OF assms] by blast
  have "cur_ip s' = cur_ip s + of_nat (length (filter (\<lambda>p. fst p = REQUEST) pkts))"
    using arg_cong [OF s'(2), of next_ip] by (simp add: lease_run_next) (simp add: srv_leases_def)
  moreover have "length (sent s') =
      length (sent s) + length (filter (\<lambda>p. fst p \<in> {DISCOVER, REQUEST}) pkts)"
    using arg_cong [OF s'(3), of length] lease_run_replies [of c pkts "srv_leases s"]
    by (simp only: length_map length_append)
  ultimately show ?thesis using s'(1) by blast
qed


lemma handshake_addresses:
  assumes "list_all2 carries es (concat (map handshake ts))" and "pool_wf (pool s)"
    and "length ts \<le> 2 ^ 32"
  shows "\<exists>s'. init_DHCP_server c es s = Some (Inr s') \<and>
    map reply_own_ip (sent s') = map reply_own_ip (sent s) @
      concat (map (\<lambda>k. [get_cur_ip c (cur_ip s + of_nat k), get_cur_ip c (cur_ip s + of_nat k)])
        [0..<length ts]) \<and>
    distinct (map (\<lambda>k. get_cur_ip c (cur_ip s + of_nat k)) [0..<length ts])"
proof -
  have "inj_on (\<lambda>k. get_cur_ip c (cur_ip s + of_nat k)) {0..<length ts}"
  proof (rule inj_onI)
    fix i j assume "i \<in> {0..<length ts}" "j \<in> {0..<length ts}"
      "get_cur_ip c (cur_ip s + of_nat i) = get_cur_ip c (cur_ip s + of_nat j)"
    then have "unat (of_nat i :: u32) = unat (of_nat j :: u32)" "i < 2 ^ 32" "j < 2 ^ 32"
      using assms(3) by auto
    then show "i = j" by (simp add: unat_of_nat take_bit_eq_mod)
  qed
  then have "distinct (map (\<lambda>k. get_cur_ip c (cur_ip s + of_nat k)) [0..<length ts])"
    by (simp add: distinct_map)
  then show ?thesis
    using run_refines [OF assms(1,2), of c] lease_handshakes [of c ts "srv_leases s"]
    by (auto simp: srv_leases_def)
qed

text \<open>
  Complete handshakes one after the other: client number \<open>k\<close> is offered and then given
  the address of the counter's \<open>k\<close>-th successor, and for up to 2 to the 32 clients these
  addresses are pairwise different.
\<close>

lemma handshakes_get_distinct_addresses:
  assumes "list_all2 carries es (concat (map handshake ts))" and "pool_wf (pool s)"
    and "length ts \<le> 2 ^ 32"
  shows "\<exists>s'. init_DHCP_server c es s = Some (Inr s') \<and>
    map reply_own_ip (sent s') = map reply_own_ip (sent s) @
      concat (map (\<lambda>k. [get_cur_ip c (cur_ip s + of_nat k), get_cur_ip c (cur_ip s + of_nat k)])
        [0..<length ts]) \<and>
    distinct (map (\<lambda>k. get_cur_ip c (cur_ip s + of_nat k)) [0..<length ts])"
  using handshake_addresses [OF assms] .

text \<open>
  Overlapping handshakes: as long as no REQUEST comes between the DISCOVERs of two clients, both
  are offered the address the counter is at, and both are acknowledged it, whatever comes before
  and after, in whichever order they send their REQUESTs, and whatever other clients do between.
\<close>

definition spares :: "u32 \<Rightarrow> (dhcp_msg_t \<times> u32) list \<Rightarrow> bool" where
  "spares t ps \<longleftrightarrow> (\<forall>p \<in> set ps. fst p \<in> {DISCOVER, REQUEST} \<longrightarrow>
     get_key_for_trs_id (snd p) \<noteq> get_key_for_trs_id t)"

definition no_request :: "(dhcp_msg_t \<times> u32) list \<Rightarrow> bool" where
  "no_request ps \<longleftrightarrow> (\<forall>p \<in> set ps. fst p \<noteq> REQUEST)"

definition overlapping ::
  "u32 \<Rightarrow> u32 \<Rightarrow> (dhcp_msg_t \<times> u32) list \<Rightarrow> (dhcp_msg_t \<times> u32) list \<Rightarrow> bool" where
  "overlapping t u pre pkts \<longleftrightarrow> get_key_for_trs_id t \<noteq> get_key_for_trs_id u \<and>
     (\<exists>m1 m2 m3 post a b. pkts = pre @ (DISCOVER, t) # m1 @ (DISCOVER, u) # m2 @ (REQUEST, a) # m3 @
        (REQUEST, b) # post \<and> (a = t \<and> b = u \<or> a = u \<and> b = t) \<and>
        no_request m1 \<and> spares t m2 \<and> spares u m2 \<and> spares b m3)"

lemma spared: "spares t ps \<Longrightarrow> answers (fst (lease_run c ps l)) t = answers l t"
  unfolding spares_def by (rule lease_run_frame)

lemma no_request_run:
  assumes "no_request ps" and "answers l t = get_cur_ip c (next_ip l)"
  shows "answers (fst (lease_run c ps l)) t = get_cur_ip c (next_ip l) \<and>
    next_ip (fst (lease_run c ps l)) = next_ip l"
  using assms
proof (induction ps arbitrary: l)
  case (Cons p ps)
  have "answers (fst (lease_step c p l)) t = get_cur_ip c (next_ip l) \<and>
      next_ip (fst (lease_step c p l)) = next_ip l"
    using Cons.prems
    by (cases "(c, p, l)" rule: lease_step.cases) (auto simp: lease_for_def no_request_def)
  then show ?case using Cons.IH [of "fst (lease_step c p l)"] Cons.prems by (simp add: no_request_def)
qed simp

text \<open>The replies of a run, with those to the two clients in their places.\<close>

definition both_given :: "u32 \<Rightarrow> u32 \<Rightarrow> u32 \<Rightarrow> reply list \<Rightarrow> bool" where
  "both_given t u x rs \<longleftrightarrow> (\<exists>r1 r2 r3 r4 r5 a b. rs = r1 @ (OFFER, t, x) # r2 @ (OFFER, u, x) # r3 @
     (ACK, a, x) # r4 @ (ACK, b, x) # r5 \<and> (a = t \<and> b = u \<or> a = u \<and> b = t))"

lemma overlap_replies:
  assumes "overlapping t u pre pkts"
    and "x = get_cur_ip c (next_ip (fst (lease_run c pre l)))" and "x \<noteq> 0"
  shows "both_given t u x (snd (lease_run c pkts l))"
proof -
  obtain m1 m2 m3 post a b where pkts: "pkts = pre @ (DISCOVER, t) # m1 @ (DISCOVER, u) # m2 @
      (REQUEST, a) # m3 @ (REQUEST, b) # post"
    and ab: "a = t \<and> b = u \<or> a = u \<and> b = t"
    and m: "no_request m1" "spares t m2" "spares u m2" "spares b m3"
    and key: "get_key_for_trs_id t \<noteq> get_key_for_trs_id u"
    using assms(1) by (auto simp: overlapping_def)
  define l0 where "l0 = fst (lease_run c pre l)"
  define l1 where "l1 = fst (lease_run c m1 (lease_for c t l0))"
  define l2 where "l2 = fst (lease_run c m2 (lease_for c u l1))"
  define l3 where "l3 = fst (lease_run c m3 ((lease_for c a l2)\<lparr>next_ip := next_ip l2 + 1\<rparr>))"
  have l1: "answers l1 t = x" "next_ip l1 = next_ip l0"
    using no_request_run [OF m(1), of "lease_for c t l0" t c] assms(2)
    by (simp_all add: l1_def l0_def lease_for_def)
  have l2: "answers l2 t = x" "answers l2 u = x"
    using spared [OF m(2), of c "lease_for c u l1"] spared [OF m(3), of c "lease_for c u l1"] l1 key assms(2)
    by (simp_all add: l2_def lease_for_def l0_def)
  have "answers l3 b = answers l2 b"
    using spared [OF m(4), of c "(lease_for c a l2)\<lparr>next_ip := next_ip l2 + 1\<rparr>"] key ab
    by (auto simp: l3_def lease_for_def)
  then have given: "answers l2 a = x" "answers l3 b = x" using l2 ab by auto
  have "snd (lease_run c pkts l) = snd (lease_run c pre l) @ (OFFER, t, x) #
      snd (lease_run c m1 (lease_for c t l0)) @ (OFFER, u, x) # snd (lease_run c m2 (lease_for c u l1)) @
      (ACK, a, x) # snd (lease_run c m3 ((lease_for c a l2)\<lparr>next_ip := next_ip l2 + 1\<rparr>)) @
      (ACK, b, x) # snd (lease_run c post ((lease_for c b l3)\<lparr>next_ip := next_ip l3 + 1\<rparr>))"
    using given assms(2,3) l1(2)
    by (simp add: pkts lease_run_append flip: l0_def l1_def l2_def l3_def)
  then show ?thesis using ab unfolding both_given_def by blast
qed

lemma overlap_sent:
  assumes "list_all2 carries es pkts" and "overlapping t u pre pkts"
    and "x = get_cur_ip c (40 + of_nat (length (filter (\<lambda>p. fst p = REQUEST) pre)))" and "x \<noteq> 0"
  shows "\<exists>s rs. init_DHCP_server c es srv_start = Some (Inr s) \<and>
    map decode_reply (sent s) = map Some rs \<and> both_given t u x rs"
proof -
  have start: "pool_wf (pool srv_start)" "sent srv_start = []" "next_ip (srv_leases srv_start) = 40"
    using pool.wf_start by (simp_all add: srv_start_def srv_leases_def)
  have "x = get_cur_ip c (next_ip (fst (lease_run c pre (srv_leases srv_start))))"
    unfolding lease_run_next start(3) by (rule assms(3))
  from overlap_replies [OF assms(2) this assms(4)] show ?thesis
    using run_replies [OF assms(1) start(1), of c] start(2) by auto
qed

text \<open>
  A repeated REQUEST is answered differently: a REQUEST stores the counter's address over
  the one it acknowledges, so when another client completes its handshake in between, a
  client that repeats its REQUEST is acknowledged with an address other than the first time.
\<close>

lemma repeated_request_changes_address:
  assumes "list_all2 carries es
      [(DISCOVER, t), (DISCOVER, u), (REQUEST, u), (REQUEST, t), (REQUEST, t)]"
    and "pool_wf (pool s)" and "get_cur_ip c (cur_ip s) \<noteq> 0"
  shows "\<exists>s' a. init_DHCP_server c es s = Some (Inr s') \<and>
    map reply_own_ip (sent s') = map reply_own_ip (sent s) @
      replicate 4 (get_cur_ip c (cur_ip s)) @ [a] \<and> a \<noteq> get_cur_ip c (cur_ip s)"
proof -
  have ne: "cur_ip s + 1 \<noteq> cur_ip s" "cur_ip s + 2 \<noteq> cur_ip s"
    by simp_all
  obtain a where "map reply_addr (snd (lease_run c
      [(DISCOVER, t), (DISCOVER, u), (REQUEST, u), (REQUEST, t), (REQUEST, t)] (srv_leases s))) =
      replicate 4 (get_cur_ip c (cur_ip s)) @ [a]" "a \<noteq> get_cur_ip c (cur_ip s)"
    using assms(3) ne
    by (cases "get_cur_ip c (cur_ip s + 1) = 0")
      (auto simp: lease_for_def srv_leases_def numeral_eq_Suc)
  then show ?thesis
    using run_refines [OF assms(1,2), of c] by auto
qed

section \<open>The addresses given out\<close>

text \<open>
  Address arithmetic: as long as the counter has no bit in common with the subnet mask,
  the address given out is the network part of the server's address plus the counter, read in
  host order, and lies in the server's subnet.
\<close>

lemma given_address_in_subnet:
  assumes "cur AND ntohl (sub_addr c) = 0"
  shows "ntohl (get_cur_ip c cur) = (ntohl (my_ip c) AND ntohl (sub_addr c)) + cur \<and>
    get_cur_ip c cur AND sub_addr c = my_ip c AND sub_addr c"
proof -
  let ?m = "ntohl (my_ip c)" and ?s = "ntohl (sub_addr c)"
  have disj: "(?m AND ?s) AND cur = 0"
    using assms by (simp add: and.assoc and.commute [of ?s cur])
  have ip: "get_cur_ip c cur = htonl ((?m AND ?s) + cur)"
    by (simp only: get_cur_ip_def subnet_htonl [of "my_ip c"] htonl_plus_disjoint [OF disj])
  have "((?m AND ?s) OR cur) AND ?s = ?m AND ?s"
    using assms by (simp add: bit.conj_disj_distrib2 and.assoc)
  then have "htonl (((?m AND ?s) + cur) AND ?s) = htonl (?m AND ?s)"
    by (simp add: plus_disjoint [OF disj])
  then show ?thesis
    by (simp only: ip htonl_AND n32.ntoh_hton n32.hton_ntoh)
qed

text \<open>
  Nothing keeps the counter away from addresses in use: at the host number of the server
  itself the address given out is the server's own, and at the last host number it is the
  subnet's broadcast address.
\<close>

lemma own_and_broadcast_address_given_out:
  "get_cur_ip c (ntohl (my_ip c) AND NOT (ntohl (sub_addr c))) = my_ip c \<and>
   get_cur_ip c (NOT (ntohl (sub_addr c))) = my_ip c OR NOT (sub_addr c)"
proof -
  let ?m = "ntohl (my_ip c)" and ?s = "ntohl (sub_addr c)"
  have d1: "(?m AND ?s) AND (?m AND NOT ?s) = 0" and d2: "(?m AND ?s) AND NOT ?s = 0"
    by (rule bit_word_eqI; auto simp: bit_simps)+
  have "get_cur_ip c (?m AND NOT ?s) = htonl ((?m AND ?s) + (?m AND NOT ?s))"
    by (simp only: get_cur_ip_def subnet_htonl [of "my_ip c"] htonl_plus_disjoint [OF d1])
  also have "(?m AND ?s) + (?m AND NOT ?s) = ?m"
    unfolding plus_disjoint [OF d1] by (rule bit_word_eqI) (auto simp: bit_simps)
  finally have own: "get_cur_ip c (?m AND NOT ?s) = my_ip c" by simp
  have "get_cur_ip c (NOT ?s) = (my_ip c AND sub_addr c) OR htonl (NOT ?s)"
    by (simp only: get_cur_ip_def subnet_htonl [of "my_ip c"] htonl_plus_disjoint [OF d2]
        plus_disjoint [OF d2] htonl_OR)
  also have "htonl (NOT ?s) = NOT (sub_addr c)"
    by (simp add: htonl_NOT)
  also have "(my_ip c AND sub_addr c) OR NOT (sub_addr c) = my_ip c OR NOT (sub_addr c)"
    by (rule bit_word_eqI) (auto simp: bit_simps)
  finally show ?thesis using own by simp
qed

section \<open>Witnesses\<close>

text \<open>
  Packets that the hypotheses of the properties describe: a client's message of any type and
  id, received and answered without an error, at a server with address 10.32.143.1 and mask
  255.255.255.0.
\<close>

definition sample_conf :: net_conf where
  "sample_conf = \<lparr>my_ip = 0x018F200A, sub_addr = 0x00FFFFFF, dns_addr = 0x08080808\<rparr>"

definition sample_hdr :: "dhcp_msg_t \<Rightarrow> u32 \<Rightarrow> dhcp_hdr" where
  "sample_hdr k t = zero_hdr\<lparr>opcode := 1, trs_id := t,
     opt := MAGIC_COOKIE @ enc_item (Item DHCP_MSG_OP [code_of_msg k]) @
       DHCP_END_OP # replicate 304 0\<rparr>"

definition sample_recv :: "u8 list \<Rightarrow> recv_env" where
  "sample_recv payload = \<lparr>r_socket = 3, r_bind = (\<lambda>a p. 0), r_recvfrom = Received payload 0\<rparr>"

definition sample_send :: send_env where
  "sample_send = \<lparr>s_socket = 4, s_setsockopt = 0, s_sendto = (\<lambda>dg. int (length (fst dg)))\<rparr>"

definition sample_event :: "dhcp_msg_t \<times> u32 \<Rightarrow> recv_env \<times> send_env" where
  "sample_event e = (sample_recv (wire_bytes (sample_hdr (fst e) (snd e))), sample_send)"

lemma recv_ok_sample [simp]: "recv_ok (sample_recv payload) payload 0"
  by (simp add: recv_ok_def sample_recv_def)

lemma send_ok_sample [simp]: "send_ok sample_send"
  by (simp add: send_ok_def sample_send_def)

lemma wf_sample_hdr [simp]: "wf_hdr (sample_hdr k t)"
  using wf_zero_hdr by (simp add: sample_hdr_def wf_hdr_def c_consts)

lemma carries_sample: "carries (sample_event e) e"
proof -
  let ?h = "sample_hdr (fst e) (snd e)"
  let ?w = "wire_bytes ?h"
  have len: "length ?w = sizeof_dhcp_hdr" by simp
  have "bytes_hdr ?w = to_net ?h"
    by (metis hdr_bytes_to_net wf_to_net bytes_hdr_hdr_bytes wf_sample_hdr)
  then have "set_dhcp_hdr_from_bytes zero_hdr ?w sizeof_dhcp_hdr = Inr ?h"
    using set_hdr_ok [OF wf_zero_hdr, of sizeof_dhcp_hdr ?w] len by (simp add: to_net_def)
  then have "wait_dhcp_hdr (sample_recv ?w) zero_hdr = Inr (?h, 0)"
    by (simp add: wait_dhcp_hdr_def sample_recv_def Let_def len)
  moreover have "set_dhcp_opt_from_dhcp_hdr zero_opt ?h =
      Some (Inr (fold apply_item [Item DHCP_MSG_OP [code_of_msg (fst e)]] (reset_opt zero_opt)))"
    by (rule reader_on_items) (simp_all add: sample_hdr_def c_consts)
  ultimately show ?thesis
    by (simp add: carries_def sample_event_def c_consts) (simp add: sample_hdr_def)
qed

lemma carries_samples: "list_all2 carries (map sample_event ps) ps"
  by (induction ps) (simp_all add: carries_sample)

lemma wf_start_pool [simp]: "pool_wf (pool srv_start)"
  using pool.wf_start by (simp add: srv_start_def)

lemma sample_first_ip: "get_cur_ip sample_conf (cur_ip srv_start) = 0x288F200A"
  by (simp add: get_cur_ip_def sample_conf_def srv_start_def htonl_def st32_def)

lemma short_datagram_faults_witness:
  "dhcp_round sample_conf (sample_recv [], sample_send) srv_start = Some (Inl BadRead)"
  by (rule short_datagram_faults [OF recv_ok_sample]) simp

lemma length_254_datagram_hangs_server_witness:
  "init_DHCP_server sample_conf
     [(sample_recv (replicate 240 0 @ [61, 254]), sample_send)] srv_start = None"
  by (rule length_254_datagram_hangs_server [OF recv_ok_sample]) (simp_all add: nth_append c_consts)

theorem offer_contents_witness:
  "\<exists>s' bytes h q. on_discover sample_conf sample_send (sample_hdr DISCOVER 7) srv_start = Inr s' \<and>
    sent s' = [(bytes, INADDR_BROADCAST, htons DHCP_PRT_NUM_S)] \<and>
    set_dhcp_hdr_from_bytes zero_hdr bytes sizeof_dhcp_hdr = Inr h \<and>
    set_dhcp_opt_from_dhcp_hdr zero_opt h = Some (Inr q) \<and> trs_id h = 7 \<and>
    own_ip h = 0x288F200A \<and> dhcp_msg q = OFFER"
proof -
  have "sent srv_start = []" "trs_id (sample_hdr DISCOVER 7) = 7"
    by (simp_all add: srv_start_def sample_hdr_def)
  then show ?thesis
    using offer_contents [OF wf_start_pool wf_sample_hdr send_ok_sample,
        of sample_conf DISCOVER 7] sample_first_ip
    by (metis append_Nil)
qed

theorem server_refines_lease_table_witness:
  "\<exists>s'. init_DHCP_server sample_conf (map sample_event [(DISCOVER, 7), (REQUEST, 7)]) srv_start =
       Some (Inr s') \<and>
     map decode_reply (sent s') = [Some (OFFER, 7, 0x288F200A), Some (ACK, 7, 0x288F200A)]"
proof -
  have "snd (lease_run sample_conf [(DISCOVER, 7), (REQUEST, 7)] (srv_leases srv_start)) =
      [(OFFER, 7, 0x288F200A), (ACK, 7, 0x288F200A)]"
    using sample_first_ip by (simp add: lease_for_def srv_leases_def)
  then show ?thesis
    using server_refines_lease_table [OF carries_samples, of sample_conf
        "[(DISCOVER, 7), (REQUEST, 7)]"] by auto
qed

lemma server_counts_witness:
  "\<exists>s'. init_DHCP_server sample_conf
       (map sample_event [(DISCOVER, 7), (REQUEST, 7), (RELEASE, 7)]) srv_start = Some (Inr s') \<and>
     cur_ip s' = 41 \<and> length (sent s') = 2"
  using server_counts [OF carries_samples wf_start_pool, of sample_conf
      "[(DISCOVER, 7), (REQUEST, 7), (RELEASE, 7)]"]
  by (simp add: srv_start_def numeral_2_eq_2 del: init_DHCP_server.simps)


lemma handshakes_get_distinct_addresses_witness:
  "\<exists>s'. init_DHCP_server sample_conf
       (map sample_event (concat (map handshake [7, 8]))) srv_start = Some (Inr s') \<and>
     map reply_own_ip (sent s') = [0x288F200A, 0x288F200A, 0x298F200A, 0x298F200A]"
proof -
  have "get_cur_ip sample_conf (cur_ip srv_start + 1) = 0x298F200A"
    by (simp add: get_cur_ip_def sample_conf_def srv_start_def htonl_def st32_def)
  moreover have "sent srv_start = []" by (simp add: srv_start_def)
  ultimately show ?thesis
    using handshakes_get_distinct_addresses [OF carries_samples wf_start_pool,
        where ts = "[7, 8]" and c = sample_conf]
      sample_first_ip
    by auto
qed

lemma repeated_request_changes_address_witness:
  "\<exists>s' a. init_DHCP_server sample_conf (map sample_event
       [(DISCOVER, 7), (DISCOVER, 8), (REQUEST, 8), (REQUEST, 7), (REQUEST, 7)]) srv_start =
       Some (Inr s') \<and>
     map reply_own_ip (sent s') = replicate 4 0x288F200A @ [a] \<and> a \<noteq> 0x288F200A"
proof -
  have "sent srv_start = []" by (simp add: srv_start_def)
  then show ?thesis
    using repeated_request_changes_address [OF carries_samples wf_start_pool,
        where t = 7 and u = 8 and c = sample_conf] sample_first_ip by auto
qed

lemma given_address_in_subnet_witness:
  "ntohl (get_cur_ip sample_conf 40) =
     (ntohl (my_ip sample_conf) AND ntohl (sub_addr sample_conf)) + 40 \<and>
   get_cur_ip sample_conf 40 AND sub_addr sample_conf = my_ip sample_conf AND sub_addr sample_conf"
  by (rule given_address_in_subnet) (simp add: sample_conf_def ntohl_def st32_def)

end
