(* ===== verification/Http_Url.thy ===== *)
theory Http_Url
  imports C_Memory
begin

text \<open>
  \<open>TF/http.c\<close>: \<open>set_addr_from_get_buf\<close> builds the URL of a captured
  HTTP request, the value of the \<open>Host\<close> header followed by the path, in the caller's
  array \<open>addr\<close>.

  \<open>buffer\<close> is the part of the captured frame from the HTTP data to the end of the
  frame object; a scan that reaches its end reads outside the object.
\<close>

section \<open>The function\<close>

definition HOST_STR :: "u8 list" where "HOST_STR = map of_char ''Host: ''"
definition SLASH_STR :: "u8 list" where "SLASH_STR = map of_char ''/''"

lemma HOST_STR_bytes [c_consts]: "HOST_STR = [72, 111, 115, 116, 58, 32]"
  by (simp add: HOST_STR_def)

lemma host_no_zero: "0 \<notin> set HOST_STR"
  by (simp add: HOST_STR_bytes)

lemma length_HOST_STR: "length HOST_STR = 6"
  by (simp add: HOST_STR_bytes)

lemma SLASH_STR_bytes [c_consts]: "SLASH_STR = [47]"
  by (simp add: SLASH_STR_def)

text \<open>The two counting loops: the number of bytes before the first one in \<open>stop\<close>.\<close>

fun scan_until :: "(u8 \<Rightarrow> bool) \<Rightarrow> u8 list \<Rightarrow> nat outcome" where
  "scan_until stop [] = Inl BadRead"
| "scan_until stop (b # bs) =
     (if stop b then Inr 0 else seqE (scan_until stop bs) (\<lambda>n. Inr (Suc n)))"

definition set_addr_from_get_buf :: "u8 list \<Rightarrow> u8 list \<Rightarrow> (nat \<times> u8 list) outcome" where
  "set_addr_from_get_buf addr buffer =
     seqE (c_strstr HOST_STR buffer) (\<lambda>host_ptr.
     case host_ptr of None \<Rightarrow> Inr (0, addr)
     | Some host_ptr \<Rightarrow>
         seqE (c_strstr SLASH_STR buffer) (\<lambda>sub_dom_ptr.
         case sub_dom_ptr of None \<Rightarrow> Inr (0, addr)
         | Some sub_dom_ptr \<Rightarrow>
             (let host_ptr = host_ptr + 6
              in seqE (scan_until (\<lambda>b. \<not> (b \<noteq> 10 \<and> b \<noteq> 13)) (drop host_ptr buffer)) (\<lambda>host_l.
                 seqE (scan_until (\<lambda>b. \<not> (b \<noteq> 32 \<and> b \<noteq> 32)) (drop sub_dom_ptr buffer)) (\<lambda>sub_dom_l.
                 seqE (mem_write addr 0 (replicate (host_l + sub_dom_l + 1) 0)) (\<lambda>addr.
                 seqE (mem_block buffer host_ptr host_l) (\<lambda>host.
                 seqE (mem_write addr 0 host) (\<lambda>addr.
                 seqE (mem_block buffer sub_dom_ptr sub_dom_l) (\<lambda>sub_dom.
                 seqE (mem_write addr host_l sub_dom) (\<lambda>addr.
                   Inr (host_l + sub_dom_l, addr)))))))))))"

section \<open>Searching and scanning\<close>

lemma scan_until_here:
  "\<forall>b \<in> set s. \<not> stop b \<Longrightarrow> stop c \<Longrightarrow> scan_until stop (s @ c # r) = Inr (length s)"
  by (induction s) auto

lemma scan_until_missing: "\<forall>b \<in> set s. \<not> stop b \<Longrightarrow> scan_until stop s = Inl BadRead"
  by (induction s) auto

lemma build_addr:
  assumes "length h + length p + 1 \<le> length addr"
  shows "seqE (mem_write addr 0 (replicate (length h + length p + 1) 0)) (\<lambda>addr.
    seqE (mem_write addr 0 h) (\<lambda>addr. mem_write addr (length h) p)) =
    Inr (h @ p @ 0 # drop (length h + length p + 1) addr)"
proof -
  let ?n = "length h + length p + 1" and ?z = "\<lambda>k. replicate k (0 :: u8)"
  let ?old = "?z (length p) @ 0 # drop ?n addr"
  have z: "?z ?n = ?z (length h) @ ?z (length p) @ [0]"
    by (simp only: replicate_add append_assoc) simp
  have "mem_write addr 0 (?z ?n) = Inr (?z (length h) @ ?old)"
    using assms unfolding z by (simp add: mem_write_def)
  moreover have "mem_write (?z (length h) @ ?old) 0 h = Inr (h @ ?old)"
    by (simp add: mem_write_def)
  moreover have "mem_write (h @ ?old) (length h) p = Inr (h @ p @ 0 # drop ?n addr)"
    using mem_write_prefix [of p ?old h] by simp
  ultimately show ?thesis by (simp only: seqE_Inr)
qed

lemma set_addr_result:
  assumes "c_strstr HOST_STR buf = Inr (Some i)" and "drop (i + 6) buf = host @ c # r1"
    and "c \<in> {10, 13}" and "\<forall>b \<in> set host. b \<noteq> 10 \<and> b \<noteq> 13"
    and "c_strstr SLASH_STR buf = Inr (Some j)" and "drop j buf = path @ 32 # r2" and "32 \<notin> set path"
  shows "set_addr_from_get_buf addr buf =
    (if length host + length path + 1 \<le> length addr
     then Inr (length host + length path, host @ path @ 0 # drop (length host + length path + 1) addr)
     else Inl BadWrite)"
proof -
  have s1: "scan_until (\<lambda>b. \<not> (b \<noteq> 10 \<and> b \<noteq> 13)) (drop (i + 6) buf) = Inr (length host)"
    unfolding assms(2) by (rule scan_until_here) (use assms(3,4) in auto)
  have s2: "scan_until (\<lambda>b. \<not> (b \<noteq> 32 \<and> b \<noteq> 32)) (drop j buf) = Inr (length path)"
    unfolding assms(6) by (rule scan_until_here) (use assms(7) in auto)
  have b1: "mem_block buf (i + 6) (length host) = Inr host"
    and b2: "mem_block buf j (length path) = Inr path"
    by (rule mem_block_drop [OF assms(2)]) (rule mem_block_drop [OF assms(6)])
  note scans = s1 [simplified] s2 [simplified]
  show ?thesis
  proof (cases "length host + length path + 1 \<le> length addr")
    case True
    from build_addr [OF True] show ?thesis
      using True by (simp add: set_addr_from_get_buf_def assms(1,5) scans b1 b2 Let_def seqE_eq_Inr)
  next
    case False
    then have "mem_write addr 0 (replicate (length host + length path + 1) 0) = Inl BadWrite"
      by (simp add: mem_write_def)
    then show ?thesis
      using False by (simp add: set_addr_from_get_buf_def assms(1,5) scans Let_def)
  qed
qed

section \<open>A request\<close>

text \<open>
  A page request: request line, header lines, the \<open>Host\<close> line, and anything behind
  it. \<open>front_ok\<close> is the condition that the first slash starts the path and that
  there is no earlier \<open>Host: \<close>.
\<close>

definition http_front :: "u8 list \<Rightarrow> u8 list \<Rightarrow> u8 list \<Rightarrow> u8 list" where
  "http_front method path headers = method @ 32 # path @ 32 # headers"

definition http_request :: "u8 list \<Rightarrow> u8 list \<Rightarrow> u8 list \<Rightarrow> u8 list \<Rightarrow> u8 list \<Rightarrow> u8 list" where
  "http_request method path headers host rest =
     http_front method path headers @ HOST_STR @ host @ [13, 10] @ rest"

definition front_ok :: "u8 list \<Rightarrow> u8 list \<Rightarrow> u8 list \<Rightarrow> bool" where
  "front_ok method path headers \<longleftrightarrow> 47 \<notin> set method \<and> take 1 path = [47] \<and> 32 \<notin> set path \<and>
     (let front = http_front method path headers
      in 0 \<notin> set front \<and> (\<forall>i < length front. take 6 (drop i (front @ HOST_STR)) \<noteq> HOST_STR))"

definition get_request :: "u8 list \<Rightarrow> u8 list \<Rightarrow> u8 list \<Rightarrow> u8 list" where
  "get_request path host rest =
     http_request (map of_char ''GET'') path (map of_char ''HTTP/1.1'' @ [13, 10]) host rest"

lemma request_host:
  assumes "front_ok method path headers"
  shows "c_strstr HOST_STR (http_request method path headers host rest) =
    Inr (Some (length (http_front method path headers)))"
proof -
  let ?front = "http_front method path headers"
  have no: "take (length HOST_STR) (drop i (?front @ HOST_STR @ r)) \<noteq> HOST_STR" if "i < length ?front" for i r
  proof -
    have "take 6 (drop i (?front @ HOST_STR @ r)) = take 6 (drop i (?front @ HOST_STR))"
      using that length_HOST_STR by simp
    moreover have "take 6 (drop i (?front @ HOST_STR)) \<noteq> HOST_STR"
      using that assms unfolding front_ok_def Let_def by blast
    ultimately show ?thesis by (simp only: length_HOST_STR not_False_eq_True)
  qed
  have "c_strstr HOST_STR (?front @ HOST_STR @ host @ 13 # 10 # rest) = Inr (Some (length ?front))"
  proof (rule c_strstr_skip)
    show "0 \<notin> set ?front" using assms unfolding front_ok_def Let_def by blast
    show "take (length HOST_STR) (HOST_STR @ host @ 13 # 10 # rest) = HOST_STR" by simp
    show "HOST_STR \<noteq> []" by (simp add: HOST_STR_bytes)
  qed (use no in blast)
  then show ?thesis by (simp add: http_request_def)
qed

lemma slash_first:
  "47 \<notin> set s \<Longrightarrow> 0 \<notin> set s \<Longrightarrow> c_strstr [47] (s @ 47 # r) = Inr (Some (length s))"
  by (induction s) auto

lemma request_slash:
  assumes "front_ok method path headers"
  shows "c_strstr SLASH_STR (http_request method path headers host rest) = Inr (Some (length method + 1))"
proof -
  obtain p where p: "path = 47 # p"
    using assms by (cases path) (auto simp: front_ok_def)
  have "47 \<notin> set (method @ [32])" "0 \<notin> set (method @ [32])"
    using assms by (auto simp: front_ok_def Let_def http_front_def)
  from slash_first [OF this] show ?thesis by (simp add: http_request_def http_front_def p SLASH_STR_bytes)
qed

section \<open>Properties\<close>

text \<open>
  Functional correctness on a request: for a request for \<open>path\<close> from
  \<open>host\<close> the function stores the host, the path and a terminating 0 at the front of
  \<open>addr\<close>, leaves the rest of \<open>addr\<close> alone and returns the length, when
  \<open>addr\<close> holds that many bytes, and writes past \<open>addr\<close> otherwise.
\<close>

lemma request_url:
  assumes "front_ok method path headers" and "\<forall>b \<in> set host. b \<noteq> 10 \<and> b \<noteq> 13"
  shows "set_addr_from_get_buf addr (http_request method path headers host rest) =
    (if length host + length path + 1 \<le> length addr
     then Inr (length host + length path,
       host @ path @ 0 # drop (length host + length path + 1) addr)
     else Inl BadWrite)"
proof (rule set_addr_result [OF request_host [OF assms(1)] _ _ _ request_slash [OF assms(1)]])
  let ?front = "http_front method path headers"
  have "drop (length (?front @ HOST_STR)) ((?front @ HOST_STR) @ host @ 13 # 10 # rest) = host @ 13 # 10 # rest"
    by (simp del: append_assoc)
  then show "drop (length ?front + 6) (http_request method path headers host rest) = host @ 13 # 10 # rest"
    by (simp add: http_request_def HOST_STR_bytes)
  show "drop (length method + 1) (http_request method path headers host rest) =
      path @ 32 # (headers @ HOST_STR @ host @ 13 # 10 # rest)"
    by (simp add: http_request_def http_front_def)
qed (use assms in \<open>auto simp: front_ok_def\<close>)

definition sample_path :: "u8 list" where "sample_path = map of_char ''/a''"
definition sample_host :: "u8 list" where "sample_host = map of_char ''b.c''"

lemma sample_bytes: "sample_path = [47, 97]" "sample_host = [98, 46, 99]"
  by (simp_all add: sample_path_def sample_host_def)

text \<open>
  Every result is bounded by the array: whatever the captured bytes, when the function
  completes it has kept the length of \<open>addr\<close>, and a non-zero return value is smaller than
  that length, with the byte at that index 0.
\<close>

lemma url_result_terminated:
  assumes "set_addr_from_get_buf addr buf = Inr (n, addr')"
  shows "length addr' = length addr \<and> (n \<noteq> 0 \<longrightarrow> n < length addr \<and> addr' ! n = 0)"
proof -
  have zero: "m' ! (length h + length p) = 0 \<and> length m' = length a"
    if "mem_write a 0 (replicate (length h + length p + 1) 0) = Inr m1" "mem_write m1 0 h = Inr m2"
      "mem_write m2 (length h) p = Inr m'" for a m1 m2 m' h p
  proof -
    have "length h + length p + 1 \<le> length a"
      using that(1) by (simp add: mem_write_def split: if_splits)
    from build_addr [OF this] that have "m' = h @ p @ 0 # drop (length h + length p + 1) a"
      by simp
    then show ?thesis using that by (auto simp: nth_append dest!: mem_write_length)
  qed
  show ?thesis
  proof (cases "n = 0 \<and> addr' = addr")
    case False
    with assms obtain h p m1 m2 where
      n: "n = length h + length p"
      and "mem_write addr 0 (replicate (length h + length p + 1) 0) = Inr m1"
      and "mem_write m1 0 h = Inr m2" and "mem_write m2 (length h) p = Inr addr'"
      by (auto simp: set_addr_from_get_buf_def seqE_eq_Inr Let_def split: option.splits
          dest!: mem_block_length)
    from zero [OF this(2-4)] this(2) show ?thesis
      by (auto simp: n mem_write_def split: if_splits)
  qed simp
qed

lemma url_result_terminated_witness:
  "set_addr_from_get_buf (replicate 8 1) (get_request sample_path sample_host [0]) =
     Inr (5, [98, 46, 99, 47, 97, 0, 1, 1]) \<and> [98, 46, 99, 47, 97, 0, 1, 1 :: u8] ! 5 = 0"
proof -
  have r: "set_addr_from_get_buf (replicate 8 1) (get_request sample_path sample_host [0]) =
      Inr (5, [98, 46, 99, 47, 97, 0, 1, 1])"
    by code_simp
  from url_result_terminated [OF r] r show ?thesis by simp
qed

text \<open>
  An attacker can overflow the caller's array with one frame: the Host value and the path are
  taken from the same bytes when the first slash is in the Host value, so a request of \<open>n +
  9\<close> bytes yields an address of \<open>2 * n + 3\<close> bytes, and the function writes
  past the 2048 bytes of the caller's array as soon as \<open>n\<close> is at least 1023.
\<close>

lemma overlapping_host_overflows:
  "set_addr_from_get_buf addr (HOST_STR @ [47] @ replicate n 65 @ [10, 32] @ rest) =
    (if 2 * n + 4 \<le> length addr
     then Inr (2 * n + 3, [47] @ replicate n 65 @ [47] @ replicate n 65 @ [10, 0] @
       drop (2 * n + 4) addr)
     else Inl BadWrite)"
proof -
  let ?b = "HOST_STR @ [47] @ replicate n 65 @ [10, 32] @ rest"
  have "set_addr_from_get_buf addr ?b =
    (if length (47 # replicate n (65 :: u8)) + length (47 # replicate n (65 :: u8) @ [10]) + 1
        \<le> length addr
     then Inr (length (47 # replicate n (65 :: u8)) + length (47 # replicate n (65 :: u8) @ [10]),
       (47 # replicate n 65) @ (47 # replicate n 65 @ [10]) @ 0 #
       drop (length (47 # replicate n (65 :: u8)) + length (47 # replicate n (65 :: u8) @ [10]) + 1)
         addr)
     else Inl BadWrite)"
  proof (rule set_addr_result)
    show "c_strstr HOST_STR ?b = Inr (Some 0)" by (simp add: c_consts)
    show "drop (0 + 6) ?b = (47 # replicate n 65) @ 10 # 32 # rest" by (simp add: c_consts)
    show "c_strstr SLASH_STR ?b = Inr (Some 6)" by (simp add: c_consts)
    show "drop 6 ?b = (47 # replicate n 65 @ [10]) @ 32 # rest" by (simp add: c_consts)
  qed auto
  moreover have "length (47 # replicate n (65 :: u8)) + length (47 # replicate n (65 :: u8) @ [10]) =
      2 * n + 3" by simp
  moreover have "2 * n + 3 + 1 = 2 * n + 4" by simp
  ultimately have "set_addr_from_get_buf addr ?b =
    (if 2 * n + 4 \<le> length addr
     then Inr (2 * n + 3, (47 # replicate n 65) @ (47 # replicate n 65 @ [10]) @ 0 #
       drop (2 * n + 4) addr)
     else Inl BadWrite)" by (simp only:)
  then show ?thesis by simp
qed

text \<open>
  Without both markers there is no URL: when the buffer is a terminated string without the Host
  header the function returns 0, not the -1 its comment announces, and leaves \<open>addr\<close>
  as it was.
\<close>

lemma no_host_zero:
  assumes "0 \<notin> set s" and "\<forall>i < length s. take 6 (drop i (s @ [0])) \<noteq> HOST_STR"
  shows "set_addr_from_get_buf addr (s @ 0 # rest) = Inr (0, addr)"
proof -
  have "c_strstr HOST_STR (s @ 0 # rest) = Inr None"
    using assms
  proof (induction s)
    case Nil
    then show ?case by (simp add: c_consts)
  next
    case (Cons b s)
    have "\<forall>i < length s. take 6 (drop i (s @ [0])) \<noteq> HOST_STR"
      using Cons.prems(2) by (metis (no_types) Suc_less_eq append_Cons drop_Suc_Cons length_Cons)
    then have IH: "c_strstr HOST_STR (s @ 0 # rest) = Inr None"
      using Cons.IH Cons.prems(1) by simp
    have "take 6 (b # s @ 0 # rest) \<noteq> HOST_STR"
    proof (cases "length s < 5")
      case True
      then obtain k where "5 - length s = Suc k" by (metis Suc_diff_Suc)
      then have "0 \<in> set (take 6 (b # s @ 0 # rest))" by (simp add: take_Cons')
      then show ?thesis by (metis host_no_zero)
    next
      case False
      have "take 6 (b # s @ [0]) \<noteq> HOST_STR" using Cons.prems(2) by force
      with False show ?thesis by (simp add: take_Cons')
    qed
    moreover have "length HOST_STR = 6" by (simp add: c_consts)
    ultimately show ?case using IH Cons.prems(1) by auto
  qed
  then show ?thesis by (simp add: set_addr_from_get_buf_def)
qed

end
