(* ===== verification/Sniffer.thy ===== *)
theory Sniffer
  imports Eth_Frame Http_Url
begin

text \<open>
  The sniffer of \<open>TF/Application.c\<close>: the body of the loop of
  \<open>init_sniffer\<close> and \<open>append_url_to_file\<close>.

  \<open>frame\<close> is the 1518 byte frame object, which lives through the whole run; a
  structure laid over it is read at its offset (\<open>struct ip\<close> 20 bytes, \<open>struct
  tcphdr\<close>, \<open>struct udphdr\<close> 8, \<open>dns_header_t\<close> 12).
  \<open>url_to_file\<close>, \<open>lst_ip\<close> and \<open>url_locked\<close> (the mutex) are
  the variables shared with the thread that writes the file, and \<open>saved\<close> holds the
  address and the URL of each line \<open>append_url_to_file\<close> prints. What
  \<open>d_printf\<close> prints is the subject of \<open>Tf_Console\<close>.
\<close>

section \<open>The loop body\<close>

definition TCP_PROT :: u8 where [c_consts]: "TCP_PROT = 0x6"
definition UDP_PROT :: u8 where [c_consts]: "UDP_PROT = 0x11"
definition HTTP_PORT :: u16 where [c_consts]: "HTTP_PORT = 80"
definition DNS_PORT :: u16 where [c_consts]: "DNS_PORT = 53"
definition MAX_URL_L :: nat where [c_consts]: "MAX_URL_L = 2048"
definition MAX_QR_L :: nat where [c_consts]: "MAX_QR_L = 512"
definition ETHERTYPE_IP :: u16 where [c_consts]: "ETHERTYPE_IP = 0x0800"
definition sizeof_ip :: nat where [c_consts]: "sizeof_ip = 20"
definition sizeof_udphdr :: nat where [c_consts]: "sizeof_udphdr = 8"
definition sizeof_dns_header :: nat where [c_consts]: "sizeof_dns_header = 12"

record sniffer =
  frame :: "u8 list"
  lst_ip :: u32
  url_to_file :: "u8 list"
  url_locked :: bool
  saved :: "(u8 list \<times> u32) list"

definition net16 :: "u8 list \<Rightarrow> nat \<Rightarrow> u16 outcome" where
  "net16 m i = seqE (mem_block m i 2) (\<lambda>b. Inr (ntohs (ld16 b)))"

definition append_url_to_file :: "u8 list \<Rightarrow> sniffer \<Rightarrow> sniffer outcome" where
  "append_url_to_file url st =
     seqE (c_strcpy (url_to_file st) url) (\<lambda>u.
       Inr (st\<lparr>url_to_file := u, url_locked := False,
         saved := saved st @ [(takeWhile (\<lambda>b. b \<noteq> 0) url, lst_ip st)]\<rparr>))"

text \<open>\<open>url\<close> is the local array, which is not initialised.\<close>

definition sniff_tcp :: "u8 list \<Rightarrow> sniffer \<Rightarrow> sniffer outcome" where
  "sniff_tcp url st =
     (let tcp = ETHER_HDR_LEN + sizeof_ip
      in seqE (mem_read (frame st) (tcp + 12)) (\<lambda>off.
         let tcphdr_l = drop_bit 4 off * 4
         in seqE (net16 (frame st) (tcp + 2)) (\<lambda>th_dport.
            if th_dport = HTTP_PORT
            then seqE (set_addr_from_get_buf url
                (drop (ETHER_HDR_LEN + sizeof_ip + unat tcphdr_l) (frame st))) (\<lambda>(n, url).
              if n \<noteq> 0 then append_url_to_file url st else Inr st)
            else Inr st)))"

function dns_name_loop :: "u8 list \<Rightarrow> nat \<Rightarrow> u8 list \<Rightarrow> u8 list outcome" where
  "dns_name_loop m ptr url =
     (if ptr < length m
      then if m ! ptr = 0 then Inr url
           else (let len = unat (m ! ptr)
             in seqE (c_strlen url) (\<lambda>n.
                seqE (mem_block m (ptr + 1) len) (\<lambda>label.
                seqE (mem_write url n label) (\<lambda>url.
                seqE (c_strlen url) (\<lambda>n.
                seqE (mem_write url n [46]) (\<lambda>url. dns_name_loop m (ptr + len + 1) url))))))
      else Inl BadRead)"
  by auto

termination dns_name_loop
  by (relation "measure (\<lambda>(m, ptr, url). length m - ptr)") auto

declare dns_name_loop.simps [simp del]

definition dns_query_url :: "u8 list \<Rightarrow> nat \<Rightarrow> u8 list outcome" where
  "dns_query_url m ptr =
     seqE (dns_name_loop m ptr (replicate MAX_QR_L 0)) (\<lambda>url.
     seqE (c_strlen url) (\<lambda>n. if n = 0 then Inl BadWrite else mem_write url (n - 1) [0]))"

definition sniff_udp :: "sniffer \<Rightarrow> sniffer outcome" where
  "sniff_udp st =
     (let udp = ETHER_HDR_LEN + sizeof_ip; dns = udp + sizeof_udphdr
      in seqE (net16 (frame st) (udp + 2)) (\<lambda>uh_dport.
         if uh_dport = DNS_PORT
         then seqE (net16 (frame st) (dns + 2)) (\<lambda>flags.
           if flags AND 0x8000 = 0
           then seqE (dns_query_url (frame st) (dns + sizeof_dns_header)) (\<lambda>url.
             append_url_to_file url st)
           else Inr st)
         else Inr st))"

definition sniff_frame :: "u8 list \<Rightarrow> sniffer \<Rightarrow> sniffer outcome" where
  "sniff_frame url st =
     seqE (net16 (frame st) 12) (\<lambda>ether_type.
       if ether_type = ETHERTYPE_IP
       then seqE (mem_block (frame st) (ETHER_HDR_LEN + 12) 4) (\<lambda>ip_src.
            seqE (mem_read (frame st) (ETHER_HDR_LEN + 9)) (\<lambda>ip_p.
            let st = st\<lparr>lst_ip := ld32 ip_src\<rparr>
            in if ip_p = TCP_PROT then sniff_tcp url st
               else if ip_p = UDP_PROT then sniff_udp st
               else Inr st))
       else Inr st)"

text \<open>One round: \<open>stack\<close> and \<open>bl\<close> are the arguments of \<open>wait_eth_frame\<close>.\<close>

definition sniff_round ::
  "read_result \<Rightarrow> u8 list \<Rightarrow> nat \<Rightarrow> u8 list \<Rightarrow> sniffer \<Rightarrow> sniffer outcome" where
  "sniff_round rd stack bl url st =
     seqE (wait_eth_frame rd stack bl (frame st)) (\<lambda>(read_bytes, f).
       sniff_frame url (st\<lparr>frame := f\<rparr>))"

section \<open>Names in a query\<close>

text \<open>A name as the query holds it, and the string the loop is to build.\<close>

definition label_ok :: "u8 list \<Rightarrow> bool" where
  "label_ok l \<longleftrightarrow> l \<noteq> [] \<and> length l < 256 \<and> 0 \<notin> set l"

definition wire_label :: "u8 list \<Rightarrow> u8 list" where
  "wire_label l = of_nat (length l) # l"

definition dotted :: "u8 list list \<Rightarrow> u8 list" where
  "dotted ls = concat (map (\<lambda>l. l @ [46]) ls)"

lemma dotted_simps [simp]: "dotted [] = []" "dotted (l # ls) = l @ 46 # dotted ls"
  by (simp_all add: dotted_def)

lemma dotted_no_zero: "list_all label_ok ls \<Longrightarrow> 0 \<notin> set (dotted ls)"
  by (induction ls) (auto simp: label_ok_def)

lemma head_byte: "drop p m = b # r \<Longrightarrow> p < length m \<and> m ! p = b \<and> drop (Suc p) m = r"
  by (metis drop_eq_Nil list.distinct(1) list.inject not_le Cons_nth_drop_Suc)

lemma dns_name_step:
  assumes "label_ok l" and "drop ptr m = wire_label l @ r" and "0 \<notin> set s" and "r \<noteq> []"
    and "length l + 1 \<le> k"
  shows "dns_name_loop m ptr (s @ replicate k 0) =
    dns_name_loop m (ptr + length l + 1) (s @ l @ 46 # replicate (k - (length l + 1)) 0)"
proof -
  have p: "ptr < length m" "m ! ptr = of_nat (length l)" "drop (Suc ptr) m = l @ r"
    using head_byte [of ptr m "of_nat (length l)" "l @ r"] assms(2) by (auto simp: wire_label_def)
  have len: "unat (m ! ptr) = length l" "m ! ptr \<noteq> 0"
    using assms(1) p(2) by (auto simp: label_ok_def dest: arg_cong [of _ _ unat])
  obtain c r' where r: "r = c # r'" using assms(4) by (cases r) auto
  obtain j where k: "k = length l + Suc j" using assms(5) by (metis add_Suc_right le_Suc_ex
        add.commute plus_1_eq_Suc)
  have n: "c_strlen (s @ replicate k 0) = Inr (length s)"
    using c_strlen_terminated [OF assms(3), of "replicate (length l + j) 0"] by (simp add: k)
  have lab: "mem_block m (Suc ptr) (length l) = Inr l"
    using mem_block_drop p(3) r by auto
  have w1: "mem_write (s @ replicate k 0) (length s) l = Inr (s @ l @ 0 # replicate j 0)"
  proof -
    have "replicate k (0 :: u8) = replicate (length l) 0 @ 0 # replicate j 0"
      unfolding k by (simp add: replicate_add replicate_app_Cons_same)
    then show ?thesis
      using mem_write_prefix [of l "replicate (length l) 0 @ 0 # replicate j 0" s] by simp
  qed
  have n2: "c_strlen (s @ l @ 0 # replicate j 0) = Inr (length (s @ l))"
    using c_strlen_terminated [of "s @ l" "replicate j 0"] assms(1,3) by (simp add: label_ok_def)
  have w2: "mem_write (s @ l @ 0 # replicate j 0) (length (s @ l)) [46] =
      Inr (s @ l @ 46 # replicate j 0)"
    using mem_write_prefix [of "[46]" "0 # replicate j 0" "s @ l"] by simp
  have kj: "k - (length l + 1) = j" by (simp add: k)
  show ?thesis
    by (subst dns_name_loop.simps)
      (simp add: p(1) len n lab w1 n2 [unfolded length_append] w2 [unfolded length_append]
        kj [simplified] Let_def)
qed

lemma dns_name_step_fails:
  assumes "label_ok l" and "drop ptr m = wire_label l @ r" and "0 \<notin> set s" and "r \<noteq> []"
    and "k < length l + 1"
  shows "\<exists>e. dns_name_loop m ptr (s @ replicate k 0) = Inl e"
proof -
  have p: "ptr < length m" "m ! ptr = of_nat (length l)" "drop (Suc ptr) m = l @ r"
    using head_byte [of ptr m "of_nat (length l)" "l @ r"] assms(2) by (auto simp: wire_label_def)
  have len: "unat (m ! ptr) = length l" "m ! ptr \<noteq> 0"
    using assms(1) p(2) by (auto simp: label_ok_def dest: arg_cong [of _ _ unat])
  obtain c r' where r: "r = c # r'" using assms(4) by (cases r) auto
  have lab: "mem_block m (Suc ptr) (length l) = Inr l"
    using mem_block_drop p(3) r by auto
  consider "k = 0" | j where "k = Suc j" "k = length l" | j where "k = Suc j" "k < length l"
    using assms(5) by (cases k) fastforce+
  then show ?thesis
  proof cases
    case 1
    then have "c_strlen (s @ replicate k 0) = Inl BadRead"
      using c_strlen_unterminated [OF assms(3)] by simp
    then show ?thesis by (subst dns_name_loop.simps) (simp add: p(1) len)
  next
    case 2
    have n: "c_strlen (s @ replicate k 0) = Inr (length s)"
      using c_strlen_terminated [OF assms(3), of "replicate j 0"] 2 by simp
    have w: "mem_write (s @ replicate k 0) (length s) l = Inr (s @ l)"
      using mem_write_prefix [of l "replicate k 0" s] 2(2) by simp
    have "c_strlen (s @ l) = Inl BadRead"
      using assms(1,3) by (intro c_strlen_unterminated) (simp add: label_ok_def)
    then show ?thesis by (subst dns_name_loop.simps) (simp add: p(1) len n lab w)
  next
    case 3
    have n: "c_strlen (s @ replicate k 0) = Inr (length s)"
      using c_strlen_terminated [OF assms(3), of "replicate j 0"] 3 by simp
    have w: "mem_write (s @ replicate k 0) (length s) l = Inl BadWrite"
      using 3(2) by (simp add: mem_write_def)
    show ?thesis by (subst dns_name_loop.simps) (simp add: p(1) len n lab w)
  qed
qed

abbreviation wire_name :: "u8 list list \<Rightarrow> u8 list" where
  "wire_name ls \<equiv> concat (map wire_label ls) @ [0]"

lemma next_label:
  assumes "drop ptr m = wire_name (l # ls) @ r"
  shows "drop ptr m = wire_label l @ (wire_name ls @ r)"
    and "drop (ptr + length l + 1) m = wire_name ls @ r"
proof -
  show *: "drop ptr m = wire_label l @ (wire_name ls @ r)" using assms by simp
  have "drop (ptr + length l + 1) m = drop (length l + 1) (drop ptr m)"
    by (simp add: add.commute add.left_commute)
  then show "drop (ptr + length l + 1) m = wire_name ls @ r"
    unfolding * by (simp add: wire_label_def)
qed

lemma dns_name_fits:
  assumes "list_all label_ok ls" and "drop ptr m = wire_name ls @ r" and "0 \<notin> set s"
    and "length (dotted ls) \<le> k"
  shows "dns_name_loop m ptr (s @ replicate k 0) =
    Inr (s @ dotted ls @ replicate (k - length (dotted ls)) 0)"
  using assms
proof (induction ls arbitrary: ptr s k)
  case Nil
  then show ?case using head_byte [of ptr m 0 r] by (simp add: dns_name_loop.simps)
next
  case (Cons l ls)
  note nl = next_label [OF Cons.prems(2)]
  have "dns_name_loop m ptr (s @ replicate k 0) =
      dns_name_loop m (ptr + length l + 1) (s @ l @ 46 # replicate (k - (length l + 1)) 0)"
    by (rule dns_name_step [OF _ nl(1)]) (use Cons.prems in auto)
  also have "\<dots> = Inr ((s @ l @ [46]) @ dotted ls @
      replicate (k - (length l + 1) - length (dotted ls)) 0)"
    using Cons.IH [OF _ nl(2), of "s @ l @ [46]" "k - (length l + 1)"] Cons.prems
    by (simp add: label_ok_def)
  finally show ?case by simp
qed

lemma dns_name_full:
  assumes "list_all label_ok ls" and "drop ptr m = wire_name ls @ r" and "0 \<notin> set s"
    and "k \<le> length (dotted ls)" and "dns_name_loop m ptr (s @ replicate k 0) = Inr u"
  shows "0 \<notin> set u"
  using assms
proof (induction ls arbitrary: ptr s k)
  case Nil
  then show ?case using head_byte [of ptr m 0 r] by (simp add: dns_name_loop.simps)
next
  case (Cons l ls)
  note nl = next_label [OF Cons.prems(2)]
  show ?case
  proof (cases "length l + 1 \<le> k")
    case True
    have "dns_name_loop m ptr (s @ replicate k 0) =
        dns_name_loop m (ptr + length l + 1) (s @ l @ 46 # replicate (k - (length l + 1)) 0)"
      by (rule dns_name_step [OF _ nl(1)]) (use Cons.prems True in auto)
    then show ?thesis
      using Cons.IH [OF _ nl(2), of "s @ l @ [46]" "k - (length l + 1)"] Cons.prems
      by (simp add: label_ok_def)
  next
    case False
    then obtain e where "dns_name_loop m ptr (s @ replicate k 0) = Inl e"
      using dns_name_step_fails [OF _ nl(1), of s k] Cons.prems by auto
    then show ?thesis using Cons.prems by simp
  qed
qed

text \<open>
  The name of a DNS query: for a name of non-empty labels without zero bytes the array
  gets the labels with a dot between them and zeros behind, as long as labels and dots are at
  most 511 bytes.
\<close>

lemma dns_query_url_dotted:
  assumes "list_all label_ok ls" and "ls \<noteq> []" and "drop ptr m = wire_name ls @ r"
    and "length (dotted ls) < MAX_QR_L"
  shows "dns_query_url m ptr = Inr (butlast (dotted ls) @ replicate (MAX_QR_L + 1 - length (dotted ls)) 0)"
proof -
  have loop: "dns_name_loop m ptr (replicate MAX_QR_L 0) =
      Inr (dotted ls @ replicate (MAX_QR_L - length (dotted ls)) 0)"
    using dns_name_fits [OF assms(1,3), of "[]" MAX_QR_L] assms(4) by simp
  obtain k where k: "MAX_QR_L - length (dotted ls) = Suc k"
    using assms(4) by (metis Suc_diff_Suc)
  have n: "c_strlen (dotted ls @ 0 # replicate k 0) = Inr (length (dotted ls))"
    using c_strlen_terminated [OF dotted_no_zero [OF assms(1)]] .
  obtain l ls' where "ls = l # ls'" using assms(2) by (cases ls) auto
  then have ne: "dotted ls \<noteq> []" by simp
  then obtain d c where d: "dotted ls = d @ [c]" by (metis rev_exhaust)
  have "mem_write ((d @ [c]) @ 0 # replicate k 0) (length d) [0] =
      Inr (d @ 0 # 0 # replicate k 0)"
    using mem_write_prefix [of "[0]" "c # 0 # replicate k 0" d] by simp
  moreover have "MAX_QR_L - length d = Suc (Suc k)" using k d by simp
  ultimately show ?thesis
    using n k d by (simp add: dns_query_url_def loop)
qed

text \<open>
  The bound of the array is not checked: a name whose labels and dots are 512 bytes or more
  makes the sniffer access memory outside \<open>url\<close>, and so does the query for the root, whose
  name has no label, by writing to \<open>url[-1]\<close>.
\<close>

lemma dns_query_url_fault: "dns_query_url m ptr = Inl e \<Longrightarrow> e \<in> {BadRead, BadWrite}"
proof -
  have blk: "e \<in> {BadRead, BadWrite}" if "mem_block m i n = Inl e" for m :: "u8 list" and i n e
    using that by (auto simp: mem_block_def split: if_splits)
  have wr: "e \<in> {BadRead, BadWrite}" if "mem_write m i n = Inl e" for m n :: "u8 list" and i e
    using that by (auto simp: mem_write_def split: if_splits)
  have len: "e \<in> {BadRead, BadWrite}" if "c_strlen m = Inl e" for m e
    using that by (induction m arbitrary: e) (auto simp: seqE_eq_Inl split: if_splits)
  have "e \<in> {BadRead, BadWrite}" if "dns_name_loop m ptr url = Inl e" for url
    using that
  proof (induction m ptr url rule: dns_name_loop.induct)
    case (1 m ptr url)
    from 1(2) show ?case
      by (subst (asm) dns_name_loop.simps) (auto simp: Let_def seqE_eq_Inl split: if_splits dest: 1(1) blk wr len)
  qed
  then show "dns_query_url m ptr = Inl e \<Longrightarrow> e \<in> {BadRead, BadWrite}"
    by (auto simp: dns_query_url_def seqE_eq_Inl split: if_splits dest: wr len)
qed

lemma dns_query_url_out_of_bounds:
  assumes "list_all label_ok ls" and "drop ptr m = wire_name ls @ r"
    and "ls = [] \<or> MAX_QR_L \<le> length (dotted ls)"
  shows "\<exists>e. dns_query_url m ptr = Inl e \<and> (ls = [] \<longrightarrow> e = BadWrite)"
proof (cases "ls = []")
  case True
  then have "dns_name_loop m ptr (replicate MAX_QR_L 0) = Inr (replicate MAX_QR_L 0)"
    using dns_name_fits [OF assms(1,2), of "[]" MAX_QR_L] by simp
  moreover have "c_strlen (replicate MAX_QR_L 0) = Inr 0"
    using c_strlen_terminated [of "[]" "replicate 511 0"] by (simp add: c_consts flip: replicate_Suc)
  ultimately show ?thesis using True by (simp add: dns_query_url_def)
next
  case False
  then have "MAX_QR_L \<le> length (dotted ls)" using assms(3) by simp
  then have "c_strlen u = Inl BadRead" if "dns_name_loop m ptr (replicate MAX_QR_L 0) = Inr u" for u
    using dns_name_full [OF assms(1,2), of "[]" MAX_QR_L u] that c_strlen_unterminated by simp
  then show ?thesis
    using False by (cases "dns_name_loop m ptr (replicate MAX_QR_L 0)") (simp_all add: dns_query_url_def)
qed

section \<open>What is saved\<close>

lemma append_url_ok:
  assumes "0 \<notin> set s" and "length s < length (url_to_file st)"
  shows "append_url_to_file (s @ 0 # r) st =
    Inr (st\<lparr>url_to_file := s @ 0 # drop (length s + 1) (url_to_file st), url_locked := False,
      saved := saved st @ [(s, lst_ip st)]\<rparr>)"
proof -
  have "takeWhile (\<lambda>b. b \<noteq> 0) (s @ 0 # r) = s"
    using assms(1) by (subst takeWhile_append2) auto
  then show ?thesis using c_strcpy_ok [OF assms] by (simp add: append_url_to_file_def)
qed

definition ip_packet :: "u8 list \<Rightarrow> u8 list \<Rightarrow> u8 \<Rightarrow> u8 list \<Rightarrow> u8 list \<Rightarrow> u8 list \<Rightarrow> u8 list \<Rightarrow> u8 list" where
  "ip_packet macs h prot chk src dst data =
     macs @ [0x08, 0x00] @ h @ [prot] @ chk @ src @ dst @ data"

definition ip_sizes :: "u8 list \<Rightarrow> u8 list \<Rightarrow> u8 list \<Rightarrow> u8 list \<Rightarrow> u8 list \<Rightarrow> bool" where
  "ip_sizes macs h chk src dst \<longleftrightarrow> length macs = 12 \<and> length h = 9 \<and> length chk = 2 \<and>
     length src = 4 \<and> length dst = 4"

lemma net16_at:
  assumes "drop i m = a # b # r"
  shows "net16 m i = Inr (ld16 [b, a])"
proof -
  have "length m - i = 2 + length r" using arg_cong [OF assms, of length] by simp
  then have "mem_block m i 2 = Inr [a, b]" using assms by (simp add: mem_block_def)
  then show ?thesis by (simp only: net16_def seqE_Inr ntohs_ld16)
qed

lemma sniff_ip:
  assumes "frame st = ip_packet macs h prot chk src dst data" and "ip_sizes macs h chk src dst"
  shows "sniff_frame url st =
     (let st = st\<lparr>lst_ip := ld32 src\<rparr>
      in if prot = TCP_PROT then sniff_tcp url st
         else if prot = UDP_PROT then sniff_udp st else Inr st)"
    and "drop 34 (frame st) = data"
proof -
  show "drop 34 (frame st) = data" using assms by (simp add: ip_packet_def ip_sizes_def)
  have "net16 (frame st) 12 = Inr ETHERTYPE_IP"
    using net16_at [of 12 "frame st" 8 0] assms
    by (simp add: ip_packet_def ip_sizes_def c_consts)
  moreover have "mem_block (frame st) 26 4 = Inr src"
    using assms by (simp add: ip_packet_def ip_sizes_def mem_block_def)
  moreover have "mem_read (frame st) 23 = Inr prot"
    using assms by (simp add: ip_packet_def ip_sizes_def mem_read_def nth_append)
  ultimately show "sniff_frame url st =
     (let st = st\<lparr>lst_ip := ld32 src\<rparr>
      in if prot = TCP_PROT then sniff_tcp url st
         else if prot = UDP_PROT then sniff_udp st else Inr st)"
    by (simp add: sniff_frame_def ETHER_HDR_LEN_def)
qed

lemma top_bit: "ld16 [lo, hi] AND 0x8000 = 0 \<longleftrightarrow> hi < 128"
proof -
  have "ld16 [lo, hi] AND 2 ^ 15 = 0 \<longleftrightarrow> \<not> bit (ld16 [lo, hi]) 15"
    by (rule and_exp_eq_0_iff_not_bit)
  moreover have "bit (ld16 [lo, hi]) 15 \<longleftrightarrow> bit hi 7"
    by (simp add: bit_simps)
  moreover have "bit hi 7 \<longleftrightarrow> odd (unat hi div 128)"
  proof -
    have "bit (unat hi) 7 \<longleftrightarrow> bit hi 7"
      using bit_unsigned_iff [where 'a = nat and w = hi and n = 7] by simp
    moreover have "bit (unat hi) 7 \<longleftrightarrow> odd (unat hi div 2 ^ 7)" by (rule bit_iff_odd)
    moreover have "(2 :: nat) ^ 7 = 128" by simp
    ultimately show ?thesis by (simp only:)
  qed
  moreover have odd: "odd (n div 128) \<longleftrightarrow> \<not> n < 128" if "n < 256" for n :: nat
  proof (cases "n < 128")
    case False
    then have "n div 128 = Suc 0" by (intro div_nat_eqI) (use that in simp_all)
    then show ?thesis using False by simp
  qed simp
  moreover have "odd (unat hi div 128) \<longleftrightarrow> \<not> unat hi < 128" by (rule odd [OF unat_u8_less])
  ultimately show ?thesis by (simp add: word_less_nat_alt del: unat_u8_less)
qed

text \<open>
  The header of a TCP segment is \<open>off div 16\<close> words of 4 bytes long: 13 bytes up to
  the byte \<open>off\<close>, and the rest with the options, if there are any.
\<close>

definition tcp_rest :: "u8 \<Rightarrow> u8 list \<Rightarrow> bool" where
  "tcp_rest off ctl \<longleftrightarrow> 13 + length ctl = 4 * (unat off div 16)"

lemma data_offset: "unat (drop_bit 4 (off :: u8) * 4) = 4 * (unat off div 16)"
proof -
  have "unat off < 256" by simp
  then have "unat off div 16 < 16" by linarith
  moreover have "unat (drop_bit 4 off) = unat off div 16"
    by (simp only: unsigned_drop_bit_eq) (simp add: drop_bit_eq_div take_bit_eq_mod)
  ultimately show ?thesis
    using unat_mult_lem [of "drop_bit 4 off" 4] by simp
qed

lemma sniff_http:
  assumes "frame st = ip_packet macs h TCP_PROT chk src dst
      (ports @ [0, 80] @ seq_ack @ [off] @ ctl @ body)"
    and "ip_sizes macs h chk src dst" and "length ports = 2" and "length seq_ack = 8"
    and "tcp_rest off ctl"
  shows "sniff_frame url st = seqE (set_addr_from_get_buf url body) (\<lambda>(n, u).
    if n \<noteq> 0 then append_url_to_file u (st\<lparr>lst_ip := ld32 src\<rparr>)
    else Inr (st\<lparr>lst_ip := ld32 src\<rparr>))"
proof -
  note ip = sniff_ip [OF assms(1,2)]
  have at: "drop (34 + n) (frame st) = drop n (ports @ [0, 80] @ seq_ack @ [off] @ ctl @ body)" for n
    by (metis ip(2) drop_drop add.commute)
  have port: "net16 (frame st) 36 = Inr HTTP_PORT"
    using net16_at [of 36 "frame st" 0 80] at [of 2] assms(3) by (simp add: c_consts)
  have off: "mem_read (frame st) 46 = Inr off"
    using head_byte [of 46 "frame st" off] at [of 12] assms(3,4) by (simp add: mem_read_def)
  have req: "drop (47 + length ctl) (frame st) = body"
  proof -
    let ?pre = "ports @ [0, 80] @ seq_ack @ [off] @ ctl"
    have "length ?pre = 13 + length ctl" using assms(3,4) by simp
    then have "drop (13 + length ctl) (?pre @ body) = body" by (metis append_eq_conv_conj)
    then show ?thesis using at [of "13 + length ctl"] by simp
  qed
  have hdr_l: "unat (drop_bit 4 off * 4) = 13 + length ctl"
    using assms(5) by (simp add: tcp_rest_def data_offset)
  show ?thesis
    using hdr_l by (simp add: ip(1) sniff_tcp_def port off req ETHER_HDR_LEN_def sizeof_ip_def Let_def)
qed

lemma sniff_http_request:
  assumes "frame st = ip_packet macs h TCP_PROT chk src dst
      (ports @ [0, 80] @ seq_ack @ [off] @ ctl @ http_request method path headers host rest)"
    and "ip_sizes macs h chk src dst" and "length ports = 2" and "length seq_ack = 8"
    and "tcp_rest off ctl"
    and "front_ok method path headers" and "\<forall>b \<in> set host. b \<notin> {0, 10, 13}"
    and "length host + length path < MAX_URL_L" and "length url = MAX_URL_L"
    and "length (url_to_file st) = MAX_URL_L"
  shows "sniff_frame url st =
    Inr (st\<lparr>lst_ip := ld32 src,
      url_to_file := (host @ path) @ 0 # drop (length (host @ path) + 1) (url_to_file st),
      url_locked := False, saved := saved st @ [(host @ path, ld32 src)]\<rparr>)"
proof -
  let ?st = "st\<lparr>lst_ip := ld32 src\<rparr>" and ?u = "drop (length host + length path + 1) url"
  have path: "path \<noteq> []" "0 \<notin> set path"
    using assms(6) by (auto simp: front_ok_def http_front_def Let_def)
  have "set_addr_from_get_buf url (http_request method path headers host rest) =
      Inr (length host + length path, (host @ path) @ 0 # ?u)"
    using request_url [OF assms(6), of host url rest] assms(7-9) by (simp add: c_consts)
  moreover have "append_url_to_file ((host @ path) @ 0 # ?u) ?st =
      Inr (?st\<lparr>url_to_file := (host @ path) @ 0 # drop (length (host @ path) + 1) (url_to_file ?st),
        url_locked := False, saved := saved ?st @ [(host @ path, lst_ip ?st)]\<rparr>)"
    by (rule append_url_ok) (use path(2) assms(7,8,10) in auto)
  ultimately show ?thesis
    using path(1) by (simp add: sniff_http [OF assms(1-5)])
qed

text \<open>
  A segment without data does not repeat an earlier request: although the frame object
  still holds the bytes of the frame before, a received segment to port 80 whose data has no
  Host header (and no zero byte) is saved under no URL, because the zeros of the cleared
  receive buffer that are copied behind the segment end the search.
\<close>

lemma earlier_request_not_reread:
  assumes "pkt = ip_packet macs h TCP_PROT chk src dst
      (ports @ [0, 80] @ seq_ack @ [off] @ ctl @ body)"
    and "ip_sizes macs h chk src dst" and "length ports = 2" and "length seq_ack = 8"
    and "tcp_rest off ctl"
    and "bpf_header hdr" and "2 * length hdr + length pkt \<le> bl" and "length hdr + length pkt \<le> 1518"
    and "length (frame st) = 1518"
    and "0 \<notin> set body" and "\<forall>i < length body. take 6 (drop i (body @ [0])) \<noteq> HOST_STR"
  shows "sniff_round (ReadBytes (hdr @ pkt)) stack bl url st =
    Inr (st\<lparr>frame := pkt @ replicate (length hdr) 0 @ drop (length hdr + length pkt) (frame st),
      lst_ip := ld32 src\<rparr>)"
proof -
  let ?f = "pkt @ replicate (length hdr) 0 @ drop (length hdr + length pkt) (frame st)"
  have "take 1518 ?f = ?f" using assms(8,9) by simp
  then have wait: "wait_eth_frame (ReadBytes (hdr @ pkt)) stack bl (frame st) =
      Inr (length hdr + length pkt, ?f)"
    using wait_eth_frame_copies [OF assms(6,7,9)] assms(8) by (simp add: min_def)
  obtain k where "length hdr = Suc k" using assms(6) by (cases hdr) (auto simp: bpf_header_def)
  then obtain r where r: "?f = pkt @ 0 # r" by simp
  have "set_addr_from_get_buf url (body @ 0 # r) = Inr (0, url)"
    by (rule no_host_zero [OF assms(10,11)])
  moreover have "frame (st\<lparr>frame := ?f\<rparr>) = ip_packet macs h TCP_PROT chk src dst
      (ports @ [0, 80] @ seq_ack @ [off] @ ctl @ body @ 0 # r)"
    using r by (simp add: assms(1) ip_packet_def)
  ultimately show ?thesis
    using wait sniff_http [OF _ assms(2-5), of "st\<lparr>frame := ?f\<rparr>" "body @ 0 # r" url]
    by (simp add: sniff_round_def)
qed

lemma query_round:
  assumes "frame st = ip_packet macs h UDP_PROT chk src dst
      (ports @ [0, 53] @ len_chk @ xid @ [hi, lo] @ counts @ wire_name ls @ rest)"
    and "ip_sizes macs h chk src dst" and "length ports = 2" and "length len_chk = 4"
    and "length xid = 2" and "length counts = 8"
    and "list_all label_ok ls" and "ls \<noteq> []" and "length (dotted ls) < MAX_QR_L"
    and "length (url_to_file st) = MAX_URL_L"
  shows "sniff_frame url st =
    (let name = butlast (dotted ls)
     in Inr (if hi < 128
        then st\<lparr>lst_ip := ld32 src,
          url_to_file := name @ 0 # drop (length name + 1) (url_to_file st),
          url_locked := False, saved := saved st @ [(name, ld32 src)]\<rparr>
        else st\<lparr>lst_ip := ld32 src\<rparr>))"
proof -
  let ?st = "st\<lparr>lst_ip := ld32 src\<rparr>" and ?name = "butlast (dotted ls)"
  note ip = sniff_ip [OF assms(1,2)]
  have at: "drop (34 + n) (frame st) = drop n
      (ports @ [0, 53] @ len_chk @ xid @ [hi, lo] @ counts @ wire_name ls @ rest)" for n
    by (metis ip(2) drop_drop add.commute)
  have port: "net16 (frame st) 36 = Inr DNS_PORT"
    using net16_at [of 36 "frame st" 0 53] at [of 2] assms(3) by (simp add: c_consts)
  have flags: "net16 (frame st) 44 = Inr (ld16 [lo, hi])"
    using net16_at [of 44 "frame st" hi lo] at [of 10] assms(3-5) by simp
  have name: "drop 54 (frame st) = wire_name ls @ rest"
    using at [of 20] assms(3-6) by simp
  obtain k where k: "MAX_QR_L + 1 - length (dotted ls) = Suc k"
    using assms(9) by (metis Suc_diff_Suc less_SucI Suc_eq_plus1)
  have url: "dns_query_url (frame st) 54 = Inr (?name @ 0 # replicate k 0)"
    using dns_query_url_dotted [OF assms(7,8) name assms(9)] k by simp
  have "append_url_to_file (?name @ 0 # replicate k 0) ?st =
      Inr (?st\<lparr>url_to_file := ?name @ 0 # drop (length ?name + 1) (url_to_file ?st),
        url_locked := False, saved := saved ?st @ [(?name, lst_ip ?st)]\<rparr>)"
  proof (rule append_url_ok)
    show "0 \<notin> set ?name" using dotted_no_zero [OF assms(7)] by (auto dest: in_set_butlastD)
    show "length ?name < length (url_to_file ?st)" using assms(9,10) by (simp add: c_consts)
  qed
  moreover note top_bit [of lo hi]
  ultimately show ?thesis
    by (simp add: ip(1) sniff_udp_def port flags url c_consts Let_def)
qed

lemma query_faults:
  assumes "frame st = ip_packet macs h UDP_PROT chk src dst
      (ports @ [0, 53] @ len_chk @ xid @ [hi, lo] @ counts @ wire_name ls @ rest)"
    and "ip_sizes macs h chk src dst" and "length ports = 2" and "length len_chk = 4"
    and "length xid = 2" and "length counts = 8" and "hi < 128"
    and "list_all label_ok ls" and "ls = [] \<or> MAX_QR_L \<le> length (dotted ls)"
  shows "\<exists>e. sniff_frame url st = Inl e \<and> e \<in> {BadRead, BadWrite} \<and> (ls = [] \<longrightarrow> e = BadWrite)"
proof -
  note ip = sniff_ip [OF assms(1,2)]
  have at: "drop (34 + n) (frame st) = drop n
      (ports @ [0, 53] @ len_chk @ xid @ [hi, lo] @ counts @ wire_name ls @ rest)" for n
    by (metis ip(2) drop_drop add.commute)
  have port: "net16 (frame st) 36 = Inr DNS_PORT"
    using net16_at [of 36 "frame st" 0 53] at [of 2] assms(3) by (simp add: c_consts)
  have flags: "net16 (frame st) 44 = Inr (ld16 [lo, hi])"
    using net16_at [of 44 "frame st" hi lo] at [of 10] assms(3-5) by simp
  have "drop 54 (frame st) = wire_name ls @ rest"
    using at [of 20] assms(3-6) by simp
  from dns_query_url_out_of_bounds [OF assms(8) this assms(9)] obtain e where
    e: "dns_query_url (frame st) 54 = Inl e" "ls = [] \<longrightarrow> e = BadWrite" by blast
  have "ld16 [lo, hi] AND 0x8000 = 0" using top_bit [of lo hi] assms(7) by blast
  then have "sniff_frame url st = Inl e"
    by (simp add: ip(1) sniff_udp_def port flags e(1) c_consts Let_def del: ld16.simps)
  moreover have "e \<in> {BadRead, BadWrite}" by (rule dns_query_url_fault [OF e(1)])
  ultimately show ?thesis using e(2) by blast
qed

text \<open>
  C22. A name look-up is saved under its sender: from a frame with an IPv4 packet without
  options, a UDP datagram to port 53 and a DNS query, the sniffer stores the name of the first
  question, its labels with a dot between them, in \<open>url_to_file\<close>, frees the mutex
  and prints the name with the source address of the packet. A response changes only
  \<open>lst_ip\<close>.
\<close>

theorem dns_query_saved:
  assumes "frame st = ip_packet macs h UDP_PROT chk src dst
      (ports @ [0, 53] @ len_chk @ xid @ [hi, lo] @ counts @ wire_name ls @ rest)"
    and "ip_sizes macs h chk src dst" and "length ports = 2" and "length len_chk = 4"
    and "length xid = 2" and "length counts = 8"
    and "list_all label_ok ls" and "ls \<noteq> []" and "length (dotted ls) < MAX_QR_L"
    and "length (url_to_file st) = MAX_URL_L"
  shows "sniff_frame url st =
    (let name = butlast (dotted ls)
     in Inr (if hi < 128
        then st\<lparr>lst_ip := ld32 src,
          url_to_file := name @ 0 # drop (length name + 1) (url_to_file st),
          url_locked := False, saved := saved st @ [(name, ld32 src)]\<rparr>
        else st\<lparr>lst_ip := ld32 src\<rparr>))"
  using query_round [OF assms] .

text \<open>A URL stored over what the array holds, announced and printed.\<close>

definition str_over :: "u8 list \<Rightarrow> u8 list \<Rightarrow> u8 list" where
  "str_over u old = u @ 0 # drop (length u + 1) old"

definition saves_url :: "u8 list \<Rightarrow> sniffer \<Rightarrow> sniffer \<Rightarrow> bool" where
  "saves_url u st st' \<longleftrightarrow> 0 \<notin> set u \<and> length u < length (url_to_file st) \<and>
     url_to_file st' = str_over u (url_to_file st) \<and> \<not> url_locked st' \<and>
     saved st' = saved st @ [(u, lst_ip st')]"

lemma append_url_result:
  assumes "append_url_to_file url st = Inr st'"
  shows "saves_url (takeWhile (\<lambda>b. b \<noteq> 0) url) st st' \<and> lst_ip st' = lst_ip st \<and> frame st' = frame st"
proof -
  obtain n where n: "c_strlen url = Inr n"
    using assms by (auto simp: append_url_to_file_def c_strcpy_def seqE_eq_Inr)
  then have nn: "n < length url" "url ! n = 0" "0 \<notin> set (take n url)"
    by (simp_all add: c_strlen_Inr_iff)
  then have url: "url = take n url @ 0 # drop (Suc n) url"
    by (metis id_take_nth_drop)
  have str: "takeWhile (\<lambda>b. b \<noteq> 0) url = take n url"
    using nn by (intro takeWhile_eq_take_P_nth) (auto simp: in_set_conv_nth)
  show ?thesis
  proof (cases "n < length (url_to_file st)")
    case True
    then show ?thesis
      using append_url_ok [of "take n url" st "drop (Suc n) url"] nn(1,3) assms
      by (auto simp: saves_url_def str_over_def str simp flip: url)
  next
    case False
    then have "mem_write (url_to_file st) 0 (take (n + 1) url) = Inl BadWrite"
      using nn(1) by (simp add: mem_write_def)
    then show ?thesis
      using assms n nn(1) by (simp add: append_url_to_file_def c_strcpy_def mem_block_def)
  qed
qed

text \<open>
  What a frame asks for. A request is an IPv4 packet with TCP to port 80, or with UDP to port 53
  and the bit of a response not set; the port is read behind 20 bytes of IP header.
  \<open>asked_url\<close> is the URL in it, if there is one.
\<close>

definition web_request :: "u8 list \<Rightarrow> bool" where
  "web_request f \<longleftrightarrow> net16 f 12 = Inr ETHERTYPE_IP \<and>
     (f ! 23 = TCP_PROT \<and> net16 f 36 = Inr HTTP_PORT \<or>
      f ! 23 = UDP_PROT \<and> net16 f 36 = Inr DNS_PORT \<and>
        (case net16 f 44 of Inr flags \<Rightarrow> flags AND 0x8000 = 0 | Inl _ \<Rightarrow> False))"

definition tcp_data :: "u8 list \<Rightarrow> u8 list" where
  "tcp_data f = drop (34 + unat (drop_bit 4 (f ! 46) * 4)) f"

definition asked_url :: "u8 list \<Rightarrow> u8 list \<Rightarrow> u8 list option" where
  "asked_url url f =
     (if \<not> web_request f then None
      else if f ! 23 = TCP_PROT
      then (case set_addr_from_get_buf url (tcp_data f) of
          Inr (n, u) \<Rightarrow> if n \<noteq> 0 then Some (takeWhile (\<lambda>b. b \<noteq> 0) u) else None
        | Inl _ \<Rightarrow> None)
      else (case dns_query_url f 54 of
          Inr u \<Rightarrow> Some (takeWhile (\<lambda>b. b \<noteq> 0) u)
        | Inl _ \<Rightarrow> None))"

definition port_at :: "u8 list \<Rightarrow> nat \<Rightarrow> u16" where
  "port_at f i = ntohs (ld16 (take 2 (drop i f)))"

lemma net16_eq: "net16 f i = (if i + 2 \<le> length f then Inr (port_at f i) else Inl BadRead)"
  by (simp add: net16_def mem_block_def port_at_def)

lemmas offsets = ETHER_HDR_LEN_def sizeof_ip_def sizeof_udphdr_def sizeof_dns_header_def

lemma tcp_saves:
  assumes "sniff_tcp url st = Inr st'" and "net16 (frame st) 12 = Inr ETHERTYPE_IP"
    and "frame st ! 23 = TCP_PROT"
  shows "case asked_url url (frame st) of None \<Rightarrow> st' = st
    | Some u \<Rightarrow> saves_url u st st' \<and> lst_ip st' = lst_ip st \<and> frame st' = frame st"
  using assms
  by (cases "set_addr_from_get_buf url (tcp_data (frame st))")
    (auto simp: sniff_tcp_def asked_url_def web_request_def tcp_data_def net16_eq mem_read_Inr
      seqE_eq_Inr offsets Let_def TCP_PROT_def UDP_PROT_def split: if_splits dest!: append_url_result)

lemma udp_saves:
  assumes "sniff_udp st = Inr st'" and "net16 (frame st) 12 = Inr ETHERTYPE_IP"
    and "frame st ! 23 = UDP_PROT"
  shows "case asked_url url (frame st) of None \<Rightarrow> st' = st
    | Some u \<Rightarrow> saves_url u st st' \<and> lst_ip st' = lst_ip st \<and> frame st' = frame st"
  using assms
  by (cases "dns_query_url (frame st) 54")
    (auto simp: sniff_udp_def asked_url_def web_request_def net16_eq
      seqE_eq_Inr offsets Let_def TCP_PROT_def UDP_PROT_def split: if_splits dest!: append_url_result)

lemma asked_host:
  assumes "asked_url url f = Some u"
  shows "web_request f \<and> (f ! 23 = TCP_PROT \<longrightarrow> sublist HOST_STR (tcp_data f))"
proof -
  have "sublist HOST_STR m" if m: "set_addr_from_get_buf url m = Inr (n, u')" "n \<noteq> 0" for m n u'
  proof -
    obtain r where r: "c_strstr HOST_STR m = Inr r"
      using m by (cases "c_strstr HOST_STR m") (auto simp: set_addr_from_get_buf_def)
    then obtain i where "c_strstr HOST_STR m = Inr (Some i)"
      using m by (cases r) (auto simp: set_addr_from_get_buf_def)
    from c_strstr_found [OF this] show ?thesis
      by (metis append_take_drop_id sublist_def)
  qed
  then show ?thesis
    using assms by (auto simp: asked_url_def split: if_splits sum.splits prod.splits)
qed

lemma sniff_frame_asked:
  assumes "sniff_frame url st = Inr st'"
  shows "frame st' = frame st \<and>
    lst_ip st' = (if net16 (frame st) 12 = Inr ETHERTYPE_IP then ld32 (take 4 (drop 26 (frame st))) else lst_ip st) \<and>
    (case asked_url url (frame st) of
       None \<Rightarrow> st' = st\<lparr>lst_ip := lst_ip st'\<rparr>
     | Some u \<Rightarrow> saves_url u st st')"
proof (cases "net16 (frame st) 12 = Inr ETHERTYPE_IP")
  case False
  then have "st' = st" using assms by (auto simp: sniff_frame_def seqE_eq_Inr)
  moreover have "asked_url url (frame st) = None" using False by (simp add: asked_url_def web_request_def)
  ultimately show ?thesis using False by simp
next
  case True
  let ?st = "st\<lparr>lst_ip := ld32 (take 4 (drop 26 (frame st)))\<rparr>" and ?f = "frame st"
  have cases: "(if ?f ! 23 = TCP_PROT then sniff_tcp url ?st
        else if ?f ! 23 = UDP_PROT then sniff_udp ?st else Inr ?st) = Inr st'"
    using assms True
    by (auto simp: sniff_frame_def seqE_eq_Inr Let_def mem_read_Inr mem_block_def ETHER_HDR_LEN_def
        split: if_splits)
  have old: "saves_url u ?st s' = saves_url u st s'" for u s' by (simp add: saves_url_def)
  have "case asked_url url ?f of None \<Rightarrow> st' = ?st
      | Some u \<Rightarrow> saves_url u ?st st' \<and> lst_ip st' = lst_ip ?st \<and> frame st' = ?f"
  proof (cases "?f ! 23 = TCP_PROT")
    case tcp: True
    then show ?thesis using cases tcp_saves [of url ?st st'] True by (simp split: option.splits)
  next
    case tcp: False
    show ?thesis
    proof (cases "?f ! 23 = UDP_PROT")
      case udp: True
      then show ?thesis using cases tcp udp_saves [of ?st st' url] True by (simp split: option.splits)
    next
      case False
      then have "asked_url url ?f = None" using tcp by (simp add: asked_url_def web_request_def)
      then show ?thesis using cases tcp False by simp
    qed
  qed
  then show ?thesis using True by (cases "asked_url url ?f") (simp_all add: old)
qed

lemma sniff_frame_saves:
  assumes "sniff_frame url st = Inr st'"
  shows "frame st' = frame st \<and>
    (st' = st\<lparr>lst_ip := lst_ip st'\<rparr> \<or> web_request (frame st) \<and> (\<exists>u. saves_url u st st'))"
  using sniff_frame_asked [OF assms] asked_host [of url "frame st"]
  by (cases "asked_url url (frame st)") auto

text \<open>
  C29. Only requests are saved, and under their sender: a round that saves something had in the
  frame object an IPv4 packet with TCP, port 80 in the bytes 36 and 37 and a Host header in the
  data from which \<open>set_addr_from_get_buf\<close> took a URL, or with UDP, port 53 in those
  bytes and the bit of a DNS response clear. (The bytes are those of the destination port when
  the IP header has no options.) It has stored that URL over what the array held, freed the mutex
  and printed the URL with \<open>lst_ip\<close>, the source address of the packet. For every
  other frame nothing but \<open>lst_ip\<close> changes, and that only for an IPv4 packet. No
  round changes the frame object after it was received.
\<close>

theorem saved_only_from_requests:
  assumes "sniff_frame url st = Inr st'"
  shows "frame st' = frame st \<and>
    lst_ip st' = (if net16 (frame st) 12 = Inr ETHERTYPE_IP then ld32 (take 4 (drop 26 (frame st))) else lst_ip st) \<and>
    (case asked_url url (frame st) of
       None \<Rightarrow> st' = st\<lparr>lst_ip := lst_ip st'\<rparr>
     | Some u \<Rightarrow> web_request (frame st) \<and> saves_url u st st' \<and>
         (frame st ! 23 = TCP_PROT \<longrightarrow> sublist HOST_STR (tcp_data (frame st))))"
  using sniff_frame_asked [OF assms] asked_host [of url "frame st"]
  by (cases "asked_url url (frame st)") auto

section \<open>Frames that ask for nothing\<close>

text \<open>
  The bytes a frame begins with ask for nothing when they are no request, or a TCP segment to port 80
  whose data has a zero byte and no Host header before it.
\<close>

definition asks_nothing :: "u8 list \<Rightarrow> bool" where
  "asks_nothing d \<longleftrightarrow> 47 \<le> length d \<and>
     (web_request d \<longrightarrow> d ! 23 = TCP_PROT \<and> c_strstr HOST_STR (tcp_data d) = Inr None)"

lemma quiet_frame:
  assumes "asks_nothing d" and "frame st = d @ r"
  shows "\<exists>a. sniff_frame url st = Inr (st\<lparr>lst_ip := a\<rparr>)"
proof -
  have len: "47 \<le> length d" using assms(1) by (simp add: asks_nothing_def)
  have port: "net16 (d @ r) i = net16 d i" "port_at (d @ r) i = port_at d i" if "i \<le> 45" for i
    using that len by (simp_all add: net16_eq port_at_def)
  have data: "c_strstr HOST_STR (tcp_data (d @ r)) = Inr None" if "c_strstr HOST_STR (tcp_data d) = Inr None"
    using c_strstr_None_append [OF that host_no_zero, of "drop (34 + unat (drop_bit 4 (d ! 46) * 4) - length d) r"] len
    by (simp add: tcp_data_def nth_append)
  have byte: "(d @ r) ! i = d ! i" if "i \<le> 46" for i using that len by (simp add: nth_append)
  have same: "st\<lparr>lst_ip := lst_ip st\<rparr> = st" by simp
  have web: "web_request (d @ r) = web_request d" by (simp add: web_request_def port byte)
  let ?st = "st\<lparr>lst_ip := ld32 (take 4 (drop 26 (d @ r)))\<rparr>"
  have round: "sniff_frame url st =
      (if net16 d 12 \<noteq> Inr ETHERTYPE_IP then Inr st
       else if d ! 23 = TCP_PROT then sniff_tcp url ?st
       else if d ! 23 = UDP_PROT then sniff_udp ?st else Inr ?st)"
    using len by (simp add: sniff_frame_def assms(2) port byte net16_eq [of d] mem_block_def mem_read_def
        offsets Let_def)
  have tcp: "sniff_tcp url ?st = Inr ?st" if "net16 d 12 = Inr ETHERTYPE_IP" "d ! 23 = TCP_PROT"
    using that assms(1) len data
    by (auto simp: sniff_tcp_def assms(2) port byte net16_eq [of d] mem_read_def offsets Let_def
        set_addr_from_get_buf_def tcp_data_def asks_nothing_def web_request_def)
  have udp: "sniff_udp ?st = Inr ?st" if "net16 d 12 = Inr ETHERTYPE_IP" "d ! 23 = UDP_PROT"
    using that assms(1) len
    by (auto simp: sniff_udp_def assms(2) port byte net16_eq [of d] offsets Let_def
        asks_nothing_def web_request_def TCP_PROT_def UDP_PROT_def)
  show ?thesis using round tcp udp same by metis
qed

section \<open>Instances\<close>

definition sample_packet :: "u8 \<Rightarrow> u8 list \<Rightarrow> u8 list" where
  "sample_packet prot data =
     ip_packet (replicate 12 1) (replicate 9 0) prot [0, 0] [10, 32, 143, 5] [10, 32, 143, 1] data"

definition sample_sniffer :: "u8 list \<Rightarrow> sniffer" where
  "sample_sniffer f = \<lparr>frame = f, lst_ip = 0, url_to_file = replicate 2048 0, url_locked = True,
     saved = []\<rparr>"

lemma sample_sizes: "ip_sizes (replicate 12 1) (replicate 9 0) [0, 0] [10, 32, 143, 5] [10, 32, 143, 1]"
  by (simp add: ip_sizes_def)

lemma sample_sniffer_sel [simp]:
  "frame (sample_sniffer f) = f" "url_to_file (sample_sniffer f) = replicate 2048 0"
  "saved (sample_sniffer f) = []" "url_locked (sample_sniffer f)"
  by (simp_all add: sample_sniffer_def)

definition sample_get :: "u8 list" where
  "sample_get = sample_packet TCP_PROT ([1, 1] @ [0, 80] @ replicate 8 0 @ [0x60] @ replicate 11 0 @
     get_request sample_path sample_host [])"

lemma sample_front_ok: "front_ok (map of_char ''GET'') sample_path (map of_char ''HTTP/1.1'' @ [13, 10])"
  by code_simp

definition sample_query :: "u8 list" where
  "sample_query = sample_packet UDP_PROT ([1, 1] @ [0, 53] @ replicate 4 0 @ [0, 7] @ [1, 0] @
     replicate 8 0 @ wire_name [[119], [98, 99]] @ [])"

definition sample_ack :: "u8 list" where
  "sample_ack = sample_packet TCP_PROT ([1, 1] @ [0, 80] @ replicate 8 0 @ [0x50] @ replicate 7 0 @ [])"

lemma dns_query_url_dotted_witness:
  "dns_query_url (wire_name [[119], [98, 99]]) 0 = Inr ([119, 46, 98, 99] @ replicate 508 0)"
  using dns_query_url_dotted [of "[[119], [98, 99]]" 0 "wire_name [[119], [98, 99]]" "[]"]
  by (simp add: label_ok_def c_consts)

lemma dns_query_url_out_of_bounds_witness:
  "dns_query_url (wire_name []) 0 = Inl BadWrite \<and>
   (\<exists>e. dns_query_url (wire_name (replicate 3 (replicate 200 97))) 0 = Inl e)"
proof -
  have "list_all label_ok (replicate 3 (replicate 200 97))"
    by (simp add: label_ok_def list_all_iff)
  moreover have "length (dotted (replicate 3 (replicate 200 97))) = 603"
    by (simp add: numeral_3_eq_3)
  ultimately show ?thesis
    using dns_query_url_out_of_bounds [of "[]" 0 "wire_name []" "[]"]
      dns_query_url_out_of_bounds [of "replicate 3 (replicate 200 97)" 0
        "wire_name (replicate 3 (replicate 200 97))" "[]"]
    by (auto simp: c_consts)
qed

lemma sample_get_frame:
  "frame (sample_sniffer sample_get) = ip_packet (replicate 12 1) (replicate 9 0) TCP_PROT [0, 0]
     [10, 32, 143, 5] [10, 32, 143, 1] ([1, 1] @ [0, 80] @ replicate 8 0 @ [0x60] @ replicate 11 0 @
     get_request sample_path sample_host [])"
  by (simp add: sample_get_def sample_packet_def)

lemma sample_query_frame:
  "frame (sample_sniffer sample_query) = ip_packet (replicate 12 1) (replicate 9 0) UDP_PROT [0, 0]
     [10, 32, 143, 5] [10, 32, 143, 1] ([1, 1] @ [0, 53] @ replicate 4 0 @ [0, 7] @ [1, 0] @
     replicate 8 0 @ wire_name [[119], [98, 99]] @ [])"
  by (simp add: sample_query_def sample_packet_def)

lemma sample_query_saved:
  "\<exists>st'. sniff_frame (replicate 2048 7) (sample_sniffer sample_query) = Inr st' \<and>
     saved st' = [([119, 46, 98, 99], ld32 [10, 32, 143, 5])]"
  by (subst query_round [OF sample_query_frame sample_sizes])
    (simp_all add: label_ok_def c_consts del: ld32.simps)

theorem dns_query_saved_witness:
  "\<exists>st'. sniff_frame (replicate 2048 7) (sample_sniffer sample_query) = Inr st' \<and>
     saved st' = [([119, 46, 98, 99], ld32 [10, 32, 143, 5])] \<and> \<not> url_locked st'"
proof -
  note r = dns_query_saved [of "sample_sniffer sample_query" "replicate 12 1" "replicate 9 0" "[0, 0]"
      "[10, 32, 143, 5]" "[10, 32, 143, 1]" "[1, 1]" "replicate 4 0" "[0, 7]" 1 0 "replicate 8 0"
      "[[119], [98, 99]]" "[]" "replicate 2048 7", OF _ sample_sizes]
  show ?thesis
    by (subst r) (simp_all add: sample_query_def sample_packet_def label_ok_def c_consts)
qed

lemma earlier_request_not_reread_witness:
  "sniff_round (ReadBytes ((replicate 16 0 @ [18, 0]) @ sample_ack)) [] 4096 (replicate 2048 7)
     (sample_sniffer (replicate 1518 9)) =
   Inr (sample_sniffer (replicate 1518 9)\<lparr>frame := sample_ack @ replicate 18 0 @
     drop (18 + length sample_ack) (replicate 1518 9), lst_ip := ld32 [10, 32, 143, 5]\<rparr>)"
proof -
  have len: "length sample_ack = 54"
    by (simp add: sample_ack_def sample_packet_def ip_packet_def)
  have hdr: "bpf_header (replicate 16 0 @ [18, 0])" by (simp add: bpf_header_def st16_def)
  have pkt: "sample_ack = ip_packet (replicate 12 1) (replicate 9 0) TCP_PROT [0, 0]
      [10, 32, 143, 5] [10, 32, 143, 1]
      ([1, 1] @ [0, 80] @ replicate 8 0 @ [0x50] @ replicate 7 0 @ [])"
    by (simp only: sample_ack_def sample_packet_def)
  show ?thesis
    using earlier_request_not_reread [OF pkt sample_sizes _ _ _ hdr, of 4096
      "sample_sniffer (replicate 1518 9)" "[]" "replicate 2048 7"]
    by (simp add: len tcp_rest_def)
qed

theorem saved_only_from_requests_witness:
  "\<exists>st'. sniff_frame (replicate 2048 7) (sample_sniffer sample_query) = Inr st' \<and>
     web_request sample_query \<and> saves_url [119, 46, 98, 99] (sample_sniffer sample_query) st' \<and>
     lst_ip st' = ld32 [10, 32, 143, 5]"
proof -
  obtain st' where st': "sniff_frame (replicate 2048 7) (sample_sniffer sample_query) = Inr st'"
      "saved st' = [([119, 46, 98, 99], ld32 [10, 32, 143, 5])]"
    using sample_query_saved by blast
  note c = saved_only_from_requests [OF st'(1)]
  have "asked_url (replicate 2048 7) sample_query \<noteq> None"
  proof
    assume "asked_url (replicate 2048 7) sample_query = None"
    with c [THEN conjunct2, THEN conjunct2] have "st' = (sample_sniffer sample_query)\<lparr>lst_ip := lst_ip st'\<rparr>"
      by (simp only: sample_sniffer_sel option.case)
    from arg_cong [OF this, of saved] st'(2) show False by simp
  qed
  then obtain u where u: "asked_url (replicate 2048 7) sample_query = Some u" by blast
  then have "web_request sample_query" "saves_url u (sample_sniffer sample_query) st'" using c by simp_all
  moreover from this(2) st'(2) have "u = [119, 46, 98, 99]" "lst_ip st' = ld32 [10, 32, 143, 5]"
    by (simp_all add: saves_url_def del: ld32.simps)
  ultimately show ?thesis using st'(1) by blast
qed

end
