(* ===== verification/Url_Log.thy ===== *)
theory Url_Log
  imports Sniffer Net_Calls
begin

text \<open>
  The two threads of \<open>TF/Application.c\<close> that share \<open>url_to_file\<close>,
  \<open>lst_ip\<close> and the mutex: the sniffer, which stores and then unlocks a mutex it does
  not hold, and \<open>init_url_thread\<close>, which locks it before every line and never
  unlocks it. A step is one access of either thread to the shared variables:
  \<open>strcpy\<close> stores one byte per step, and \<open>fprintf\<close>, whose address
  argument is evaluated first, loads one byte per step, for the link and then for the text.
  \<open>copied\<close> records the URLs stored so far and is read by no step. The file is opened
  for appending: \<open>lines_added\<close> are the lines the thread has written, the link, the
  text and the address passed to \<open>inet_ntoa\<close> of each, and \<open>lines_added\<close>
  stand in the file behind whatever it held before.
\<close>

section \<open>The threads\<close>

datatype sniff_pc = Receive | Copy "u8 list" nat | Unlock

datatype writer_pc = Open | Lock | Args | Link u32 "u8 list" | Shown u32 "u8 list" "u8 list" | Stopped

record url_log =
  packets :: "(u32 \<times> u8 list option) list"  \<comment> \<open>source address and URL of the IP packets to come\<close>
  s_pc :: sniff_pc
  w_pc :: writer_pc
  url_array :: "u8 list"
  shared_ip :: u32
  locked :: bool
  lines_added :: "(u8 list \<times> u8 list \<times> u32) list"
  copied :: "u8 list list"

definition log_start :: "(u32 \<times> u8 list option) list \<Rightarrow> url_log" where
  "log_start ps = \<lparr>packets = ps, s_pc = Receive, w_pc = Open, url_array = replicate MAX_URL_L 0,
     shared_ip = 0, locked = True, lines_added = [], copied = []\<rparr>"

inductive log_step :: "url_log \<Rightarrow> url_log \<Rightarrow> bool" where
  receive: "s_pc s = Receive \<Longrightarrow> packets s = (ip, u) # ps \<Longrightarrow>
    log_step s (s\<lparr>packets := ps, shared_ip := ip,
      s_pc := (case u of None \<Rightarrow> Receive | Some url \<Rightarrow> Copy url 0)\<rparr>)"
| copy_byte: "s_pc s = Copy url k \<Longrightarrow> k < length url \<Longrightarrow> k < length (url_array s) \<Longrightarrow>
    log_step s (s\<lparr>url_array := (url_array s)[k := url ! k], s_pc := Copy url (Suc k)\<rparr>)"
| copy_end: "s_pc s = Copy url k \<Longrightarrow> k = length url \<Longrightarrow> k < length (url_array s) \<Longrightarrow>
    log_step s (s\<lparr>url_array := (url_array s)[k := 0], s_pc := Unlock, copied := copied s @ [url]\<rparr>)"
| unlock: "s_pc s = Unlock \<Longrightarrow> log_step s (s\<lparr>locked := False, s_pc := Receive\<rparr>)"
| open_file: "w_pc s = Open \<Longrightarrow> log_step s (s\<lparr>w_pc := Lock\<rparr>)"
| open_failed: "w_pc s = Open \<Longrightarrow> log_step s (s\<lparr>w_pc := Stopped\<rparr>)"
| lock: "w_pc s = Lock \<Longrightarrow> \<not> locked s \<Longrightarrow> log_step s (s\<lparr>locked := True, w_pc := Args\<rparr>)"
| args: "w_pc s = Args \<Longrightarrow> log_step s (s\<lparr>w_pc := Link (shared_ip s) []\<rparr>)"
| link_byte: "w_pc s = Link ip u \<Longrightarrow> length u < length (url_array s) \<Longrightarrow> url_array s ! length u \<noteq> 0 \<Longrightarrow>
    log_step s (s\<lparr>w_pc := Link ip (u @ [url_array s ! length u])\<rparr>)"
| link_end: "w_pc s = Link ip u \<Longrightarrow> length u < length (url_array s) \<Longrightarrow> url_array s ! length u = 0 \<Longrightarrow>
    log_step s (s\<lparr>w_pc := Shown ip u []\<rparr>)"
| shown_byte: "w_pc s = Shown ip u v \<Longrightarrow> length v < length (url_array s) \<Longrightarrow>
    url_array s ! length v \<noteq> 0 \<Longrightarrow>
    log_step s (s\<lparr>w_pc := Shown ip u (v @ [url_array s ! length v])\<rparr>)"
| shown_end: "w_pc s = Shown ip u v \<Longrightarrow> length v < length (url_array s) \<Longrightarrow>
    url_array s ! length v = 0 \<Longrightarrow>
    log_step s (s\<lparr>lines_added := lines_added s @ [(u, v, ip)], w_pc := Lock\<rparr>)"

inductive_cases log_stepE: "log_step s t"

abbreviation log_run :: "url_log \<Rightarrow> url_log \<Rightarrow> bool" where
  "log_run \<equiv> log_step\<^sup>*\<^sup>*"

text \<open>The line \<open>init_url_thread\<close> writes for the two strings and the address it loaded.\<close>

definition url_line :: "u8 list \<times> u8 list \<times> u32 \<Rightarrow> string" where
  "url_line l = (case l of (u, v, ip) \<Rightarrow>
     ''<li><a href='' @ [CHR 0x22] @ ''http://'' @ text_of u @ [CHR 0x22, CHR ''>''] @
     text_of v @ ''</a> - '' @ inet_ntoa ip @ ''</li>'' @ [CHR 0x0A, CHR '' ''])"

text \<open>
  The file, which held \<open>old\<close> when it was opened. The text of the address is that of
  a library in which each thread gets a text of its own from \<open>inet_ntoa\<close>; where the
  threads share one buffer, the sniffer's own call can change the text before it is printed.
\<close>

definition urls_htm :: "string \<Rightarrow> url_log \<Rightarrow> string" where
  "urls_htm old s = old @ concat (map url_line (lines_added s))"

section \<open>Invariants of a run\<close>

locale kept =
  fixes step :: "'s \<Rightarrow> 's \<Rightarrow> bool" and I :: "'s \<Rightarrow> bool"
  assumes keeps: "I s \<Longrightarrow> step s t \<Longrightarrow> I t"
begin

lemma along: "step\<^sup>*\<^sup>* s t \<Longrightarrow> I s \<Longrightarrow> I t"
  by (induction rule: rtranclp_induct) (auto intro: keeps)

end

text \<open>The URLs are from a set \<open>U\<close>, and no store leaves the array.\<close>

definition known :: "u8 list set \<Rightarrow> url_log \<Rightarrow> bool" where
  "known U s \<longleftrightarrow> (\<forall>(ip, u) \<in> set (packets s). case u of None \<Rightarrow> True | Some v \<Rightarrow> v \<in> U) \<and>
     (case s_pc s of Copy v k \<Rightarrow> v \<in> U \<and> k \<le> length v | _ \<Rightarrow> True) \<and> set (copied s) \<subseteq> U \<and>
     length (url_array s) = MAX_URL_L"

interpretation urls: kept log_step "known U" for U
proof
  fix s t assume "known U s" "log_step s t"
  then show "known U t"
    by (elim log_stepE) (auto simp: known_def split: option.splits)
qed

text \<open>
  What a string of the array may be while it is written: each of its bytes stands at the same
  place in one of the URLs.
\<close>

definition url_char :: "u8 list set \<Rightarrow> nat \<Rightarrow> u8 \<Rightarrow> bool" where
  "url_char U i b \<longleftrightarrow> (\<exists>v \<in> U. i < length v \<and> b = v ! i)"

definition made_of :: "u8 list set \<Rightarrow> u8 list \<Rightarrow> bool" where
  "made_of U w \<longleftrightarrow> (\<forall>i < length w. url_char U i (w ! i))"

lemma made_of_Nil [simp]: "made_of U []"
  by (simp add: made_of_def)

lemma made_of_snoc [simp]: "made_of U (w @ [b]) \<longleftrightarrow> made_of U w \<and> url_char U (length w) b"
  by (auto simp: made_of_def less_Suc_eq nth_append)

lemma made_of_self: "v \<in> U \<Longrightarrow> made_of U v"
  by (auto simp: made_of_def url_char_def)

definition chars_from :: "u8 list set \<Rightarrow> url_log \<Rightarrow> bool" where
  "chars_from U s \<longleftrightarrow> known U s \<and>
     (\<forall>i < length (url_array s). url_array s ! i = 0 \<or> url_char U i (url_array s ! i)) \<and>
     (case w_pc s of Link _ u \<Rightarrow> made_of U u | Shown _ u v \<Rightarrow> made_of U u \<and> made_of U v | _ \<Rightarrow> True) \<and>
     (\<forall>(u, v, ip) \<in> set (lines_added s). made_of U u \<and> made_of U v)"

interpretation chars: kept log_step "chars_from U" for U
proof
  fix s t assume I: "chars_from U s" and st: "log_step s t"
  have "known U t" using I st urls.keeps by (auto simp: chars_from_def)
  with st I show "chars_from U t"
    by (elim log_stepE)
      (auto simp: chars_from_def known_def url_char_def nth_list_update split: if_splits)
qed

text \<open>The address of a line is that of a packet: the writer runs only after a URL was stored.\<close>

definition printing :: "url_log \<Rightarrow> bool" where
  "printing s \<longleftrightarrow> (case w_pc s of Args \<Rightarrow> True | Link _ _ \<Rightarrow> True | Shown _ _ _ \<Rightarrow> True | _ \<Rightarrow> False)"

definition ips_from :: "u32 set \<Rightarrow> url_log \<Rightarrow> bool" where
  "ips_from A s \<longleftrightarrow> (\<forall>(ip, u) \<in> set (packets s). ip \<in> A) \<and>
     (copied s \<noteq> [] \<or> (\<exists>v k. s_pc s = Copy v k) \<longrightarrow> shared_ip s \<in> A) \<and>
     (s_pc s = Unlock \<or> \<not> locked s \<or> printing s \<longrightarrow> copied s \<noteq> []) \<and>
     (case w_pc s of Link ip _ \<Rightarrow> ip \<in> A | Shown ip _ _ \<Rightarrow> ip \<in> A | _ \<Rightarrow> True) \<and>
     (\<forall>(u, v, ip) \<in> set (lines_added s). ip \<in> A)"

interpretation ips: kept log_step "ips_from A" for A
proof
  fix s t assume "ips_from A s" "log_step s t"
  then show "ips_from A t"
    by (elim log_stepE) (auto simp: ips_from_def printing_def split: option.splits)
qed

text \<open>No more lines than URLs.\<close>

definition bit_of :: "bool \<Rightarrow> nat" where
  "bit_of b = (if b then 1 else 0)"

definition lines_bound :: "url_log \<Rightarrow> bool" where
  "lines_bound s \<longleftrightarrow> length (lines_added s) + bit_of (\<not> locked s) + bit_of (printing s) +
     bit_of (s_pc s = Unlock) \<le> length (copied s)"

interpretation bound: kept log_step lines_bound
proof
  fix s t assume "lines_bound s" "log_step s t"
  then show "lines_bound t"
    by (elim log_stepE)
      (auto simp: lines_bound_def bit_of_def printing_def split: option.splits if_splits)
qed

text \<open>
  Between two stores the array holds the URL stored last, and what the writer has loaded while
  the sniffer was not storing is a beginning of it.
\<close>

definition holds :: "u8 list \<Rightarrow> u8 list \<Rightarrow> bool" where
  "holds a v \<longleftrightarrow> 0 \<notin> set v \<and> length v < length a \<and> take (length v) a = v \<and> a ! length v = 0"

fun array_holds :: "u8 list \<Rightarrow> u8 list list \<Rightarrow> sniff_pc \<Rightarrow> bool" where
  "array_holds a us (Copy v k) = (take k a = take k v)"
| "array_holds a us pc = (us = [] \<or> holds a (last us))"

fun caught_up :: "u8 list \<Rightarrow> (u8 list \<times> u8 list \<times> u32) list \<Rightarrow> writer_pc \<Rightarrow> bool" where
  "caught_up m ls Open = False"
| "caught_up m ls Lock = (ls \<noteq> [] \<and> (\<exists>ip. last ls = (m, m, ip)))"
| "caught_up m ls (Link ip u) = prefix u m"
| "caught_up m ls (Shown ip u v) = (u = m \<and> prefix v m)"
| "caught_up m ls w = True"

definition last_written :: "url_log \<Rightarrow> bool" where
  "last_written s \<longleftrightarrow> known {v. 0 \<notin> set v \<and> length v < MAX_URL_L} s \<and>
     array_holds (url_array s) (copied s) (s_pc s) \<and>
     (s_pc s = Receive \<and> locked s \<and> copied s \<noteq> [] \<longrightarrow>
       caught_up (last (copied s)) (lines_added s) (w_pc s))"

lemma holds_prefix:
  assumes "holds a m" and "prefix u m"
  shows "if a ! length u = 0 then u = m else prefix (u @ [a ! length u]) m"
proof -
  obtain r where m: "m = u @ r" using assms(2) by (auto simp: prefix_def)
  have at: "a ! length u = (m @ [0]) ! length u"
  proof (cases r)
    case Nil
    then show ?thesis using assms(1) m by (simp add: holds_def)
  next
    case (Cons b bs)
    then have "take (length m) a ! length u = m ! length u"
      using assms(1) by (simp add: holds_def)
    then show ?thesis using Cons m by (simp add: nth_append)
  qed
  show ?thesis using at assms(1) m by (cases r) (auto simp: holds_def nth_append)
qed

interpretation last: kept log_step last_written
proof
  fix s t assume I: "last_written s" and st: "log_step s t"
  have k: "known {v. 0 \<notin> set v \<and> length v < MAX_URL_L} s" and "known {v. 0 \<notin> set v \<and> length v < MAX_URL_L} t"
    using I st urls.keeps by (auto simp: last_written_def)
  moreover have "array_holds (url_array t) (copied t) (s_pc t)"
    using st I k
    by (elim log_stepE)
      (auto simp: last_written_def known_def take_Suc_conv_app_nth holds_def split: option.splits)
  moreover have "caught_up (last (copied t)) (lines_added t) (w_pc t)"
    if "s_pc t = Receive" "locked t" "copied t \<noteq> []"
    using st I that
    by (elim log_stepE) (auto simp: last_written_def split: option.splits dest: holds_prefix)
  ultimately show "last_written t" by (simp add: last_written_def)
qed

text \<open>The URLs stored, the one being stored and those to come are the URLs of the packets.\<close>

definition urls_of :: "(u32 \<times> u8 list option) list \<Rightarrow> u8 list list" where
  "urls_of ps = concat (map (\<lambda>(ip, u). case u of None \<Rightarrow> [] | Some v \<Rightarrow> [v]) ps)"

lemma urls_of_simps [simp]:
  "urls_of [] = []" "urls_of ((ip, None) # ps) = urls_of ps"
  "urls_of ((ip, Some v) # ps) = v # urls_of ps"
  by (simp_all add: urls_of_def)

lemma in_urls_of: "(ip, Some v) \<in> set ps \<Longrightarrow> v \<in> set (urls_of ps)"
  by (force simp: urls_of_def)

definition in_order :: "u8 list list \<Rightarrow> url_log \<Rightarrow> bool" where
  "in_order us s \<longleftrightarrow>
     us = copied s @ (case s_pc s of Copy v k \<Rightarrow> [v] | _ \<Rightarrow> []) @ urls_of (packets s)"

interpretation order: kept log_step "in_order us" for us
proof
  fix s t assume "in_order us s" "log_step s t"
  then show "in_order us t"
    by (elim log_stepE) (auto simp: in_order_def split: option.splits)
qed

lemma start_known: "set (urls_of ps) \<subseteq> U \<Longrightarrow> known U (log_start ps)"
  by (auto simp: known_def log_start_def dest!: in_urls_of split: option.splits)

lemma start_invariants:
  "chars_from (set (urls_of ps)) (log_start ps)" "ips_from (fst ` set ps) (log_start ps)"
  "lines_bound (log_start ps)" "in_order (urls_of ps) (log_start ps)"
proof -
  show "chars_from (set (urls_of ps)) (log_start ps)"
    using start_known [of ps "set (urls_of ps)"] by (simp add: chars_from_def) (simp add: log_start_def)
  show "ips_from (fst ` set ps) (log_start ps)"
    by (force simp: ips_from_def log_start_def printing_def)
qed (simp_all add: lines_bound_def in_order_def log_start_def bit_of_def printing_def)

definition urls_ok :: "u8 list list \<Rightarrow> bool" where
  "urls_ok us \<longleftrightarrow> (\<forall>u \<in> set us. 0 \<notin> set u \<and> length u < MAX_URL_L)"

lemma start_last_written: "urls_ok (urls_of ps) \<Longrightarrow> last_written (log_start ps)"
  using start_known [of ps "{v. 0 \<notin> set v \<and> length v < MAX_URL_L}"]
  by (simp add: last_written_def urls_ok_def subset_eq) (simp add: log_start_def)

lemma made_of_bounds:
  assumes "made_of (set us) w" and "urls_ok us"
  shows "0 \<notin> set w" and "length w < MAX_URL_L"
proof -
  show "0 \<notin> set w"
    using assms by (force simp: made_of_def url_char_def urls_ok_def in_set_conv_nth)
  show "length w < MAX_URL_L"
  proof (cases "length w")
    case 0
    then show ?thesis by (simp add: c_consts)
  next
    case (Suc n)
    then obtain v where "v \<in> set us" "n < length v"
      using assms(1) by (auto simp: made_of_def url_char_def)
    then show ?thesis using assms(2) Suc by (auto simp: urls_ok_def)
  qed
qed

section \<open>Properties\<close>

lemma lines_captured:
  assumes "log_run (log_start ps) s" and "urls_ok (urls_of ps)"
  shows "(\<forall>(u, v, ip) \<in> set (lines_added s). made_of (set (urls_of ps)) u \<and> made_of (set (urls_of ps)) v \<and>
      length u < MAX_URL_L \<and> length v < MAX_URL_L \<and> ip \<in> fst ` set ps) \<and>
    length (lines_added s) \<le> length (urls_of ps)"
proof -
  have "chars_from (set (urls_of ps)) s" "ips_from (fst ` set ps) s" "lines_bound s"
      "in_order (urls_of ps) s"
    using chars.along [OF assms(1)] ips.along [OF assms(1)] bound.along [OF assms(1)]
      order.along [OF assms(1)] start_invariants by blast+
  then show ?thesis
    using made_of_bounds(2) [OF _ assms(2)]
    by (fastforce simp: chars_from_def ips_from_def lines_bound_def in_order_def)
qed

text \<open>The threads stop only when there is nothing left to do: no access leaves the array.\<close>

lemma stuck_done:
  assumes "log_run (log_start ps) s" and "urls_ok (urls_of ps)" and "\<nexists>t. log_step s t"
  shows "packets s = [] \<and> s_pc s = Receive \<and> (w_pc s = Stopped \<or> w_pc s = Lock \<and> locked s)"
proof -
  have c: "chars_from (set (urls_of ps)) s"
    using chars.along [OF assms(1)] start_invariants by blast
  have pc: "s_pc s = Receive"
  proof (cases "s_pc s")
    case (Copy v k)
    then have "k \<le> length v" "length v < length (url_array s)"
      using c assms(2) by (auto simp: chars_from_def known_def urls_ok_def)
    then show ?thesis
      using assms(3) log_step.copy_byte [OF Copy] log_step.copy_end [OF Copy] by fastforce
  qed (use assms(3) log_step.unlock in blast)+
  have "w_pc s = Stopped \<or> w_pc s = Lock \<and> locked s"
  proof (cases "w_pc s")
    case (Link ip u)
    then have "length u < length (url_array s)"
      using c made_of_bounds(2) [OF _ assms(2)] by (auto simp: chars_from_def known_def)
    then show ?thesis
      using assms(3) log_step.link_byte [OF Link] log_step.link_end [OF Link] by blast
  next
    case (Shown ip u v)
    then have "length v < length (url_array s)"
      using c made_of_bounds(2) [OF _ assms(2)] by (auto simp: chars_from_def known_def)
    then show ?thesis
      using assms(3) log_step.shown_byte [OF Shown] log_step.shown_end [OF Shown] by blast
  qed (use assms(3) log_step.open_file log_step.lock log_step.args in blast)+
  moreover have "packets s = []"
    using assms(3) pc log_step.receive [OF pc] by (cases "packets s") auto
  ultimately show ?thesis using pc by simp
qed

lemma last_line:
  assumes "log_run (log_start ps) s" and "urls_ok (urls_of ps)" and "\<nexists>t. log_step s t"
    and "w_pc s \<noteq> Stopped" and "urls_of ps \<noteq> []"
  shows "lines_added s \<noteq> [] \<and>
    (\<exists>ip. last (lines_added s) = (last (urls_of ps), last (urls_of ps), ip))"
proof -
  have "last_written s" "in_order (urls_of ps) s"
    using last.along [OF assms(1)] start_last_written [OF assms(2)]
      order.along [OF assms(1)] start_invariants by blast+
  then show ?thesis
    using stuck_done [OF assms(1-3)] assms(4,5) by (simp add: last_written_def in_order_def)
qed

text \<open>
  C28. What a run can add to the file: in every interleaving of the threads the file holds what
  it held before, followed by the lines added. Each character of the link and of the text of an
  added line stands at the same place in a URL of one of the packets, both fit the array, the
  address passed to \<open>inet_ntoa\<close> for it is the source address of one of the packets,
  and there are no more added lines than URLs.
\<close>

theorem log_lines_captured:
  assumes "log_run (log_start ps) s" and "urls_ok (urls_of ps)"
  shows "(\<forall>(u, v, ip) \<in> set (lines_added s). made_of (set (urls_of ps)) u \<and> made_of (set (urls_of ps)) v \<and>
      length u < MAX_URL_L \<and> length v < MAX_URL_L \<and> ip \<in> fst ` set ps) \<and>
    length (lines_added s) \<le> length (urls_of ps) \<and>
    urls_htm old s = old @ concat (map url_line (lines_added s))"
  using lines_captured [OF assms] by (simp add: urls_htm_def)

text \<open>
  C16. The last URL is never lost: however the threads were interleaved, when neither can go on
  and the file could be opened, the run has added a line, and the last line it added holds the URL
  of the last packet that had one, complete, as its link and as its text.
\<close>

theorem last_url_written:
  assumes "log_run (log_start ps) s" and "urls_ok (urls_of ps)" and "\<nexists>t. log_step s t"
    and "w_pc s \<noteq> Stopped" and "urls_of ps \<noteq> []"
  shows "lines_added s \<noteq> [] \<and>
    (\<exists>ip. last (lines_added s) = (last (urls_of ps), last (urls_of ps), ip))"
  using last_line [OF assms] .

section \<open>Runs\<close>

lemma step_run: "log_step s t \<Longrightarrow> log_run t u \<Longrightarrow> log_run s u"
  by (rule converse_rtranclp_into_rtranclp)

lemma run_step: "log_run s t \<Longrightarrow> log_step t u \<Longrightarrow> log_run s u"
  by (rule rtranclp.rtrancl_into_rtrancl)

lemma same_pc:
  "s_pc s = p \<Longrightarrow> s\<lparr>s_pc := p\<rparr> = s" "w_pc s = q \<Longrightarrow> s\<lparr>w_pc := q\<rparr> = s"
  by (cases s; simp)+

lemma run_copy_bytes:
  assumes "s_pc s = Copy v 0" and "length v < length (url_array s)" and "n \<le> length v"
  shows "log_run s (s\<lparr>url_array := take n v @ drop n (url_array s), s_pc := Copy v n\<rparr>)"
  using assms(3)
proof (induction n)
  case 0
  then show ?case using assms(1) by (simp add: same_pc)
next
  case (Suc n)
  let ?t = "s\<lparr>url_array := take n v @ drop n (url_array s), s_pc := Copy v n\<rparr>"
  have "(url_array ?t)[n := v ! n] = take (Suc n) v @ drop (Suc n) (url_array s)"
    using assms(2) Suc.prems
    by (simp add: list_update_append take_Suc_conv_app_nth flip: Cons_nth_drop_Suc)
  then have "log_step ?t (s\<lparr>url_array := take (Suc n) v @ drop (Suc n) (url_array s), s_pc := Copy v (Suc n)\<rparr>)"
    using log_step.copy_byte [of ?t v n] assms(2) Suc.prems by simp
  then show ?case using Suc by (auto intro: run_step)
qed

lemma run_receive:
  assumes "s_pc s = Receive" and "packets s = (ip, Some v) # ps" and "length v < length (url_array s)"
  shows "log_run s (s\<lparr>packets := ps, shared_ip := ip, url_array := str_over v (url_array s),
     copied := copied s @ [v], locked := False, s_pc := Receive\<rparr>)"
proof -
  let ?r = "s\<lparr>packets := ps, shared_ip := ip, s_pc := Copy v 0\<rparr>"
  let ?c = "?r\<lparr>url_array := v @ drop (length v) (url_array s), s_pc := Copy v (length v)\<rparr>"
  let ?e = "?c\<lparr>url_array := str_over v (url_array s), s_pc := Unlock, copied := copied s @ [v]\<rparr>"
  have "log_step s ?r" using log_step.receive [OF assms(1,2)] by simp
  moreover have "log_run ?r ?c" using run_copy_bytes [of ?r v "length v"] assms by simp
  moreover have "(url_array ?c)[length v := 0] = str_over v (url_array s)"
    using assms(3) by (simp add: str_over_def list_update_append flip: Cons_nth_drop_Suc)
  then have "log_step ?c ?e" using log_step.copy_end [of ?c v "length v"] assms(3) by simp
  moreover have "log_step ?e (?e\<lparr>locked := False, s_pc := Receive\<rparr>)"
    by (rule log_step.unlock) simp
  ultimately have "log_run s (?e\<lparr>locked := False, s_pc := Receive\<rparr>)"
    by (meson run_step step_run)
  then show ?thesis by simp
qed

lemma holds_str_over: "0 \<notin> set v \<Longrightarrow> length v < length a \<Longrightarrow> holds (str_over v a) v"
  by (simp add: holds_def str_over_def)

lemma length_str_over [simp]: "length v < length a \<Longrightarrow> length (str_over v a) = length a"
  by (simp add: str_over_def)

lemma holds_next:
  assumes "holds a v" and "n < length v"
  shows "n < length a" and "a ! n \<noteq> 0" and "take n v @ [a ! n] = take (Suc n) v"
proof -
  have "a ! n = v ! n" using assms by (metis holds_def nth_take)
  then show "a ! n \<noteq> 0" "take n v @ [a ! n] = take (Suc n) v" "n < length a"
    using assms by (auto simp: holds_def take_Suc_conv_app_nth in_set_conv_nth)
qed

lemma run_link:
  assumes "w_pc s = Link ip []" and "holds (url_array s) v"
  shows "log_run s (s\<lparr>w_pc := Shown ip v []\<rparr>)"
proof -
  have "log_run s (s\<lparr>w_pc := Link ip (take n v)\<rparr>)" if "n \<le> length v" for n
    using that
  proof (induction n)
    case (Suc n)
    then show ?case
      using log_step.link_byte [of "s\<lparr>w_pc := Link ip (take n v)\<rparr>" ip "take n v"]
        holds_next [OF assms(2), of n] by (auto intro: run_step)
  qed (use assms in \<open>simp add: same_pc\<close>)
  from this [of "length v"] show ?thesis
    using log_step.link_end [of "s\<lparr>w_pc := Link ip v\<rparr>" ip v] assms(2)
    by (auto simp: holds_def intro: run_step)
qed

lemma run_shown:
  assumes "w_pc s = Shown ip u []" and "holds (url_array s) v"
  shows "log_run s (s\<lparr>lines_added := lines_added s @ [(u, v, ip)], w_pc := Lock\<rparr>)"
proof -
  have "log_run s (s\<lparr>w_pc := Shown ip u (take n v)\<rparr>)" if "n \<le> length v" for n
    using that
  proof (induction n)
    case (Suc n)
    then show ?case
      using log_step.shown_byte [of "s\<lparr>w_pc := Shown ip u (take n v)\<rparr>" ip u "take n v"]
        holds_next [OF assms(2), of n] by (auto intro: run_step)
  qed (use assms in \<open>simp add: same_pc\<close>)
  from this [of "length v"] show ?thesis
    using log_step.shown_end [of "s\<lparr>w_pc := Shown ip u v\<rparr>" ip u v] assms(2)
    by (auto simp: holds_def intro: run_step)
qed

lemma run_line:
  assumes "w_pc s = Link ip []" and "holds (url_array s) v"
  shows "log_run s (s\<lparr>lines_added := lines_added s @ [(v, v, ip)], w_pc := Lock\<rparr>)"
  using rtranclp_trans [OF run_link [OF assms] run_shown [of "s\<lparr>w_pc := Shown ip v []\<rparr>" ip v v]] assms(2)
  by simp

lemma run_lock:
  assumes "w_pc s = Lock" and "\<not> locked s"
  shows "log_run s (s\<lparr>locked := True, w_pc := Link (shared_ip s) []\<rparr>)"
  using log_step.lock [OF assms] log_step.args [of "s\<lparr>locked := True, w_pc := Args\<rparr>"]
  by (auto intro: step_run)

lemma run_write:
  assumes "w_pc s = Lock" and "\<not> locked s" and "holds (url_array s) v"
  shows "log_run s (s\<lparr>locked := True, lines_added := lines_added s @ [(v, v, shared_ip s)], w_pc := Lock\<rparr>)"
  using rtranclp_trans [OF run_lock [OF assms(1,2)]
      run_line [of "s\<lparr>locked := True, w_pc := Link (shared_ip s) []\<rparr>" "shared_ip s" v]] assms(3)
  by simp

section \<open>Threads that take turns\<close>

lemma urls_ok_simps [simp]:
  "urls_ok []" "urls_ok (u # us) \<longleftrightarrow> 0 \<notin> set u \<and> length u < MAX_URL_L \<and> urls_ok us"
  by (auto simp: urls_ok_def)

definition lines_of :: "(u32 \<times> u8 list option) list \<Rightarrow> (u8 list \<times> u8 list \<times> u32) list" where
  "lines_of ps = concat (map (\<lambda>(ip, u). case u of None \<Rightarrow> [] | Some v \<Rightarrow> [(v, v, ip)]) ps)"

lemma turns:
  assumes "s_pc s = Receive" and "w_pc s = Lock" and "locked s"
    and "length (url_array s) = MAX_URL_L" and "urls_ok (urls_of (packets s))"
  shows "\<exists>t. log_run s t \<and> lines_added t = lines_added s @ lines_of (packets s) \<and>
    packets t = [] \<and> s_pc t = Receive \<and> w_pc t = Lock \<and> locked t"
  using assms
proof (induction "packets s" arbitrary: s)
  case Nil
  then show ?case by (auto simp: lines_of_def intro!: exI [of _ s])
next
  case (Cons p ps)
  obtain ip u where p: "p = (ip, u)" by (cases p)
  note pkts = Cons.hyps(2) [symmetric, unfolded p]
  show ?case
  proof (cases u)
    case None
    let ?s = "s\<lparr>packets := ps, shared_ip := ip, s_pc := Receive\<rparr>"
    have "log_step s ?s" using log_step.receive [of s ip None ps] Cons.prems pkts None by simp
    moreover obtain t where "log_run ?s t" "lines_added t = lines_added ?s @ lines_of ps"
        "packets t = []" "s_pc t = Receive" "w_pc t = Lock" "locked t"
      using Cons.hyps(1) [of ?s] Cons.prems pkts None by auto
    ultimately show ?thesis using pkts None by (auto simp: lines_of_def intro: step_run)
  next
    case (Some v)
    let ?a = "str_over v (url_array s)"
    let ?s = "s\<lparr>packets := ps, shared_ip := ip, url_array := ?a, copied := copied s @ [v],
      locked := False, s_pc := Receive\<rparr>"
    let ?s' = "?s\<lparr>locked := True, lines_added := lines_added s @ [(v, v, ip)], w_pc := Lock\<rparr>"
    have v: "0 \<notin> set v" "length v < length (url_array s)" "urls_ok (urls_of ps)"
      using Cons.prems pkts Some by simp_all
    have "log_run s ?s" using run_receive [of s ip v ps] Cons.prems pkts Some v by simp
    also have "log_run ?s ?s'"
      using run_write [of ?s v] Cons.prems holds_str_over [OF v(1,2)] by simp
    finally have "log_run s ?s'" .
    moreover obtain t where "log_run ?s' t" "lines_added t = lines_added ?s' @ lines_of ps"
        "packets t = []" "s_pc t = Receive" "w_pc t = Lock" "locked t"
      using Cons.hyps(1) [of ?s'] Cons.prems v by auto
    ultimately show ?thesis using pkts Some by (auto simp: lines_of_def intro: rtranclp_trans)
  qed
qed

text \<open>
  When the threads take turns the file is complete: for every sequence of packets there is a
  run of the threads that adds one line for each URL, in order, complete, with the
  source address of its packet, and ends where neither thread can go on.
\<close>

lemma turns_complete:
  assumes "urls_ok (urls_of ps)"
  shows "\<exists>s. log_run (log_start ps) s \<and> lines_added s = lines_of ps \<and> packets s = [] \<and> (\<nexists>t. log_step s t)"
proof -
  let ?s = "(log_start ps)\<lparr>w_pc := Lock\<rparr>"
  have "log_step (log_start ps) ?s" by (rule log_step.open_file) (simp add: log_start_def)
  moreover obtain t where "log_run ?s t" "lines_added t = lines_added ?s @ lines_of (packets ?s)"
      "packets t = []" "s_pc t = Receive" "w_pc t = Lock" "locked t"
    using turns [of ?s] assms by (auto simp: log_start_def)
  moreover from this have "\<not> log_step t u" for u by (auto elim!: log_stepE)
  ultimately show ?thesis by (auto simp: log_start_def intro: step_run)
qed

section \<open>Threads that do not\<close>

definition may_hold :: "(u32 \<times> u8 list option) list \<Rightarrow> (u8 list \<times> u8 list \<times> u32) list \<Rightarrow> bool" where
  "may_hold ps ls \<longleftrightarrow> (\<exists>s. log_run (log_start ps) s \<and> lines_added s = ls)"

text \<open>Where the first of two packets is stored and the writer waits for the mutex.\<close>

definition zeros :: "u8 list" where "zeros = replicate MAX_URL_L 0"

definition first_stored :: "u32 \<Rightarrow> u8 list \<Rightarrow> u32 \<Rightarrow> u8 list \<Rightarrow> url_log" where
  "first_stored a u b v = \<lparr>packets = [(b, Some v)], s_pc = Receive, w_pc = Lock,
     url_array = str_over u zeros, shared_ip = a, locked = False, lines_added = [], copied = [u]\<rparr>"

lemma length_zeros [simp]: "length zeros = MAX_URL_L"
  by (simp add: zeros_def)

lemma run_first_stored:
  assumes "length u < MAX_URL_L"
  shows "log_run (log_start [(a, Some u), (b, Some v)]) (first_stored a u b v)"
proof -
  let ?s = "(log_start [(a, Some u), (b, Some v)])\<lparr>w_pc := Lock\<rparr>"
  have "log_step (log_start [(a, Some u), (b, Some v)]) ?s"
    by (rule log_step.open_file) (simp add: log_start_def)
  moreover have "log_run ?s (first_stored a u b v)"
    using run_receive [of ?s a u "[(b, Some v)]"] assms
    by (simp add: log_start_def first_stored_def flip: zeros_def)
  ultimately show ?thesis by (rule step_run)
qed

lemma may_holdI:
  "length u < MAX_URL_L \<Longrightarrow> log_run (first_stored a u b v) s \<Longrightarrow>
   may_hold [(a, Some u), (b, Some v)] (lines_added s)"
  unfolding may_hold_def by (blast intro: rtranclp_trans run_first_stored)

definition second_stored :: "url_log \<Rightarrow> u32 \<Rightarrow> u8 list \<Rightarrow> url_log" where
  "second_stored s b v = s\<lparr>packets := [], shared_ip := b, url_array := str_over v (url_array s),
     copied := copied s @ [v], locked := False, s_pc := Receive\<rparr>"

lemma run_second_stored:
  "s_pc s = Receive \<Longrightarrow> packets s = [(b, Some v)] \<Longrightarrow> length v < length (url_array s) \<Longrightarrow>
   log_run s (second_stored s b v)"
  unfolding second_stored_def by (rule run_receive)

lemma second_stored_sel [simp]:
  "packets (second_stored s b v) = []" "w_pc (second_stored s b v) = w_pc s"
  "s_pc (second_stored s b v) = Receive" "locked (second_stored s b v) = False"
  "shared_ip (second_stored s b v) = b" "lines_added (second_stored s b v) = lines_added s"
  "url_array (second_stored s b v) = str_over v (url_array s)"
  by (simp_all add: second_stored_def)

lemma first_stored_sel [simp]:
  "packets (first_stored a u b v) = [(b, Some v)]" "w_pc (first_stored a u b v) = Lock"
  "s_pc (first_stored a u b v) = Receive" "locked (first_stored a u b v) = False"
  "shared_ip (first_stored a u b v) = a" "lines_added (first_stored a u b v) = []"
  "url_array (first_stored a u b v) = str_over u zeros"
  by (simp_all add: first_stored_def)

text \<open>The first URL is overwritten before the writer wakes.\<close>

lemma runs_lost:
  assumes "urls_ok [u, v]"
  shows "\<exists>s. log_run (log_start [(a, Some u), (b, Some v)]) s \<and> lines_added s = [(v, v, b)] \<and>
    w_pc s = Lock \<and> (\<nexists>t. log_step s t)"
proof -
  let ?s = "second_stored (first_stored a u b v) b v"
  let ?t = "?s\<lparr>locked := True, lines_added := [(v, v, b)], w_pc := Lock\<rparr>"
  have "log_run (first_stored a u b v) ?s" using run_second_stored assms by simp
  moreover have "log_run ?s ?t" using run_write [of ?s v] holds_str_over [of v] assms by simp
  moreover have "\<not> log_step ?t t" for t by (auto elim!: log_stepE)
  ultimately show ?thesis
    using run_first_stored [of u a b v] assms by (intro exI [of _ ?t]) auto
qed

text \<open>The mutex is taken for the first URL, and the line is written after the second.\<close>

lemma runs_repeated:
  assumes "urls_ok [u, v]"
  shows "may_hold [(a, Some u), (b, Some v)] [(v, v, a), (v, v, b)]"
proof -
  let ?l = "(first_stored a u b v)\<lparr>locked := True, w_pc := Link a []\<rparr>"
  let ?s = "second_stored ?l b v"
  let ?t = "?s\<lparr>lines_added := [(v, v, a)], w_pc := Lock\<rparr>"
  note str = holds_str_over [of v "str_over u zeros"]
  have "log_run (first_stored a u b v) ?l" using run_lock [of "first_stored a u b v"] by simp
  moreover have "log_run ?l ?s" using run_second_stored assms by simp
  moreover have "log_run ?s ?t" using run_line [of ?s a v] str assms by simp
  moreover have "log_run ?t (?t\<lparr>locked := True, lines_added := [(v, v, a), (v, v, b)], w_pc := Lock\<rparr>)"
    using run_write [of ?t v] str assms by simp
  ultimately have "log_run (first_stored a u b v)
      (?t\<lparr>locked := True, lines_added := [(v, v, a), (v, v, b)], w_pc := Lock\<rparr>)"
    by (meson rtranclp_trans)
  from may_holdI [OF _ this] assms show ?thesis by simp
qed

text \<open>The second packet is received while the line of the first is written.\<close>

lemma runs_misattributed:
  assumes "urls_ok [u, v]"
  shows "may_hold [(a, Some u), (b, Some v)] [(u, u, b)]"
proof -
  let ?l = "(first_stored a u b v)\<lparr>locked := True, w_pc := Args\<rparr>"
  let ?c = "?l\<lparr>packets := [], shared_ip := b, s_pc := Copy v 0\<rparr>"
  let ?t = "?c\<lparr>w_pc := Link b []\<rparr>"
  have "log_step (first_stored a u b v) ?l" by (rule log_step.lock) simp_all
  moreover have "log_step ?l ?c" using log_step.receive [of ?l b "Some v" "[]"] by simp
  moreover have "log_step ?c ?t" using log_step.args [of ?c] by simp
  moreover have "log_run ?t (?t\<lparr>lines_added := [(u, u, b)], w_pc := Lock\<rparr>)"
    using run_line [of ?t b u] holds_str_over [of u zeros] assms by simp
  ultimately have "log_run (first_stored a u b v) (?t\<lparr>lines_added := [(u, u, b)], w_pc := Lock\<rparr>)"
    by (meson step_run)
  from may_holdI [OF _ this] assms show ?thesis by simp
qed

text \<open>The second URL is stored between the link and the text of a line.\<close>

lemma runs_mixed:
  assumes "urls_ok [u, v]"
  shows "may_hold [(a, Some u), (b, Some v)] [(u, v, a)]"
proof -
  let ?l = "(first_stored a u b v)\<lparr>locked := True, w_pc := Link a []\<rparr>"
  let ?s = "second_stored (?l\<lparr>w_pc := Shown a u []\<rparr>) b v"
  have "log_run (first_stored a u b v) ?l" using run_lock [of "first_stored a u b v"] by simp
  moreover have "log_run ?l (?l\<lparr>w_pc := Shown a u []\<rparr>)"
    using run_link [of ?l a u] holds_str_over [of u zeros] assms by simp
  moreover have "log_run (?l\<lparr>w_pc := Shown a u []\<rparr>) ?s" using run_second_stored assms by simp
  moreover have "log_run ?s (?s\<lparr>lines_added := [(u, v, a)], w_pc := Lock\<rparr>)"
    using run_shown [of ?s a u v] holds_str_over [of v "str_over u zeros"] assms by simp
  ultimately have "log_run (first_stored a u b v) (?s\<lparr>lines_added := [(u, v, a)], w_pc := Lock\<rparr>)"
    by (meson rtranclp_trans)
  from may_holdI [OF _ this] assms show ?thesis by simp
qed

text \<open>The line is written while the second URL is being stored.\<close>

lemma runs_torn:
  assumes "urls_ok [u, v]" and "n \<le> length u" and "n \<le> length v"
  shows "may_hold [(a, Some u), (b, Some v)] [(take n v @ drop n u, take n v @ drop n u, a)]"
proof -
  let ?w = "take n v @ drop n u"
  let ?l = "(first_stored a u b v)\<lparr>locked := True, w_pc := Link a []\<rparr>"
  let ?c = "?l\<lparr>packets := [], shared_ip := b, s_pc := Copy v 0\<rparr>"
  let ?s = "?c\<lparr>url_array := take n v @ drop n (str_over u zeros), s_pc := Copy v n\<rparr>"
  have "log_run (first_stored a u b v) ?l" using run_lock [of "first_stored a u b v"] by simp
  moreover have "log_step ?l ?c" using log_step.receive [of ?l b "Some v" "[]"] by simp
  moreover have "log_run ?c ?s" using run_copy_bytes [of ?c v n] assms by simp
  moreover have "holds (url_array ?s) ?w"
    using assms by (auto simp: holds_def str_over_def nth_append dest: in_set_takeD in_set_dropD)
  then have "log_run ?s (?s\<lparr>lines_added := [(?w, ?w, a)], w_pc := Lock\<rparr>)"
    using run_line [of ?s a ?w] by simp
  ultimately have "log_run (first_stored a u b v) (?s\<lparr>lines_added := [(?w, ?w, a)], w_pc := Lock\<rparr>)"
    by (meson rtranclp_trans step_run)
  from may_holdI [OF _ this] assms show ?thesis by simp
qed

text \<open>
  C40. But the threads are not made to take turns, the mutex only makes the writer wait: two
  packets with URLs \<open>u\<close> and \<open>v\<close> may add \<open>v\<close> alone to the
  file, and leave the threads blocked; \<open>v\<close> may be written twice, once with the
  address of the packet of \<open>u\<close>; \<open>u\<close> may get the address of the packet
  of \<open>v\<close>; a link to \<open>u\<close> may show \<open>v\<close>; and a line may hold
  a URL of neither packet, the first \<open>n\<close> characters of \<open>v\<close> and the rest
  of \<open>u\<close>.
\<close>

theorem urls_lost_repeated_misattributed:
  assumes "urls_ok [u, v]" and "n \<le> length u" and "n \<le> length v"
  shows "(\<exists>s. log_run (log_start [(a, Some u), (b, Some v)]) s \<and> lines_added s = [(v, v, b)] \<and>
      (\<nexists>t. log_step s t)) \<and>
    may_hold [(a, Some u), (b, Some v)] [(v, v, a), (v, v, b)] \<and>
    may_hold [(a, Some u), (b, Some v)] [(u, u, b)] \<and>
    may_hold [(a, Some u), (b, Some v)] [(u, v, a)] \<and>
    may_hold [(a, Some u), (b, Some v)] [(take n v @ drop n u, take n v @ drop n u, a)]"
  using runs_lost [of u v a b] runs_repeated runs_misattributed runs_mixed runs_torn assms by auto

section \<open>The sniffer of the model and the code\<close>

text \<open>The state of the threads that a state of the sniffer stands for.\<close>

definition shows_sniffer :: "url_log \<Rightarrow> sniffer \<Rightarrow> bool" where
  "shows_sniffer s st \<longleftrightarrow> s_pc s = Receive \<and> url_array s = url_to_file st \<and>
     shared_ip s = lst_ip st \<and> locked s = url_locked st"

definition new_packets :: "sniffer \<Rightarrow> sniffer \<Rightarrow> (u32 \<times> u8 list option) list" where
  "new_packets st st' = (if net16 (frame st) 12 = Inr ETHERTYPE_IP
     then [(lst_ip st', if saved st' = saved st then None else Some (fst (last (saved st'))))] else [])"

lemma sniff_frame_run:
  assumes "sniff_frame url st = Inr st'" and "shows_sniffer s st"
    and "packets s = new_packets st st' @ ps"
  shows "\<exists>t. log_run s t \<and> shows_sniffer t st' \<and> packets t = ps \<and> lines_added t = lines_added s \<and>
    w_pc t = w_pc s"
proof (cases "net16 (frame st) 12 = Inr ETHERTYPE_IP")
  case False
  then have "st' = st" "packets s = ps" using assms by (auto simp: sniff_frame_def seqE_eq_Inr new_packets_def)
  then show ?thesis using assms(2) by blast
next
  case ip: True
  then have pkts: "packets s =
      (lst_ip st', if saved st' = saved st then None else Some (fst (last (saved st')))) # ps"
    using assms(3) by (simp add: new_packets_def)
  show ?thesis
  proof (cases "st' = st\<lparr>lst_ip := lst_ip st'\<rparr>")
    case True
    have eq: "saved st' = saved st" "url_to_file st' = url_to_file st" "url_locked st' = url_locked st"
      by (subst True, simp)+
    let ?t = "s\<lparr>packets := ps, shared_ip := lst_ip st', s_pc := Receive\<rparr>"
    have "log_run s ?t"
      using log_step.receive [of s "lst_ip st'" None ps] assms(2) pkts eq by (auto simp: shows_sniffer_def)
    then show ?thesis
      using assms(2) eq by (intro exI [of _ ?t]) (simp add: shows_sniffer_def)
  next
    case False
    then obtain u where u: "saves_url u st st'" using sniff_frame_saves [OF assms(1)] by auto
    let ?t = "s\<lparr>packets := ps, shared_ip := lst_ip st', url_array := str_over u (url_array s),
        copied := copied s @ [u], locked := False, s_pc := Receive\<rparr>"
    have "log_run s ?t"
      using run_receive [of s "lst_ip st'" u ps] assms(2) pkts u by (simp add: shows_sniffer_def saves_url_def)
    then show ?thesis
      using assms(2) u by (intro exI [of _ ?t]) (simp add: shows_sniffer_def saves_url_def)
  qed
qed

text \<open>
  C15. The steps of the sniffer thread are those of the code: whatever \<open>sniff_frame\<close>
  does on a frame, the thread model does in steps of its sniffer, from any state with the same
  shared variables to one with the same shared variables, byte for byte, and without touching the
  file; an IPv4 frame is a packet of the model, and its URL the one the code printed.
\<close>

theorem sniffer_refines_log:
  assumes "sniff_frame url st = Inr st'" and "shows_sniffer s st"
    and "packets s = new_packets st st' @ ps"
  shows "\<exists>t. log_run s t \<and> shows_sniffer t st' \<and> packets t = ps \<and> lines_added t = lines_added s \<and>
    w_pc t = w_pc s"
  using sniff_frame_run [OF assms] .

section \<open>The lines of the file\<close>

text \<open>
  A line tells its link, its text and its address, for links without a quotation mark and texts
  without a \<open><\<close>.
\<close>

lemma text_of_avoids:
  assumes "b \<notin> set w"
  shows "set (text_of w) \<subseteq> - {char_of (unat b)}"
proof -
  have "c = b" if "char_of (unat c) = (char_of (unat b) :: char)" for c
    using that text_of_inject [of "[c]" "[b]"] by simp
  then show ?thesis using assms by auto
qed

lemma url_line_inject:
  assumes "url_line (u, u', a) = url_line (v, v', b)" and "34 \<notin> set u" and "34 \<notin> set v"
    and "60 \<notin> set u'" and "60 \<notin> set v'"
  shows "u = v \<and> u' = v' \<and> a = b"
proof -
  have quote: "char_of (unat (34 :: u8)) = CHR 0x22" and less: "char_of (unat (60 :: u8)) = CHR ''<''"
    by (simp_all add: char_of_def bit_0)
  have eq: "text_of u @ CHR 0x22 # (CHR ''>'' # text_of u' @ ''</a> - '' @ inet_ntoa a @ ''</li>'' @ [CHR 0x0A, CHR '' '']) =
      text_of v @ CHR 0x22 # (CHR ''>'' # text_of v' @ ''</a> - '' @ inet_ntoa b @ ''</li>'' @ [CHR 0x0A, CHR '' ''])"
    using assms(1) by (simp add: url_line_def)
  note link = split_at_first [OF eq text_of_avoids [OF assms(2), unfolded quote]
      text_of_avoids [OF assms(3), unfolded quote]]
  then have "text_of u' @ CHR ''<'' # (''/a> - '' @ inet_ntoa a @ ''</li>'' @ [CHR 0x0A, CHR '' '']) =
      text_of v' @ CHR ''<'' # (''/a> - '' @ inet_ntoa b @ ''</li>'' @ [CHR 0x0A, CHR '' ''])"
    by simp
  note shown = split_at_first [OF this text_of_avoids [OF assms(4), unfolded less]
      text_of_avoids [OF assms(5), unfolded less]]
  have "u = v" "u' = v'" using link shown by (auto intro: text_of_inject)
  moreover have "a = b" using shown by (auto intro: inet_ntoa_inject)
  ultimately show ?thesis by simp
qed

section \<open>Instances\<close>

lemma sample_urls_ok: "urls_ok [[97], [98]]"
  by (simp add: c_consts)

theorem log_lines_captured_witness:
  "\<exists>s. log_run (log_start [(5, Some [97]), (6, Some [98])]) s \<and> lines_added s = [([98], [98], 6)] \<and>
     made_of {[97], [98]} [98] \<and> length (lines_added s) \<le> 2"
proof -
  obtain s where s: "log_run (log_start [(5, Some [97]), (6, Some [98])]) s"
      "lines_added s = [([98], [98], 6)]"
    using runs_lost [OF sample_urls_ok] by blast
  from log_lines_captured [OF s(1), of "[]"] sample_urls_ok s show ?thesis by auto
qed

theorem last_url_written_witness:
  "\<exists>s. log_run (log_start [(5, Some [97]), (6, Some [98])]) s \<and> fst (last (lines_added s)) = [98]"
proof -
  obtain s where s: "log_run (log_start [(5, Some [97]), (6, Some [98])]) s"
      "w_pc s = Lock" "\<nexists>t. log_step s t"
    using runs_lost [OF sample_urls_ok] by blast
  from last_url_written [OF s(1) _ s(3)] sample_urls_ok s show ?thesis by auto
qed

theorem urls_lost_repeated_misattributed_witness:
  "may_hold [(5, Some [97, 98]), (6, Some [99, 100])] [([99, 98], [99, 98], 5)]"
  using urls_lost_repeated_misattributed [of "[97, 98]" "[99, 100]" 1 5 6] by (simp add: c_consts)

lemma url_line_inject_witness:
  "url_line ([97, 98], [97], 5) \<noteq> url_line ([97], [97], 5)"
  using url_line_inject [of "[97, 98]" "[97]" 5 "[97]" "[97]" 5] by auto

theorem sniffer_refines_log_witness:
  "\<exists>st' t. sniff_frame (replicate 2048 7) (sample_sniffer sample_get) = Inr st' \<and>
     log_run ((log_start [(ld32 [10, 32, 143, 5], Some [98, 46, 99, 47, 97])])\<lparr>w_pc := Lock\<rparr>) t \<and>
     shows_sniffer t st'"
proof -
  have "length sample_host + length sample_path = 5" by (simp add: sample_bytes)
  then obtain st' where st': "sniff_frame (replicate 2048 7) (sample_sniffer sample_get) = Inr st'"
      "lst_ip st' = ld32 [10, 32, 143, 5]" "saved st' = [([98, 46, 99, 47, 97], ld32 [10, 32, 143, 5])]"
    using sniff_http_request [OF sample_get_frame [unfolded get_request_def] sample_sizes _ _ _ sample_front_ok,
        of "replicate 2048 7"]
    by (auto simp: sample_bytes tcp_rest_def c_consts)
  have ip: "net16 (frame (sample_sniffer sample_get)) 12 = Inr ETHERTYPE_IP"
    unfolding sample_get_frame
    by (subst net16_at) (auto simp: ip_packet_def c_consts)
  let ?s = "(log_start [(ld32 [10, 32, 143, 5], Some [98, 46, 99, 47, 97])])\<lparr>w_pc := Lock\<rparr>"
  have "shows_sniffer ?s (sample_sniffer sample_get)"
    by (simp add: shows_sniffer_def log_start_def sample_sniffer_def c_consts)
  moreover have "packets ?s = new_packets (sample_sniffer sample_get) st' @ []"
    using ip st' by (simp add: new_packets_def log_start_def)
  ultimately show ?thesis using sniffer_refines_log [OF st'(1)] st'(1) by blast
qed

end
