(* ===== verification/Util_Flags.thy ===== *)
theory Util_Flags
  imports C_Memory C_Print
begin

text \<open>
  The command line and the debug output of the two larger programs: \<open>TF/util.c\<close> and
  \<open>T1/util.c\<close>, whose \<open>get_initial_flags\<close> differs by a case for the
  option \<open>a\<close> and a buffer for its argument. \<open>getopt\<close> is written out for
  an option string without arguments, as on the BSD systems the programs are written for: it
  stops at the first argument that is no option. An argument is its bytes without the terminating
  0; the text of a \<open>d_printf\<close> is given.
\<close>

section \<open>getopt\<close>

definition OPTSTRING :: "u8 list" where [c_consts]: "OPTSTRING = [118]"
definition MAX_IP_ADDR :: nat where [c_consts]: "MAX_IP_ADDR = 41"

text \<open>
  The state of \<open>getopt\<close>: the arguments that are left, without the part of the first
  one that is read, and whether the reading is inside that argument.
\<close>

record opt_state =
  args :: "u8 list list"
  inside :: bool

definition opt_arg :: "u8 list \<Rightarrow> bool" where
  "opt_arg a \<longleftrightarrow> 2 \<le> length a \<and> hd a = 45 \<and> a \<noteq> [45, 45]"

definition next_char :: "u8 list \<Rightarrow> u8 \<Rightarrow> u8 list \<Rightarrow> u8 list list \<Rightarrow> u8 option \<times> opt_state" where
  "next_char optstring c r rest =
     (Some (if c \<in> set optstring then c else 63),
      if r = [] then \<lparr>args = rest, inside = False\<rparr> else \<lparr>args = r # rest, inside = True\<rparr>)"

text \<open>\<open>None\<close> is the result -1.\<close>

definition getopt :: "u8 list \<Rightarrow> opt_state \<Rightarrow> u8 option \<times> opt_state" where
  "getopt optstring st =
     (case args st of
        [] \<Rightarrow> (None, st)
      | a # rest \<Rightarrow>
          if inside st
          then (case a of [] \<Rightarrow> (None, st) | c # r \<Rightarrow> next_char optstring c r rest)
          else if opt_arg a then next_char optstring (a ! 1) (drop 2 a) rest
          else if a = [45, 45] then (None, st\<lparr>args := rest\<rparr>)
          else (None, st))"

definition opt_measure :: "opt_state \<Rightarrow> nat" where
  "opt_measure st = sum_list (map (\<lambda>a. length a) (args st))"

lemma opt_arg_parts: "opt_arg a \<Longrightarrow> tl a = a ! 1 # drop 2 a"
  by (cases a; cases "tl a") (auto simp: opt_arg_def)

lemma next_char_measure:
  "next_char optstring c r rest = (d, st') \<Longrightarrow> opt_measure st' = length r + sum_list (map length rest)"
  by (auto simp: next_char_def opt_measure_def split: if_splits)

lemma getopt_shorter:
  assumes "getopt optstring st = (Some c, st')"
  shows "opt_measure st' < opt_measure st"
proof (cases "args st")
  case Nil
  then show ?thesis using assms by (simp add: getopt_def)
next
  case (Cons a rest)
  show ?thesis
  proof (cases "inside st")
    case True
    then obtain d r where "a = d # r" "next_char optstring d r rest = (Some c, st')"
      using assms Cons by (cases a) (auto simp: getopt_def)
    then show ?thesis using Cons next_char_measure by (fastforce simp: opt_measure_def)
  next
    case False
    then have "opt_arg a" "next_char optstring (a ! 1) (drop 2 a) rest = (Some c, st')"
      using assms Cons by (auto simp: getopt_def split: if_splits)
    moreover from this have "length (drop 2 a) < length a" by (auto simp: opt_arg_def)
    ultimately show ?thesis using Cons next_char_measure by (fastforce simp: opt_measure_def)
  qed
qed

section \<open>The flags\<close>

function flags_loop :: "opt_state \<Rightarrow> int \<Rightarrow> int" where
  "flags_loop st verbose_mode =
     (case getopt OPTSTRING st of
        (None, st') \<Rightarrow> verbose_mode
      | (Some c, st') \<Rightarrow> flags_loop st' (if c = 118 then 1 else verbose_mode))"
  by pat_completeness auto

termination
  by (relation "measure (\<lambda>(st, v). opt_measure st)") (auto dest: getopt_shorter [OF sym])

declare flags_loop.simps [simp del]

definition get_initial_flags :: "u8 list list \<Rightarrow> int \<Rightarrow> int" where
  "get_initial_flags argv verbose_mode = flags_loop \<lparr>args = tl argv, inside = False\<rparr> verbose_mode"

definition d_printf :: "int \<Rightarrow> string \<Rightarrow> string \<Rightarrow> string" where
  "d_printf verbose_mode format_text out = (if verbose_mode = 0 then out else out @ format_text)"

text \<open>What \<open>d_printf\<close> adds to the text, at each output level.\<close>

definition level_text :: "int \<Rightarrow> string \<Rightarrow> string" where
  "level_text v t = (if v = 0 then [] else t)"

lemma d_printf_shown: "d_printf v t out = out @ level_text v t"
  by (simp add: d_printf_def level_text_def)

lemma shown_quiet [simp]: "level_text 0 t = []"
  by (simp add: level_text_def)

text \<open>
  \<open>T1/util.c\<close>, with the case \<open>a\<close>, which copies \<open>optarg\<close> to
  \<open>str_v\<close> and runs into the next case.
\<close>

function t1_flags_loop ::
  "u8 list \<Rightarrow> opt_state \<Rightarrow> int \<times> u8 list \<Rightarrow> (int \<times> u8 list) outcome" where
  "t1_flags_loop optarg st (verbose_mode, str_v) =
     (case getopt OPTSTRING st of
        (None, st') \<Rightarrow> Inr (verbose_mode, str_v)
      | (Some c, st') \<Rightarrow>
          if c = 118 then t1_flags_loop optarg st' (1, str_v)
          else if c = 97
          then (case c_strcpy str_v optarg of
                  Inl e \<Rightarrow> Inl e
                | Inr str_v \<Rightarrow> t1_flags_loop optarg st' (verbose_mode, str_v))
          else t1_flags_loop optarg st' (verbose_mode, str_v))"
  by pat_completeness auto

termination
  by (relation "measure (\<lambda>(a, st, v). opt_measure st)") (auto dest: getopt_shorter [OF sym])

declare t1_flags_loop.simps [simp del]

definition t1_get_initial_flags ::
  "u8 list \<Rightarrow> u8 list list \<Rightarrow> int \<times> u8 list \<Rightarrow> (int \<times> u8 list) outcome" where
  "t1_get_initial_flags optarg argv = t1_flags_loop optarg \<lparr>args = tl argv, inside = False\<rparr>"

section \<open>What the options do\<close>

text \<open>The options among the arguments: the characters behind the dash, up to the first operand.\<close>

definition options :: "u8 list list \<Rightarrow> u8 list" where
  "options argv = concat (map tl (takeWhile opt_arg (tl argv)))"

fun left_options :: "opt_state \<Rightarrow> u8 list" where
  "left_options \<lparr>args = as, inside = True\<rparr> =
     (case as of [] \<Rightarrow> [] | a # rest \<Rightarrow> a @ concat (map tl (takeWhile opt_arg rest)))"
| "left_options \<lparr>args = as, inside = False\<rparr> = concat (map tl (takeWhile opt_arg as))"

definition opt_ok :: "opt_state \<Rightarrow> bool" where
  "opt_ok st \<longleftrightarrow> (inside st \<longrightarrow> args st \<noteq> [] \<and> hd (args st) \<noteq> [])"

lemma getopt_options:
  assumes "opt_ok st"
  shows "case left_options st of
      [] \<Rightarrow> fst (getopt optstring st) = None
    | c # cs \<Rightarrow> \<exists>st'. getopt optstring st = (Some (if c \<in> set optstring then c else 63), st') \<and>
        opt_ok st' \<and> left_options st' = cs"
proof (cases st)
  case (fields as ins)
  show ?thesis
    using assms
    by (cases ins; cases as)
      (auto simp: fields getopt_def next_char_def opt_ok_def opt_arg_parts split: list.splits)
qed

lemma flags_loop_result:
  assumes "opt_ok st"
  shows "flags_loop st v = (if 118 \<in> set (left_options st) then 1 else v)"
  using assms
proof (induction "left_options st" arbitrary: st v)
  case Nil
  then obtain st' where "getopt OPTSTRING st = (None, st')"
    using getopt_options [OF Nil.prems, of OPTSTRING] by (cases "getopt OPTSTRING st") simp
  then show ?case using Nil by (subst flags_loop.simps) simp
next
  case (Cons c cs)
  obtain st' where st': "getopt OPTSTRING st = (Some (if c \<in> set OPTSTRING then c else 63), st')"
      "opt_ok st'" "left_options st' = cs"
    using getopt_options [OF Cons.prems, of OPTSTRING] Cons.hyps(2) [symmetric] by auto
  have "flags_loop st v = flags_loop st' (if c = 118 then 1 else v)"
    by (subst flags_loop.simps, simp only: st'(1) prod.case option.case) (simp add: OPTSTRING_def)
  also have "\<dots> = (if 118 \<in> set cs then 1 else if c = 118 then 1 else v)"
    using Cons.hyps(1) [OF st'(3) [symmetric] st'(2)] st'(3) by simp
  finally show ?case using Cons.hyps(2) [symmetric] by auto
qed

lemma t1_flags_loop_result:
  assumes "opt_ok st"
  shows "t1_flags_loop optarg st (v, str_v) = Inr (if 118 \<in> set (left_options st) then 1 else v, str_v)"
  using assms
proof (induction "left_options st" arbitrary: st v)
  case Nil
  then obtain st' where "getopt OPTSTRING st = (None, st')"
    using getopt_options [OF Nil.prems, of OPTSTRING] by (cases "getopt OPTSTRING st") simp
  then show ?case using Nil by (subst t1_flags_loop.simps) simp
next
  case (Cons c cs)
  obtain st' where st': "getopt OPTSTRING st = (Some (if c \<in> set OPTSTRING then c else 63), st')"
      "opt_ok st'" "left_options st' = cs"
    using getopt_options [OF Cons.prems, of OPTSTRING] Cons.hyps(2) [symmetric] by auto
  have "t1_flags_loop optarg st (v, str_v) = t1_flags_loop optarg st' (if c = 118 then 1 else v, str_v)"
    by (subst t1_flags_loop.simps, simp only: st'(1) prod.case option.case) (simp add: OPTSTRING_def)
  also have "\<dots> = Inr (if 118 \<in> set cs then 1 else if c = 118 then 1 else v, str_v)"
    using Cons.hyps(1) [OF st'(3) [symmetric] st'(2)] st'(3) by simp
  finally show ?case using Cons.hyps(2) [symmetric] by auto
qed

lemma t1_flags_result:
  "t1_get_initial_flags optarg argv (v, str_v) = Inr (if 118 \<in> set (options argv) then 1 else v, str_v)"
  using t1_flags_loop_result [of "\<lparr>args = tl argv, inside = False\<rparr>"]
  by (simp add: t1_get_initial_flags_def options_def opt_ok_def)

lemma flags_result: "get_initial_flags argv v = (if 118 \<in> set (options argv) then 1 else v)"
  using flags_loop_result [of "\<lparr>args = tl argv, inside = False\<rparr>"]
  by (simp add: get_initial_flags_def options_def opt_ok_def)

text \<open>
  The command line: reading the options ends for every argument vector, and the debug output is
  turned on exactly when a \<open>v\<close> stands in one of the options before the first
  operand. The second program does the same and never stores an argument in \<open>str_v\<close>:
  the case of the option \<open>a\<close> is dead code, because the option string has no
  \<open>a\<close>, so its target address stays empty.
\<close>

lemma flags_from_options:
  "get_initial_flags argv v = (if 118 \<in> set (options argv) then 1 else v) \<and>
   t1_get_initial_flags optarg argv (v, str_v) = Inr (if 118 \<in> set (options argv) then 1 else v, str_v) \<and>
   d_printf (get_initial_flags argv 0) format_text out =
     (if 118 \<in> set (options argv) then out @ format_text else out)"
  using flags_result t1_flags_result by (simp add: d_printf_def)

end
