(* ===== verification/Tf_Program.thy ===== *)
theory Tf_Program
  imports App_Init Dhcp_Properties Url_Log Util_Flags
begin

text \<open>
  The program of \<open>TF/\<close> as a whole: the loop of \<open>init_sniffer\<close> and
  \<open>main\<close> of \<open>TF/Application.c\<close>. \<open>url_file_of_run\<close> puts the
  sniffer and the threads of \<open>Url_Log\<close> together. The DHCP thread and the sniffer
  share no variable they write after \<open>init\<close>, so a run is given by the packets of the
  one and the frames of the other, in whatever order they come; what the sniffer and the writer
  share is the subject of \<open>Url_Log\<close>. The results of \<open>pthread_create\<close>
  are parameters. What becomes of the process when a thread fails is the subject of
  \<open>Tf_Process\<close>.
\<close>

section \<open>The program\<close>

text \<open>A round takes what \<open>read\<close> gives, the memory behind the cleared buffer, and the array \<open>url\<close>.\<close>

definition init_sniffer ::
  "nat \<Rightarrow> (read_result \<times> u8 list \<times> u8 list) list \<Rightarrow> sniffer \<Rightarrow> sniffer outcome" where
  "init_sniffer bl = foldE (\<lambda>(rd, stack, url). sniff_round rd stack bl url)"

text \<open>The frame object is cleared by \<open>calloc\<close>, and \<open>main\<close> has locked the mutex.\<close>

definition sniffer_start :: sniffer where
  "sniffer_start = \<lparr>frame = replicate (ETHER_HDR_LEN + ETHER_MAX_LEN - ETHER_HDR_LEN) 0, lst_ip = 0,
     url_to_file = replicate MAX_URL_L 0, url_locked = True, saved = []\<rparr>"

record tf_env =
  tf_eth :: eth_env
  tf_dhcp_created :: int
  tf_url_created :: int
  tf_packets :: "(recv_env \<times> send_env) list"
  tf_frames :: "(read_result \<times> u8 list \<times> u8 list) list"

text \<open>\<open>server\<close> is \<open>None\<close> when the thread was not created.\<close>

record tf_run =
  verbose :: int
  globals :: app_globals
  server :: "dhcp_srv outcome option option"
  writer_runs :: bool
  sniffed :: "sniffer outcome"

definition tf_main :: "tf_env \<Rightarrow> u8 list list \<Rightarrow> tf_run outcome" where
  "tf_main env argv =
     (let v = get_initial_flags argv 0
      in seqE (app_init (ifas (tf_eth env)) (tf_eth env) globals_start) (\<lambda>g.
         Inr \<lparr>verbose = v, globals = g,
           server = (if tf_dhcp_created env \<noteq> 0 then None
             else Some (init_DHCP_server (conf g) (tf_packets env) srv_start)),
           writer_runs = (tf_url_created env = 0),
           sniffed = init_sniffer (buf_size (eth g)) (tf_frames env) sniffer_start\<rparr>))"

section \<open>The addresses of a run\<close>

text \<open>
  C3. From the interface to the clients: on a host with a usable interface whose DHCP thread gets
  nothing but complete handshakes, each a DISCOVER and its REQUEST before the next begins, the
  \<open>k\<close>-th of them is offered and given the network part of the interface's address
  plus 40 + \<open>k\<close>, and of up to 2 to the 32 such handshakes no two get the same.
  Handshakes that overlap may get the same.
\<close>

theorem clients_get_interface_subnet:
  assumes "\<forall>it \<in> set (ifas (tf_eth env)). ifa_complete it" and "find usable (ifas (tf_eth env)) = Some it"
    and "length (ifr_stack (tf_eth env)) = IFNAMSIZ" and "tf_dhcp_created env = 0"
    and "list_all2 carries (tf_packets env) (concat (map handshake ts))" and "length ts \<le> 2 ^ 32"
    and "given = (\<lambda>k. (snd (the (ifa_addr it)) AND the (ifa_netmask it)) + htonl (40 + of_nat k))"
  shows "\<exists>run s. tf_main env argv = Inr run \<and> server run = Some (Some (Inr s)) \<and>
    map reply_own_ip (sent s) = concat (map (\<lambda>k. [given k, given k]) [0..<length ts]) \<and>
    distinct (map given [0..<length ts])"
proof -
  obtain g where g: "app_init (ifas (tf_eth env)) (tf_eth env) globals_start = Inr g"
      "conf g = \<lparr>my_ip = snd (the (ifa_addr it)), sub_addr = the (ifa_netmask it), dns_addr = DNS_SRV_ADDR\<rparr>"
    using init_one_interface [OF assms(1-3)] by blast
  have start: "pool_wf (pool srv_start)" "cur_ip srv_start = 40" "sent srv_start = []"
    using wf_start_pool by (simp_all add: srv_start_def)
  have given: "get_cur_ip (conf g) (40 + of_nat k) = given k" for k
    by (simp add: get_cur_ip_def g(2) assms(7))
  from handshake_addresses [OF assms(5) start(1) assms(6), of "conf g"] show ?thesis
    using g(1) by (auto simp: tf_main_def assms(4) start(2,3) given)
qed

section \<open>Packets\<close>

text \<open>
  What the device delivers at one \<open>read\<close>: a BPF header, an IPv4 packet without
  options and whatever other packets were captured meanwhile, \<open>rc_more\<close>, which no
  code looks at. \<open>rc_stack\<close> and \<open>rc_url\<close> are what the local arrays
  hold.
\<close>

record ip_capture =
  rc_hdr :: "u8 list"
  rc_macs :: "u8 list"
  rc_ip :: "u8 list"
  rc_chk :: "u8 list"
  rc_src :: "u8 list"
  rc_dst :: "u8 list"
  rc_ports :: "u8 list"
  rc_more :: "u8 list"
  rc_stack :: "u8 list"
  rc_url :: "u8 list"

definition ip_read :: "'a ip_capture_scheme \<Rightarrow> u8 list \<Rightarrow> read_result \<times> u8 list \<times> u8 list" where
  "ip_read c pkt = (ReadBytes (rc_hdr c @ pkt @ rc_more c), rc_stack c, rc_url c)"

definition ip_ok :: "nat \<Rightarrow> 'a ip_capture_scheme \<Rightarrow> u8 list \<Rightarrow> bool" where
  "ip_ok bl c pkt \<longleftrightarrow> read_fits bl (rc_hdr c) (pkt @ rc_more c) \<and> length pkt \<le> 1518 \<and>
     ip_sizes (rc_macs c) (rc_ip c) (rc_chk c) (rc_src c) (rc_dst c) \<and> length (rc_ports c) = 2 \<and>
     length (rc_url c) = MAX_URL_L"

text \<open>
  A page request: a TCP segment to port 80 whose data begins with a request line and a
  \<open>Host\<close> line, with any other header lines between and anything behind them. Host
  and path fit the arrays.
\<close>

record request_capture = ip_capture +
  rc_seq :: "u8 list"
  rc_off :: u8
  rc_ctl :: "u8 list"
  rc_method :: "u8 list"
  rc_path :: "u8 list"
  rc_headers :: "u8 list"
  rc_host :: "u8 list"
  rc_rest :: "u8 list"

definition rc_packet :: "request_capture \<Rightarrow> u8 list \<Rightarrow> u8 list" where
  "rc_packet c tail = ip_packet (rc_macs c) (rc_ip c) TCP_PROT (rc_chk c) (rc_src c) (rc_dst c)
     (rc_ports c @ [0, 80] @ rc_seq c @ [rc_off c] @ rc_ctl c @
      http_request (rc_method c) (rc_path c) (rc_headers c) (rc_host c) (rc_rest c @ tail))"

definition request_ok :: "nat \<Rightarrow> request_capture \<Rightarrow> bool" where
  "request_ok bl c \<longleftrightarrow> ip_ok bl c (rc_packet c []) \<and> length (rc_seq c) = 8 \<and>
     tcp_rest (rc_off c) (rc_ctl c) \<and> front_ok (rc_method c) (rc_path c) (rc_headers c) \<and>
     (\<forall>b \<in> set (rc_host c). b \<notin> {0, 10, 13}) \<and> length (rc_host c) + length (rc_path c) < MAX_URL_L"

text \<open>A name look-up: a UDP datagram to port 53 with a DNS query.\<close>

record query_capture = ip_capture +
  qc_len_chk :: "u8 list"
  qc_xid :: "u8 list"
  qc_hi :: u8
  qc_lo :: u8
  qc_counts :: "u8 list"
  qc_name :: "u8 list list"
  qc_rest :: "u8 list"

definition qc_packet :: "query_capture \<Rightarrow> u8 list \<Rightarrow> u8 list" where
  "qc_packet c tail = ip_packet (rc_macs c) (rc_ip c) UDP_PROT (rc_chk c) (rc_src c) (rc_dst c)
     (rc_ports c @ [0, 53] @ qc_len_chk c @ qc_xid c @ [qc_hi c, qc_lo c] @ qc_counts c @
      wire_name (qc_name c) @ (qc_rest c @ tail))"

definition query_ok :: "nat \<Rightarrow> query_capture \<Rightarrow> bool" where
  "query_ok bl c \<longleftrightarrow> ip_ok bl c (qc_packet c []) \<and> length (qc_len_chk c) = 4 \<and> length (qc_xid c) = 2 \<and>
     qc_hi c < 128 \<and> length (qc_counts c) = 8 \<and> list_all label_ok (qc_name c) \<and> qc_name c \<noteq> [] \<and>
     length (dotted (qc_name c)) < MAX_QR_L"

text \<open>A look-up whose name does not fit the array, or is that of the root, without a label.\<close>

definition bad_query :: "nat \<Rightarrow> query_capture \<Rightarrow> bool" where
  "bad_query bl c \<longleftrightarrow> ip_ok bl c (qc_packet c []) \<and> length (qc_len_chk c) = 4 \<and> length (qc_xid c) = 2 \<and>
     qc_hi c < 128 \<and> length (qc_counts c) = 8 \<and> list_all label_ok (qc_name c) \<and>
     (qc_name c = [] \<or> MAX_QR_L \<le> length (dotted (qc_name c)))"

text \<open>
  The traffic of a network, one element for each \<open>read\<close>. \<open>Other\<close> has a
  header, the bytes behind it and what the local arrays hold.
\<close>

datatype traffic =
    Page request_capture
  | Lookup query_capture
  | Other "u8 list" "u8 list" "u8 list" "u8 list"
  | FailedRead "u8 list" "u8 list"

fun tr_read :: "traffic \<Rightarrow> read_result \<times> u8 list \<times> u8 list" where
  "tr_read (Page c) = ip_read c (rc_packet c [])"
| "tr_read (Lookup c) = ip_read c (qc_packet c [])"
| "tr_read (Other hdr pkts stack url) = (ReadBytes (hdr @ pkts), stack, url)"
| "tr_read (FailedRead stack url) = (ReadError, stack, url)"

fun traffic_ok :: "nat \<Rightarrow> traffic \<Rightarrow> bool" where
  "traffic_ok bl (Page c) = request_ok bl c"
| "traffic_ok bl (Lookup c) = query_ok bl c"
| "traffic_ok bl (Other hdr pkts stack url) = (read_fits bl hdr pkts \<and> asks_nothing (delivered hdr pkts))"
| "traffic_ok bl (FailedRead stack url) = (1518 \<le> bl)"

text \<open>What is asked for, and by which address.\<close>

fun tr_entries :: "traffic \<Rightarrow> (u8 list \<times> u32) list" where
  "tr_entries (Page c) = [(rc_host c @ rc_path c, ld32 (rc_src c))]"
| "tr_entries (Lookup c) = [(butlast (dotted (qc_name c)), ld32 (rc_src c))]"
| "tr_entries (Other hdr pkts stack url) = []"
| "tr_entries (FailedRead stack url) = []"

definition entries :: "traffic list \<Rightarrow> (u8 list \<times> u32) list" where
  "entries ts = concat (map tr_entries ts)"

lemma entries_simps [simp]: "entries [] = []" "entries (t # ts) = tr_entries t @ entries ts"
  by (simp_all add: entries_def)

definition sniffer_wf :: "sniffer \<Rightarrow> bool" where
  "sniffer_wf st \<longleftrightarrow> length (frame st) = 1518 \<and> length (url_to_file st) = MAX_URL_L"

lemma wf_sniffer_start: "sniffer_wf sniffer_start" "saved sniffer_start = []"
  by (simp_all add: sniffer_wf_def sniffer_start_def c_consts)

section \<open>The URLs of a run\<close>

text \<open>A round saves the entries \<open>es\<close>, and frees the mutex if there are any.\<close>

definition saves :: "(u8 list \<times> u32) list \<Rightarrow> sniffer \<Rightarrow> sniffer \<Rightarrow> bool" where
  "saves es st st' \<longleftrightarrow> sniffer_wf st' \<and> saved st' = saved st @ es \<and>
     url_locked st' = (es = [] \<and> url_locked st)"

lemma delivered_packet:
  assumes "length pkt \<le> 1518"
  shows "\<exists>tail. delivered hdr (pkt @ rest) = pkt @ tail"
  using assms by (simp add: delivered_def)

lemma ip_round:
  assumes "ip_ok bl c pkt" and "sniffer_wf st"
  shows "\<exists>n tail. wait_eth_frame (ReadBytes (rc_hdr c @ pkt @ rc_more c)) (rc_stack c) bl (frame st) =
    Inr (n, pkt @ tail) \<and> length (pkt @ tail) = 1518"
proof -
  let ?d = "delivered (rc_hdr c) (pkt @ rc_more c)"
  have "length ?d \<le> 1518" by (simp add: delivered_def)
  then have "length (?d @ drop (length ?d) (frame st)) = 1518" using assms(2) by (simp add: sniffer_wf_def)
  moreover obtain tail where "?d = pkt @ tail"
    using delivered_packet [of pkt "rc_hdr c" "rc_more c"] assms(1) by (auto simp: ip_ok_def)
  ultimately show ?thesis
    using wait_eth_frame_block [of bl "rc_hdr c" "pkt @ rc_more c" "frame st" "rc_stack c"] assms
    by (auto simp: ip_ok_def sniffer_wf_def)
qed

lemma page_round:
  assumes "request_ok bl c" and "sniffer_wf st"
  shows "\<exists>st'. sniff_round (ReadBytes (rc_hdr c @ rc_packet c [] @ rc_more c)) (rc_stack c) bl (rc_url c) st = Inr st' \<and>
    saves (tr_entries (Page c)) st st'"
proof -
  obtain n tail where wait: "wait_eth_frame (ReadBytes (rc_hdr c @ rc_packet c [] @ rc_more c)) (rc_stack c) bl
      (frame st) = Inr (n, rc_packet c [] @ tail)" and len: "length (rc_packet c [] @ tail) = 1518"
    using ip_round [of bl c "rc_packet c []" st] assms by (auto simp: request_ok_def)
  have f: "rc_packet c [] @ tail = rc_packet c tail"
    by (simp add: rc_packet_def ip_packet_def http_request_def)
  have "sniff_frame (rc_url c) (st\<lparr>frame := rc_packet c tail\<rparr>) =
      Inr (st\<lparr>frame := rc_packet c tail, lst_ip := ld32 (rc_src c),
        url_to_file := (rc_host c @ rc_path c) @ 0 # drop (length (rc_host c @ rc_path c) + 1) (url_to_file st),
        url_locked := False, saved := saved st @ [(rc_host c @ rc_path c, ld32 (rc_src c))]\<rparr>)"
    using sniff_http_request [of "st\<lparr>frame := rc_packet c tail\<rparr>"] assms
    by (simp add: rc_packet_def request_ok_def ip_ok_def sniffer_wf_def)
  then show ?thesis
    using wait len assms unfolding f
    by (simp add: sniff_round_def saves_def sniffer_wf_def request_ok_def)
qed

lemma lookup_round:
  assumes "query_ok bl c" and "sniffer_wf st"
  shows "\<exists>st'. sniff_round (ReadBytes (rc_hdr c @ qc_packet c [] @ rc_more c)) (rc_stack c) bl (rc_url c) st = Inr st' \<and>
    saves (tr_entries (Lookup c)) st st'"
proof -
  let ?name = "butlast (dotted (qc_name c))"
  obtain n tail where wait: "wait_eth_frame (ReadBytes (rc_hdr c @ qc_packet c [] @ rc_more c)) (rc_stack c) bl
      (frame st) = Inr (n, qc_packet c [] @ tail)" and len: "length (qc_packet c [] @ tail) = 1518"
    using ip_round [of bl c "qc_packet c []" st] assms by (auto simp: query_ok_def)
  have f: "qc_packet c [] @ tail = qc_packet c tail" by (simp add: qc_packet_def ip_packet_def)
  have "sniff_frame (rc_url c) (st\<lparr>frame := qc_packet c tail\<rparr>) =
      Inr (st\<lparr>frame := qc_packet c tail, lst_ip := ld32 (rc_src c),
        url_to_file := ?name @ 0 # drop (length ?name + 1) (url_to_file st),
        url_locked := False, saved := saved st @ [(?name, ld32 (rc_src c))]\<rparr>)"
    using query_round [of "st\<lparr>frame := qc_packet c tail\<rparr>"] assms
    by (simp add: qc_packet_def query_ok_def ip_ok_def sniffer_wf_def Let_def)
  moreover have "length ?name < MAX_URL_L" using assms(1) by (auto simp: query_ok_def c_consts)
  ultimately show ?thesis
    using wait len assms unfolding f by (simp add: sniff_round_def saves_def sniffer_wf_def)
qed

lemma bad_query_round:
  assumes "bad_query bl c" and "sniffer_wf st"
  shows "\<exists>e. sniff_round (ReadBytes (rc_hdr c @ qc_packet c [] @ rc_more c)) (rc_stack c) bl (rc_url c) st = Inl e \<and>
    e \<in> {BadRead, BadWrite} \<and> (qc_name c = [] \<longrightarrow> e = BadWrite)"
proof -
  obtain n tail where wait: "wait_eth_frame (ReadBytes (rc_hdr c @ qc_packet c [] @ rc_more c)) (rc_stack c) bl
      (frame st) = Inr (n, qc_packet c [] @ tail)"
    using ip_round [of bl c "qc_packet c []" st] assms by (auto simp: bad_query_def)
  have f: "qc_packet c [] @ tail = qc_packet c tail" by (simp add: qc_packet_def ip_packet_def)
  have "\<exists>e. sniff_frame (rc_url c) (st\<lparr>frame := qc_packet c tail\<rparr>) = Inl e \<and> e \<in> {BadRead, BadWrite} \<and>
      (qc_name c = [] \<longrightarrow> e = BadWrite)"
    by (rule query_faults [of _ "rc_macs c" "rc_ip c" "rc_chk c" "rc_src c" "rc_dst c" "rc_ports c" "qc_len_chk c"
        "qc_xid c" "qc_hi c" "qc_lo c" "qc_counts c" "qc_name c" "qc_rest c @ tail"])
      (use assms(1) in \<open>auto simp: bad_query_def ip_ok_def qc_packet_def [of c tail]\<close>)
  then show ?thesis using wait unfolding f by (auto simp: sniff_round_def)
qed

lemma other_round:
  assumes "wait_eth_frame rd stack bl (frame st) = Inr (n, d @ r)" and "asks_nothing d"
    and "length (d @ r) = 1518" and "sniffer_wf st"
  shows "\<exists>st'. sniff_round rd stack bl url st = Inr st' \<and> saves [] st st'"
proof -
  obtain a where "sniff_frame url (st\<lparr>frame := d @ r\<rparr>) = Inr (st\<lparr>frame := d @ r, lst_ip := a\<rparr>)"
    using quiet_frame [OF assms(2), of "st\<lparr>frame := d @ r\<rparr>" r url] by auto
  then show ?thesis using assms by (simp add: sniff_round_def saves_def sniffer_wf_def)
qed

lemma zeros_ask_nothing: "asks_nothing (replicate 1518 0)"
proof -
  have "net16 (replicate 1518 0) 12 = Inr 0"
    using net16_at [of 12 "replicate 1518 0" 0 0 "replicate 1504 0"] by (simp flip: replicate_Suc)
  then show ?thesis by (simp add: asks_nothing_def web_request_def c_consts)
qed

lemma traffic_round:
  assumes "traffic_ok bl t" and "sniffer_wf st" and "tr_read t = (rd, stack, url)"
  shows "\<exists>st'. sniff_round rd stack bl url st = Inr st' \<and> saves (tr_entries t) st st'"
proof (cases t)
  case (Page c)
  then show ?thesis using page_round [of bl c st] assms by (auto simp: ip_read_def)
next
  case (Lookup c)
  then show ?thesis using lookup_round [of bl c st] assms by (auto simp: ip_read_def)
next
  case (Other hdr pkts stack' url')
  let ?d = "delivered hdr pkts"
  have "length ?d \<le> 1518" by (simp add: delivered_def)
  then show ?thesis
    using wait_eth_frame_block [of bl hdr pkts "frame st" stack] assms Other
      other_round [of "ReadBytes (hdr @ pkts)" stack bl st _ ?d "drop (length ?d) (frame st)" url]
    by (simp add: sniffer_wf_def)
next
  case (FailedRead stack' url')
  then show ?thesis
    using failed_read_reported_as_frame [of bl "frame st" stack] assms zeros_ask_nothing
      other_round [of ReadError stack bl st 1518 "replicate 1518 0" "[]" url]
    by (simp add: sniffer_wf_def)
qed

lemma traffic_saved:
  assumes "\<forall>t \<in> set ts. traffic_ok bl t" and "sniffer_wf st"
  shows "\<exists>st'. init_sniffer bl (map tr_read ts) st = Inr st' \<and> saves (entries ts) st st'"
  using assms
proof (induction ts arbitrary: st)
  case Nil
  then show ?case by (simp add: init_sniffer_def saves_def)
next
  case (Cons t ts)
  obtain rd stack url where t: "tr_read t = (rd, stack, url)" by (cases "tr_read t")
  obtain st1 where st1: "sniff_round rd stack bl url st = Inr st1" "saves (tr_entries t) st st1"
    using traffic_round [OF _ Cons.prems(2) t, of bl] Cons.prems(1) by auto
  then have "sniffer_wf st1" by (simp add: saves_def)
  then obtain st' where "init_sniffer bl (map tr_read ts) st1 = Inr st'" "saves (entries ts) st1 st'"
    using Cons.IH Cons.prems(1) by auto
  then show ?case using st1 by (auto simp: init_sniffer_def t saves_def)
qed

lemma captured_run:
  assumes "\<forall>it \<in> set (ifas (tf_eth env)). ifa_complete it" and "find usable (ifas (tf_eth env)) = Some it"
    and "length (ifr_stack (tf_eth env)) = IFNAMSIZ"
    and "attached (tf_eth env) it \<lparr>ifname = padded_name it, buf_size = 0, bpf = 0\<rparr> = (r, e)"
    and "tf_frames env = map tr_read ts" and "\<forall>t \<in> set ts. traffic_ok (buf_size e) t"
  shows "\<exists>run st. tf_main env argv = Inr run \<and> sniffed run = Inr st \<and>
    saved st = entries ts \<and> (entries ts \<noteq> [] \<longrightarrow> \<not> url_locked st)"
proof -
  obtain g where g: "app_init (ifas (tf_eth env)) (tf_eth env) globals_start = Inr g"
      "eth g = snd (attached (tf_eth env) it ((eth globals_start)\<lparr>ifname := padded_name it\<rparr>))"
    using init_one_interface [OF assms(1-3)] by blast
  have "eth g = e" using g(2) assms(4) by (simp add: globals_start_def)
  then show ?thesis
    using g(1) traffic_saved [OF assms(6) wf_sniffer_start(1)] assms(5) wf_sniffer_start(2)
    by (auto simp: tf_main_def Let_def saves_def)
qed

text \<open>
  C4. Every request in the traffic is saved: the device delivers any number of reads, in any
  order: page requests, name look-ups, failed reads, and packets of every other kind that ask for
  nothing (\<open>asks_nothing\<close>). Then the sniffer stores the URL of each page request,
  host and path, and the name of each look-up, in order, each with the source address of its
  packet, and nothing else, and after the last of them the mutex is free for the writer. The
  requests are the first packet of their read, in IPv4 without options, of the forms
  \<open>request_ok\<close> and \<open>query_ok\<close>; further packets of a read are dropped.
  The buffer is the one the device asked for when \<open>init\<close> attached it to the chosen
  interface.
\<close>

theorem captured_requests_saved:
  assumes "\<forall>it \<in> set (ifas (tf_eth env)). ifa_complete it" and "find usable (ifas (tf_eth env)) = Some it"
    and "length (ifr_stack (tf_eth env)) = IFNAMSIZ"
    and "attached (tf_eth env) it \<lparr>ifname = padded_name it, buf_size = 0, bpf = 0\<rparr> = (r, e)"
    and "tf_frames env = map tr_read ts" and "\<forall>t \<in> set ts. traffic_ok (buf_size e) t"
  shows "\<exists>run st. tf_main env argv = Inr run \<and> sniffed run = Inr st \<and>
    saved st = entries ts \<and> (entries ts \<noteq> [] \<longrightarrow> \<not> url_locked st)"
  using captured_run [OF assms] .

section \<open>The file of a run\<close>

text \<open>
  The packets of the thread model that a run of the sniffer stands for: every entry it saved is
  a URL that fits the array, and the thread model can take the same steps.
\<close>

definition entries_of :: "(u32 \<times> u8 list option) list \<Rightarrow> (u8 list \<times> u32) list" where
  "entries_of ps = map (\<lambda>(u, _, ip). (u, ip)) (lines_of ps)"

lemma entries_of_simps [simp]:
  "entries_of [] = []" "entries_of (ps @ qs) = entries_of ps @ entries_of qs"
  "entries_of [(ip, None)] = []" "entries_of [(ip, Some u)] = [(u, ip)]"
  by (simp_all add: entries_of_def lines_of_def)

lemma urls_of_entries: "urls_of ps = map fst (entries_of ps)"
proof (induction ps)
  case (Cons p ps)
  obtain ip u where "p = (ip, u)" by (cases p)
  then show ?case using Cons by (cases u) (simp_all add: entries_of_def lines_of_def)
qed simp

lemma sniff_frame_entries:
  assumes "sniff_frame url st = Inr st'" and "length (url_to_file st) = MAX_URL_L"
  shows "saved st' = saved st @ entries_of (new_packets st st') \<and>
    urls_ok (urls_of (new_packets st st')) \<and> length (url_to_file st') = MAX_URL_L"
proof (cases "st' = st\<lparr>lst_ip := lst_ip st'\<rparr>")
  case True
  have "saved st' = saved st" "url_to_file st' = url_to_file st"
    using arg_cong [OF True, of saved] arg_cong [OF True, of url_to_file] by simp_all
  then show ?thesis using assms(2) by (simp add: new_packets_def)
next
  case False
  then obtain u where u: "saves_url u st st'" "web_request (frame st)"
    using sniff_frame_saves [OF assms(1)] by auto
  then have "new_packets st st' = [(lst_ip st', Some u)]"
    by (simp add: new_packets_def saves_url_def web_request_def)
  then show ?thesis using u(1) assms(2) by (simp add: saves_url_def)
qed

lemma shows_sniffer_frame [simp]: "shows_sniffer s (st\<lparr>frame := f\<rparr>) = shows_sniffer s st"
  by (simp add: shows_sniffer_def)

lemma init_sniffer_log:
  assumes "init_sniffer bl frs st = Inr st'" and "length (url_to_file st) = MAX_URL_L"
  shows "\<exists>ps. saved st' = saved st @ entries_of ps \<and> urls_ok (urls_of ps) \<and>
    (\<forall>s qs. shows_sniffer s st \<and> packets s = ps @ qs \<longrightarrow>
      (\<exists>t. log_run s t \<and> shows_sniffer t st' \<and> packets t = qs \<and> lines_added t = lines_added s))"
  using assms
proof (induction frs arbitrary: st)
  case Nil
  then show ?case by (intro exI [of _ "[]"]) (auto simp: init_sniffer_def)
next
  case (Cons fr frs)
  obtain rd stack url where fr: "fr = (rd, stack, url)" by (cases fr)
  obtain f st1 where st1: "sniff_frame url (st\<lparr>frame := f\<rparr>) = Inr st1" "init_sniffer bl frs st1 = Inr st'"
    using Cons.prems(1) by (auto simp: init_sniffer_def fr sniff_round_def seqE_eq_Inr)
  let ?st = "st\<lparr>frame := f\<rparr>"
  note one = sniff_frame_entries [OF st1(1)]
  obtain ps where ps: "saved st' = saved st1 @ entries_of ps" "urls_ok (urls_of ps)"
      "\<And>s qs. shows_sniffer s st1 \<and> packets s = ps @ qs \<Longrightarrow>
        \<exists>t. log_run s t \<and> shows_sniffer t st' \<and> packets t = qs \<and> lines_added t = lines_added s"
    using Cons.IH [OF st1(2)] one Cons.prems(2) by auto
  let ?ps = "new_packets ?st st1 @ ps"
  have "saved st' = saved st @ entries_of ?ps" "urls_ok (urls_of ?ps)"
    using ps(1,2) one Cons.prems(2) by (auto simp: urls_of_entries urls_ok_def)
  moreover have "\<exists>t. log_run s t \<and> shows_sniffer t st' \<and> packets t = qs \<and> lines_added t = lines_added s"
    if s: "shows_sniffer s st \<and> packets s = ?ps @ qs" for s qs
  proof -
    obtain t where t: "log_run s t" "shows_sniffer t st1" "packets t = ps @ qs" "lines_added t = lines_added s"
      using sniff_frame_run [OF st1(1), of s "ps @ qs"] s by auto
    then show ?thesis using ps(3) [of t qs] by (metis rtranclp_trans)
  qed
  ultimately show ?case by blast
qed

text \<open>
  C5. What a run of the program can add to \<open>urls.htm\<close>: the sniffer saved the URLs of
  some packets \<open>ps\<close>, the threads can take the same steps for \<open>ps\<close>, and
  whatever the interleaving for \<open>ps\<close>, the file holds what it held before and then
  lines of this kind: every character of the link and of the text stands at its place in one of
  the URLs saved, and the address passed to \<open>inet_ntoa\<close> is one of those packets'.
  There are no more new lines than URLs saved, and when neither thread can go on, the file was
  opened and a URL was saved, there is a new line, and the last one has the URL saved last as its
  link and as its text.
\<close>

theorem url_file_of_run:
  assumes "tf_main env argv = Inr run" and "sniffed run = Inr st"
  shows "\<exists>ps. saved st = entries_of ps \<and>
    (\<exists>s. log_run (log_start ps) s \<and> shows_sniffer s st \<and> packets s = []) \<and>
    (\<forall>s old. log_run (log_start ps) s \<longrightarrow> (\<exists>ls. urls_htm old s = old @ concat (map url_line ls) \<and>
      (\<forall>(u, v, ip) \<in> set ls. made_of (fst ` set (saved st)) u \<and>
        made_of (fst ` set (saved st)) v \<and> ip \<in> fst ` set ps) \<and>
      length ls \<le> length (saved st) \<and>
      ((\<nexists>t. log_step s t) \<and> w_pc s \<noteq> Stopped \<and> saved st \<noteq> [] \<longrightarrow>
        (\<exists>ls' ip. ls = ls' @ [(fst (last (saved st)), fst (last (saved st)), ip)]))))"
proof -
  obtain bl where "init_sniffer bl (tf_frames env) sniffer_start = Inr st"
    using assms by (auto simp: tf_main_def Let_def seqE_eq_Inr)
  moreover have "length (url_to_file sniffer_start) = MAX_URL_L" "saved sniffer_start = []"
    by (simp_all add: sniffer_start_def)
  ultimately obtain ps where ps: "saved st = entries_of ps" "urls_ok (urls_of ps)"
      "\<And>s qs. shows_sniffer s sniffer_start \<and> packets s = ps @ qs \<Longrightarrow>
        \<exists>t. log_run s t \<and> shows_sniffer t st \<and> packets t = qs \<and> lines_added t = lines_added s"
    by (metis append_Nil init_sniffer_log)
  have urls: "urls_of ps = map fst (saved st)" by (simp add: urls_of_entries ps(1))
  have "\<exists>s. log_run (log_start ps) s \<and> shows_sniffer s st \<and> packets s = []"
    using ps(3) [of "log_start ps" "[]"] by (auto simp: shows_sniffer_def log_start_def sniffer_start_def)
  moreover have "(\<forall>(u, v, ip) \<in> set (lines_added s). made_of (fst ` set (saved st)) u \<and>
        made_of (fst ` set (saved st)) v \<and> ip \<in> fst ` set ps) \<and> length (lines_added s) \<le> length (saved st)"
    if "log_run (log_start ps) s" for s
    using lines_captured [OF that ps(2)] by (auto simp: urls)
  moreover have "\<exists>ls' ip. lines_added s = ls' @ [(fst (last (saved st)), fst (last (saved st)), ip)]"
    if "log_run (log_start ps) s" "\<nexists>t. log_step s t" "w_pc s \<noteq> Stopped" "saved st \<noteq> []" for s
    using last_line [OF that(1) ps(2) that(2,3)] that(4)
    by (auto simp: urls last_map) (metis append_butlast_last_id)
  moreover have "urls_htm old s = old @ concat (map url_line (lines_added s))" for old s
    by (simp add: urls_htm_def)
  ultimately show ?thesis using ps(1) by meson
qed

lemma lines_of_entries: "lines_of ps = map (\<lambda>(u, ip). (u, u, ip)) (entries_of ps)"
proof -
  have "(case (case l of (u, v, ip) \<Rightarrow> (u, ip)) of (u, ip) \<Rightarrow> (u, u, ip)) = l" if "l \<in> set (lines_of ps)" for l
    using that by (auto simp: lines_of_def split: option.splits)
  then have "map ((\<lambda>(u, ip). (u, u, ip)) \<circ> (\<lambda>(u, v, ip). (u, ip))) (lines_of ps) = lines_of ps"
    by (intro map_idI) simp
  then show ?thesis by (simp only: entries_of_def map_map)
qed

text \<open>
  C27. Nothing need be lost: for every run of the program whose sniffer does not fail there is an
  interleaving of the sniffer's steps with those of the writer after which the file holds what it
  held before and then one complete line for every URL the sniffer saved, in order, with link and
  text the URL and the address the source address of its packet, and nothing else; all packets
  have been taken, and the threads can go no further.
\<close>

theorem file_complete_in_turns:
  assumes "tf_main env argv = Inr run" and "sniffed run = Inr st"
  shows "\<exists>ps s. saved st = entries_of ps \<and> log_run (log_start ps) s \<and> packets s = [] \<and> (\<nexists>t. log_step s t) \<and>
    urls_htm old s = old @ concat (map (\<lambda>(u, ip). url_line (u, u, ip)) (saved st))"
proof -
  obtain bl where "init_sniffer bl (tf_frames env) sniffer_start = Inr st"
    using assms by (auto simp: tf_main_def Let_def seqE_eq_Inr)
  moreover have "length (url_to_file sniffer_start) = MAX_URL_L" "saved sniffer_start = []"
    by (simp_all add: sniffer_start_def)
  ultimately obtain ps where ps: "saved st = entries_of ps" "urls_ok (urls_of ps)"
    by (metis append_Nil init_sniffer_log)
  obtain s where s: "log_run (log_start ps) s" "lines_added s = lines_of ps" "packets s = []" "\<nexists>t. log_step s t"
    using turns_complete [OF ps(2)] by blast
  have "map url_line (lines_of ps) = map (\<lambda>(u, ip). url_line (u, u, ip)) (saved st)"
    by (simp add: lines_of_entries ps(1) split_def comp_def)
  then have "urls_htm old s = old @ concat (map (\<lambda>(u, ip). url_line (u, u, ip)) (saved st))"
    by (simp add: urls_htm_def s(2))
  then show ?thesis using ps(1) s by blast
qed

section \<open>Instances\<close>

definition sample_tf :: "(recv_env \<times> send_env) list \<Rightarrow> (read_result \<times> u8 list \<times> u8 list) list \<Rightarrow> tf_env" where
  "sample_tf ps fs = \<lparr>tf_eth = sample_eth_env, tf_dhcp_created = 0, tf_url_created = 0,
     tf_packets = ps, tf_frames = fs\<rparr>"

definition sample_capture :: request_capture where
  "sample_capture = \<lparr>rc_hdr = replicate 16 0 @ [18, 0], rc_macs = replicate 12 1, rc_ip = replicate 9 0,
     rc_chk = [0, 0], rc_src = [10, 32, 143, 5], rc_dst = [10, 32, 143, 1], rc_ports = [1, 1],
     rc_more = [], rc_stack = [], rc_url = replicate 2048 7, rc_seq = replicate 8 0, rc_off = 0x50,
     rc_ctl = replicate 7 0, rc_method = map of_char ''GET'', rc_path = sample_path,
     rc_headers = map of_char ''HTTP/1.1'' @ [13, 10], rc_host = sample_host, rc_rest = []\<rparr>"

lemma sample_eth_attached:
  "attached sample_eth_env sample_ifa \<lparr>ifname = padded_name sample_ifa, buf_size = 0, bpf = 0\<rparr> =
     (0, \<lparr>ifname = padded_name sample_ifa, buf_size = 4096, bpf = 3\<rparr>)"
  by (simp add: attached_def sample_eth_env_def Let_def upt_rec)

lemma sample_tf_sel:
  "tf_eth (sample_tf ps fs) = sample_eth_env" "tf_dhcp_created (sample_tf ps fs) = 0"
  "tf_packets (sample_tf ps fs) = ps" "tf_frames (sample_tf ps fs) = fs"
  "ifas sample_eth_env = [sample_ifa]" "length (ifr_stack sample_eth_env) = IFNAMSIZ"
  by (simp_all add: sample_tf_def sample_eth_env_def IFNAMSIZ_def)

lemma sample_ifa_complete:
  "\<forall>it \<in> set (ifas sample_eth_env). ifa_complete it"
  "find usable (ifas sample_eth_env) = Some sample_ifa"
proof -
  have "ifa_broadaddr sample_ifa \<noteq> None" "ifa_netmask sample_ifa \<noteq> None"
    by (simp_all add: sample_ifa_def)
  then have "ifa_complete sample_ifa" using sample_ifa_ok(1) by (simp only: ifa_complete_def simp_thms)
  then show "\<forall>it \<in> set (ifas sample_eth_env). ifa_complete it" by (simp add: sample_tf_sel(5))
  show "find usable (ifas sample_eth_env) = Some sample_ifa"
    by (simp add: sample_tf_sel(5) sample_ifa_ok(2))
qed

lemmas sample_tf_eth = sample_ifa_complete sample_tf_sel(6) sample_eth_attached

lemma sample_capture_ok: "request_ok 4096 sample_capture"
  using sample_front_ok
  by (simp add: request_ok_def ip_ok_def read_fits_def sample_capture_def rc_packet_def ip_packet_def bpf_header_def
      st16_def http_request_def http_front_def sample_bytes tcp_rest_def ip_sizes_def c_consts)

definition sample_lookup :: query_capture where
  "sample_lookup = \<lparr>rc_hdr = replicate 16 0 @ [18, 0], rc_macs = replicate 12 1, rc_ip = replicate 9 0,
     rc_chk = [0, 0], rc_src = [10, 32, 143, 6], rc_dst = [10, 32, 143, 1], rc_ports = [1, 1],
     rc_more = [7, 7, 7], rc_stack = [], rc_url = replicate 2048 7, qc_len_chk = replicate 4 0,
     qc_xid = [0, 7], qc_hi = 1, qc_lo = 0, qc_counts = replicate 8 0, qc_name = [[119], [98, 99]],
     qc_rest = []\<rparr>"

lemma sample_lookup_ok: "query_ok 4096 sample_lookup"
  by (simp add: query_ok_def ip_ok_def read_fits_def sample_lookup_def qc_packet_def ip_packet_def bpf_header_def
      st16_def wire_label_def label_ok_def ip_sizes_def c_consts)

text \<open>A frame with a datagram to port 67.\<close>

definition sample_dhcp :: traffic where
  "sample_dhcp = Other (replicate 16 0 @ [18, 0])
     (sample_packet UDP_PROT ([0, 68] @ [0, 67] @ replicate 20 0)) [] (replicate 2048 7)"

lemma sample_dhcp_ok: "traffic_ok 4096 sample_dhcp"
proof -
  let ?p = "sample_packet UDP_PROT ([0, 68] @ [0, 67] @ replicate 20 0)"
  let ?d = "delivered (replicate 16 0 @ [18, 0]) ?p"
  have "read_fits 4096 (replicate 16 0 @ [18, 0]) ?p"
    by (simp add: read_fits_def bpf_header_def st16_def sample_packet_def ip_packet_def)
  moreover have len: "length ?d = 76" by (simp add: delivered_def sample_packet_def ip_packet_def)
  moreover have "net16 ?d 36 = Inr 67"
    using net16_at [of 36 ?d 0 67 "replicate 20 0 @ replicate 18 0"]
    by (simp add: delivered_def sample_packet_def ip_packet_def)
  moreover have "?d ! 23 = UDP_PROT"
    by (simp add: delivered_def sample_packet_def ip_packet_def nth_append)
  ultimately show ?thesis by (simp add: sample_dhcp_def asks_nothing_def web_request_def c_consts)
qed

definition sample_traffic :: "traffic list" where
  "sample_traffic = [sample_dhcp, Page sample_capture, FailedRead [] [], Lookup sample_lookup]"

lemma sample_traffic_ok: "\<forall>t \<in> set sample_traffic. traffic_ok 4096 t"
  by (simp add: sample_traffic_def sample_capture_ok sample_lookup_ok sample_dhcp_ok)

lemma sample_entries:
  "tr_entries (Page sample_capture) = [([98, 46, 99, 47, 97], ld32 [10, 32, 143, 5])]"
  "tr_entries (Lookup sample_lookup) = [([119, 46, 98, 99], ld32 [10, 32, 143, 6])]"
  "tr_entries sample_dhcp = []"
  by (simp_all add: sample_capture_def sample_lookup_def sample_dhcp_def sample_bytes del: ld32.simps)

lemma sample_traffic_entries:
  "entries sample_traffic = [([98, 46, 99, 47, 97], ld32 [10, 32, 143, 5]), ([119, 46, 98, 99], ld32 [10, 32, 143, 6])]"
  by (simp only: sample_traffic_def entries_simps sample_entries tr_entries.simps(4) append_Nil append_Cons append_Nil2)

theorem clients_get_interface_subnet_witness:
  "\<exists>run s. tf_main (sample_tf (map sample_event (concat (map handshake [7]))) []) [] = Inr run \<and>
     server run = Some (Some (Inr s)) \<and> map reply_own_ip (sent s) = [0x288F200A, 0x288F200A]"
proof -
  have "(snd (the (ifa_addr sample_ifa)) AND the (ifa_netmask sample_ifa)) + htonl 40 = 0x288F200A"
    by (simp add: sample_ifa_def htonl_def st32_def)
  then show ?thesis
    using clients_get_interface_subnet [of "sample_tf (map sample_event (concat (map handshake [7]))) []",
        unfolded sample_tf_sel(1-4), OF sample_tf_eth(1-3) refl carries_samples _ refl, of "[]"]
    by auto
qed

theorem captured_requests_saved_witness:
  "\<exists>run st. tf_main (sample_tf [] (map tr_read sample_traffic)) [] = Inr run \<and> sniffed run = Inr st \<and>
     saved st = [([98, 46, 99, 47, 97], ld32 [10, 32, 143, 5]), ([119, 46, 98, 99], ld32 [10, 32, 143, 6])] \<and>
     \<not> url_locked st"
proof -
  have "\<forall>t \<in> set sample_traffic.
      traffic_ok (buf_size \<lparr>ifname = padded_name sample_ifa, buf_size = 4096, bpf = 3\<rparr>) t"
    using sample_traffic_ok by simp
  from captured_requests_saved [of "sample_tf [] (map tr_read sample_traffic)",
      unfolded sample_tf_sel(1-4), OF sample_tf_eth refl this, of "[]"]
  show ?thesis unfolding sample_traffic_entries by simp
qed

lemma sample_run:
  "\<exists>run st. tf_main (sample_tf [] (map tr_read [Page sample_capture])) argv = Inr run \<and> sniffed run = Inr st \<and>
     saved st = [([98, 46, 99, 47, 97], ld32 [10, 32, 143, 5])]"
proof -
  have "\<forall>t \<in> set [Page sample_capture].
      traffic_ok (buf_size \<lparr>ifname = padded_name sample_ifa, buf_size = 4096, bpf = 3\<rparr>) t"
    by (simp add: sample_capture_ok)
  from captured_run [of "sample_tf [] (map tr_read [Page sample_capture])",
      unfolded sample_tf_sel(1-4), OF sample_tf_eth refl this, of argv]
  show ?thesis by (simp only: entries_simps sample_entries append_Nil2) blast
qed

theorem url_file_of_run_witness:
  "\<exists>run st ps s ls. tf_main (sample_tf [] (map tr_read [Page sample_capture])) [] = Inr run \<and>
     sniffed run = Inr st \<and> entries_of ps = saved st \<and> log_run (log_start ps) s \<and> shows_sniffer s st \<and>
     urls_htm ''x'' s = ''x'' @ concat (map url_line ls) \<and> length ls \<le> 1"
proof -
  obtain run st where run: "tf_main (sample_tf [] (map tr_read [Page sample_capture])) [] = Inr run"
      "sniffed run = Inr st" "saved st = [([98, 46, 99, 47, 97], ld32 [10, 32, 143, 5])]"
    using sample_run by blast
  have "length (saved st) = 1" by (simp only: run(3)) simp
  with url_file_of_run [OF run(1,2)] run(1,2) show ?thesis by metis
qed

theorem file_complete_in_turns_witness:
  "\<exists>ps s. log_run (log_start ps) s \<and> (\<nexists>t. log_step s t) \<and>
     urls_htm ''x'' s = ''x'' @ url_line ([98, 46, 99, 47, 97], [98, 46, 99, 47, 97], ld32 [10, 32, 143, 5])"
proof -
  obtain run st where run: "tf_main (sample_tf [] (map tr_read [Page sample_capture])) [] = Inr run"
      "sniffed run = Inr st" "saved st = [([98, 46, 99, 47, 97], ld32 [10, 32, 143, 5])]"
    using sample_run by blast
  from file_complete_in_turns [OF run(1,2), of "''x''"] show ?thesis
    unfolding run(3) by (simp del: ld32.simps) blast
qed

end
