(* ===== verification/Dhcp_Console.thy ===== *)
theory Dhcp_Console
  imports Dhcp_Leases Util_Flags
begin

text \<open>
  What the DHCP server thread of \<open>TF/Application.c\<close> prints:
  \<open>Dhcp_Server\<close> has the lines of \<open>printf\<close>; here the loop is written
  with those of \<open>d_printf\<close> too. A line stands without its line feed.
\<close>

definition debug_line :: "int \<Rightarrow> string \<Rightarrow> string list" where
  "debug_line v l = (if v = 0 then [] else [l])"

definition dhcp_round_out ::
  "int \<Rightarrow> net_conf \<Rightarrow> recv_env \<times> send_env \<Rightarrow> dhcp_srv \<Rightarrow> dhcp_srv outcome option" where
  "dhcp_round_out v c e s = dhcp_round c e (s\<lparr>console := console s @ debug_line v ''Waiting DHCP Packages''\<rparr>)"

fun dhcp_loop_out ::
  "int \<Rightarrow> net_conf \<Rightarrow> (recv_env \<times> send_env) list \<Rightarrow> dhcp_srv \<Rightarrow> dhcp_srv outcome option" where
  "dhcp_loop_out v c [] s = Some (Inr (s\<lparr>console := console s @ debug_line v ''Waiting DHCP Packages''\<rparr>))"
| "dhcp_loop_out v c (e # es) s =
     (case dhcp_round_out v c e s of
        None \<Rightarrow> None
      | Some (Inl err) \<Rightarrow> Some (Inl err)
      | Some (Inr s') \<Rightarrow> dhcp_loop_out v c es s')"

definition init_DHCP_server_out ::
  "int \<Rightarrow> net_conf \<Rightarrow> (recv_env \<times> send_env) list \<Rightarrow> dhcp_srv \<Rightarrow> dhcp_srv outcome option" where
  "init_DHCP_server_out v c es s = dhcp_loop_out v c es (s\<lparr>console := console s @ debug_line v ''DHCP Init''\<rparr>)"

section \<open>One line for each message\<close>

fun msg_line :: "dhcp_msg_t \<Rightarrow> string" where
  "msg_line DISCOVER = ''Discover''" | "msg_line OFFER = ''Offer''" | "msg_line REQUEST = ''Request''"
| "msg_line DECLINE = ''Decline''" | "msg_line ACK = ''Ack''" | "msg_line NAK = ''Nak''"
| "msg_line RELEASE = ''Release''" | "msg_line INFORM = ''Inform''" | "msg_line INVALID = ''Invalid''"

lemma msg_line_inject [simp]: "msg_line m = msg_line n \<longleftrightarrow> m = n"
  by (cases m; cases n) simp_all

text \<open>The message a round reads, when it gets that far.\<close>

definition received_msg :: "recv_env \<times> send_env \<Rightarrow> dhcp_msg_t option" where
  "received_msg e = (case wait_dhcp_hdr (fst e) zero_hdr of
     Inl err \<Rightarrow> None
   | Inr (h, src) \<Rightarrow> (case set_dhcp_opt_from_dhcp_hdr zero_opt h of
         Some (Inr q) \<Rightarrow> Some (dhcp_msg q) | _ \<Rightarrow> None))"

lemma send_prints_nothing: "send_dhcp_hdr env pkg addr = Inr (p, dg, out) \<Longrightarrow> out = []"
  by (auto simp: send_dhcp_hdr_def set_bytes_from_dhcp_hdr_def Let_def seqE_eq_Inr split: if_splits)

text \<open>A handler adds its line to what is on the console, and does the rest whatever is there.\<close>

lemma handle_console:
  "handle_dhcp_msg c env h m s = seqE (handle_dhcp_msg c env h m (s\<lparr>console := []\<rparr>)) (\<lambda>s'.
     Inr (s'\<lparr>console := console s @ console s'\<rparr>))"
  by (cases m) (simp_all add: on_discover_def on_request_def Let_def seqE_assoc split_def cong: if_cong)

lemma handle_prints_line:
  assumes "handle_dhcp_msg c env h m s = Inr s'"
  shows "console s' = console s @ [msg_line m]"
proof -
  have "console s' = console s @ [msg_line m]" if "m = DISCOVER"
    using assms that by (auto simp: on_discover_def Let_def seqE_eq_Inr dest!: send_prints_nothing)
  moreover have "console s' = console s @ [msg_line m]" if "m = REQUEST"
    using assms that by (auto simp: on_request_def Let_def seqE_eq_Inr dest!: send_prints_nothing)
  ultimately show ?thesis using assms by (cases m) auto
qed

lemma handle_other_console:
  "handle_dhcp_msg c env h m (s\<lparr>console := l\<rparr>) = seqE (handle_dhcp_msg c env h m s) (\<lambda>s'.
     Inr (s'\<lparr>console := l @ [msg_line m]\<rparr>))"
proof (cases "handle_dhcp_msg c env h m (s\<lparr>console := []\<rparr>)")
  case (Inl e)
  then show ?thesis using handle_console [of c env h m s] handle_console [of c env h m "s\<lparr>console := l\<rparr>"]
    by simp
next
  case (Inr s')
  then have "console s' = [msg_line m]" using handle_prints_line by force
  then show ?thesis
    using handle_console [of c env h m s] handle_console [of c env h m "s\<lparr>console := l\<rparr>"] Inr by simp
qed

lemma round_other_console:
  "dhcp_round c e (s\<lparr>console := l\<rparr>) = (case dhcp_round c e s of
     None \<Rightarrow> None
   | Some (Inl err) \<Rightarrow> Some (Inl err)
   | Some (Inr s') \<Rightarrow> Some (Inr (s'\<lparr>console := l @ [msg_line (the (received_msg e))]\<rparr>)))"
  by (auto simp: dhcp_round_def received_msg_def handle_other_console seqE_def split: sum.split option.split)

lemma round_prints_line:
  "dhcp_round c e s = Some (Inr s') \<Longrightarrow>
   \<exists>m. received_msg e = Some m \<and> console s' = console s @ [msg_line m]"
  by (auto simp: dhcp_round_def received_msg_def split: sum.splits option.splits dest: handle_prints_line)

definition debug_text :: "int \<Rightarrow> dhcp_msg_t list \<Rightarrow> string list" where
  "debug_text v ms = concat (map (\<lambda>m. debug_line v ''Waiting DHCP Packages'' @ [msg_line m]) ms) @
     debug_line v ''Waiting DHCP Packages''"

lemma loop_console:
  assumes "init_DHCP_server c es s = Some (Inr s')"
  shows "\<exists>ms. map received_msg es = map Some ms \<and> console s' = console s @ map msg_line ms \<and>
    (\<forall>v l. dhcp_loop_out v c es (s\<lparr>console := l\<rparr>) = Some (Inr (s'\<lparr>console := l @ debug_text v ms\<rparr>)))"
  using assms
proof (induction es arbitrary: s)
  case Nil
  then show ?case by (intro exI [of _ "[]"]) (simp add: debug_text_def)
next
  case (Cons e es)
  obtain s1 where s1: "dhcp_round c e s = Some (Inr s1)" "init_DHCP_server c es s1 = Some (Inr s')"
    using Cons.prems by (auto split: option.splits sum.splits)
  obtain m where m: "received_msg e = Some m" "console s1 = console s @ [msg_line m]"
    using round_prints_line [OF s1(1)] by blast
  obtain ms where ms: "map received_msg es = map Some ms" "console s' = console s1 @ map msg_line ms"
      "\<And>v l. dhcp_loop_out v c es (s1\<lparr>console := l\<rparr>) = Some (Inr (s'\<lparr>console := l @ debug_text v ms\<rparr>))"
    using Cons.IH [OF s1(2)] by blast
  show ?case
    using s1 m ms
    by (intro exI [of _ "m # ms"]) (simp add: dhcp_round_out_def round_other_console debug_text_def)
qed

lemma loop_fails:
  assumes "init_DHCP_server c es s = r" and "r = None \<or> r = Some (Inl err)"
  shows "dhcp_loop_out v c es (s\<lparr>console := l\<rparr>) = r"
  using assms
proof (induction es arbitrary: s l)
  case (Cons e es)
  show ?case
  proof (cases "dhcp_round c e s")
    case None
    then show ?thesis using Cons.prems by (simp add: dhcp_round_out_def round_other_console)
  next
    case (Some q)
    show ?thesis
    proof (cases q)
      case (Inl e')
      then show ?thesis using Some Cons.prems by (auto simp: dhcp_round_out_def round_other_console)
    next
      case (Inr s1)
      then show ?thesis using Some Cons.prems Cons.IH [of s1]
        by (simp add: dhcp_round_out_def round_other_console)
    qed
  qed
qed auto

text \<open>
  C19. The server's log: a run prints one line for each datagram it handled, in order, that names
  the message read from it, and with \<open>-v\<close> the notes of the loop between them; the
  output level changes neither the addresses nor the replies, nor whether the thread hangs or
  fails.
\<close>

theorem server_logs_messages:
  "(case init_DHCP_server c es s of
      Some (Inr s') \<Rightarrow> (\<exists>ms. map received_msg es = map Some ms \<and>
        console s' = console s @ map msg_line ms \<and>
        init_DHCP_server_out v c es s = Some (Inr (s'\<lparr>console := console s @
          debug_line v ''DHCP Init'' @ debug_text v ms\<rparr>)))
    | r \<Rightarrow> init_DHCP_server_out v c es s = r)"
proof (cases "init_DHCP_server c es s")
  case None
  then show ?thesis by (simp add: init_DHCP_server_out_def loop_fails)
next
  case (Some q)
  then show ?thesis
    using loop_console [of c es s] by (cases q) (auto simp: init_DHCP_server_out_def loop_fails)
qed

end
