(* ===== verification/Tf_Console.thy ===== *)
theory Tf_Console
  imports Tf_Program Dhcp_Console
begin

text \<open>
  What the threads of the program of \<open>TF/\<close> print on the standard output. The
  definitions of \<open>Sniffer\<close>, \<open>App_Init\<close> and \<open>Dhcp_Server\<close>
  leave the text of \<open>d_printf\<close> out; here the functions of
  \<open>TF/Application.c\<close> and \<open>eth_init\<close> are written with every
  \<open>printf\<close> and \<open>d_printf\<close> in its place and with what those calls load,
  and it is shown that they do to the state what the shorter definitions do, whatever the output
  level. Each thread has a text of its own, \<open>out\<close>.
\<close>

section \<open>The sniffer\<close>

text \<open>\<open>%s\<close> of an array loads it only when the text is printed.\<close>

definition d_print_str :: "int \<Rightarrow> string \<Rightarrow> u8 list \<Rightarrow> string \<Rightarrow> string \<Rightarrow> string outcome" where
  "d_print_str v before url behind out =
     (if v = 0 then Inr out else seqE (c_string url) (\<lambda>s. Inr (out @ before @ text_of s @ behind)))"

definition saving_line :: "u8 list \<times> u32 \<Rightarrow> string" where
  "saving_line e = ''saving url http://'' @ text_of (fst e) @ '' - ip: '' @ inet_ntoa (snd e) @ nl"

definition append_url_out :: "u8 list \<Rightarrow> sniffer \<times> string \<Rightarrow> (sniffer \<times> string) outcome" where
  "append_url_out url so = (case so of (st, out) \<Rightarrow>
     seqE (append_url_to_file url st) (\<lambda>st.
     seqE (c_string url) (\<lambda>s. Inr (st, out @ saving_line (s, lst_ip st)))))"

definition ports_text :: "u16 \<Rightarrow> u16 \<Rightarrow> string" where
  "ports_text s d = ''(s:'' @ dec_str (unat s) @ '', d:'' @ dec_str (unat d) @ '')''"

definition sniff_tcp_out ::
  "int \<Rightarrow> u8 list \<Rightarrow> sniffer \<times> string \<Rightarrow> (sniffer \<times> string) outcome" where
  "sniff_tcp_out v url so = (case so of (st, out) \<Rightarrow>
     (let tcp = ETHER_HDR_LEN + sizeof_ip; out = d_printf v ''-TCP'' out
      in seqE (net16 (frame st) tcp) (\<lambda>th_sport.
         seqE (net16 (frame st) (tcp + 2)) (\<lambda>th_dport.
         let out = d_printf v (ports_text th_sport th_dport) out
         in seqE (mem_read (frame st) (tcp + 12)) (\<lambda>off.
            let tcphdr_l = drop_bit 4 off * 4
            in if th_dport = HTTP_PORT
               then (let out = d_printf v ''-HTTP'' out
                 in seqE (set_addr_from_get_buf url
                     (drop (ETHER_HDR_LEN + sizeof_ip + unat tcphdr_l) (frame st))) (\<lambda>(n, url).
                   if n \<noteq> 0
                   then seqE (d_print_str v [] url [] out) (\<lambda>out. append_url_out url (st, out))
                   else Inr (st, d_printf v ''-*'' out)))
               else Inr (st, d_printf v ''-*'' out))))))"

definition sniff_udp_out :: "int \<Rightarrow> sniffer \<times> string \<Rightarrow> (sniffer \<times> string) outcome" where
  "sniff_udp_out v so = (case so of (st, out) \<Rightarrow>
     (let udp = ETHER_HDR_LEN + sizeof_ip; dns = udp + sizeof_udphdr; out = d_printf v ''-UDP'' out
      in seqE (net16 (frame st) udp) (\<lambda>uh_sport.
         seqE (net16 (frame st) (udp + 2)) (\<lambda>uh_dport.
         let out = d_printf v (ports_text uh_sport uh_dport) out
         in if uh_dport = DNS_PORT
            then (let out = d_printf v ''-DNS'' out
              in seqE (net16 (frame st) (dns + 2)) (\<lambda>flags.
                 let out = d_printf v (if flags AND 0x8000 = 0 then ''-Query'' else ''-Response'') out
                 in if flags AND 0x8000 = 0
                    then seqE (dns_query_url (frame st) (dns + sizeof_dns_header)) (\<lambda>url.
                         seqE (d_print_str v ''[where is '' url ''?]'' out) (\<lambda>out.
                           append_url_out url (st, out)))
                    else Inr (st, out)))
            else Inr (st, d_printf v ''-*'' out)))))"

definition sniff_frame_out ::
  "int \<Rightarrow> u8 list \<Rightarrow> nat \<Rightarrow> sniffer \<times> string \<Rightarrow> (sniffer \<times> string) outcome" where
  "sniff_frame_out v url read_bytes so = (case so of (st, out) \<Rightarrow>
     (let out = d_printf v ''{Ethernet'' out
      in seqE (seqE (net16 (frame st) 12) (\<lambda>ether_type.
           if ether_type = ETHERTYPE_IP
           then (let out = d_printf v ''-Ip'' out
             in seqE (mem_block (frame st) (ETHER_HDR_LEN + 12) 4) (\<lambda>ip_src.
                seqE (mem_read (frame st) (ETHER_HDR_LEN + 9)) (\<lambda>ip_p.
                let st = st\<lparr>lst_ip := ld32 ip_src\<rparr>
                in if ip_p = TCP_PROT then sniff_tcp_out v url (st, out)
                   else if ip_p = UDP_PROT then sniff_udp_out v (st, out)
                   else Inr (st, d_printf v ''-*'' out))))
           else Inr (st, d_printf v ''-*'' out))) (\<lambda>(st, out).
         Inr (st, d_printf v (''} - '' @ dec_str (read_bytes mod 2 ^ 32) @ nl) out))))"

definition sniff_round_out ::
  "int \<Rightarrow> nat \<Rightarrow> read_result \<times> u8 list \<times> u8 list \<Rightarrow> sniffer \<times> string \<Rightarrow> (sniffer \<times> string) outcome" where
  "sniff_round_out v bl fr so = (case so of (st, out) \<Rightarrow> (case fr of (rd, stack, url) \<Rightarrow>
     seqE (wait_eth_frame rd stack bl (frame st)) (\<lambda>(read_bytes, f).
       sniff_frame_out v url read_bytes (st\<lparr>frame := f\<rparr>, out))))"

definition init_sniffer_out ::
  "int \<Rightarrow> nat \<Rightarrow> (read_result \<times> u8 list \<times> u8 list) list \<Rightarrow> sniffer \<times> string \<Rightarrow> (sniffer \<times> string) outcome" where
  "init_sniffer_out v bl frs so = (case so of (st, out) \<Rightarrow>
     foldE (sniff_round_out v bl) frs
       (st, d_printf v (''Ethernet Payload Length: '' @ dec_str (ETHER_MAX_LEN - ETHER_HDR_LEN) @ nl)
         (d_printf v (''Initializing Sniffer'' @ nl) out)))"

section \<open>The text and the state\<close>

text \<open>\<open>only\<close> forgets the text.\<close>

definition only :: "('s \<times> string) outcome \<Rightarrow> 's outcome" where
  "only r = seqE r (\<lambda>(s, out). Inr s)"

lemma only_simps [simp]: "only (Inl e) = Inl e" "only (Inr (s, out)) = Inr s"
  by (simp_all add: only_def)

lemma only_seqE: "only (seqE m f) = seqE m (\<lambda>x. only (f x))"
  by (cases m) simp_all

lemma only_if: "only (if b then r else s) = (if b then only r else only s)"
  by simp

lemma c_strlen_Inl: "c_strlen m = Inl e \<Longrightarrow> e = BadRead"
  by (induction m arbitrary: e) (auto simp: seqE_eq_Inl split: if_splits)

lemma c_string_Inr:
  assumes "c_strlen m = Inr n"
  shows "c_string m = Inr (takeWhile (\<lambda>b. b \<noteq> 0) m)"
proof -
  have "takeWhile (\<lambda>b. b \<noteq> 0) m = take n m"
    using assms by (intro takeWhile_eq_take_P_nth) (auto simp: c_strlen_Inr_iff in_set_conv_nth)
  then show ?thesis using assms by (simp add: c_string_def)
qed

text \<open>Printing a URL and saving it, in one: the text is that of the stored string.\<close>

lemma print_append:
  "seqE (d_print_str v a url b out) (\<lambda>out. append_url_out url (st, out)) =
   seqE (append_url_to_file url st) (\<lambda>st'.
     let s = takeWhile (\<lambda>b. b \<noteq> 0) url
     in Inr (st', d_printf v (a @ text_of s @ b) out @ saving_line (s, lst_ip st')))"
proof (cases "c_strlen url")
  case (Inl e)
  then have "append_url_to_file url st = Inl BadRead" "c_string url = Inl BadRead"
    using c_strlen_Inl [OF Inl] by (simp_all add: append_url_to_file_def c_strcpy_def c_string_def)
  then show ?thesis by (simp add: d_print_str_def append_url_out_def)
next
  case (Inr n)
  then show ?thesis
    using c_string_Inr [OF Inr]
    by (simp add: d_print_str_def append_url_out_def d_printf_def Let_def)
qed

lemma append_saved:
  "append_url_to_file url st = Inr st' \<Longrightarrow>
   saved st' = saved st @ [(takeWhile (\<lambda>b. b \<noteq> 0) url, lst_ip st')] \<and> lst_ip st' = lst_ip st"
  by (auto simp: append_url_to_file_def seqE_eq_Inr)

text \<open>
  What a round prints, as a function of the frame and of what the round saved:
  \<open>level_text\<close> is the part that depends on the output level.
\<close>

definition new_saved :: "sniffer \<Rightarrow> sniffer \<Rightarrow> (u8 list \<times> u32) list" where
  "new_saved st st' = drop (length (saved st)) (saved st')"

definition entry_text :: "int \<Rightarrow> string \<Rightarrow> string \<Rightarrow> string \<Rightarrow> (u8 list \<times> u32) list \<Rightarrow> string" where
  "entry_text v a b none es = (case es of
     [] \<Rightarrow> level_text v none
   | e # _ \<Rightarrow> level_text v (a @ text_of (fst e) @ b) @ saving_line e)"

definition tcp_text :: "int \<Rightarrow> u8 list \<Rightarrow> (u8 list \<times> u32) list \<Rightarrow> string" where
  "tcp_text v f es = level_text v ''-TCP'' @ level_text v (ports_text (port_at f 34) (port_at f 36)) @
     (if port_at f 36 = HTTP_PORT then level_text v ''-HTTP'' @ entry_text v [] [] ''-*'' es
      else level_text v ''-*'')"

definition udp_text :: "int \<Rightarrow> u8 list \<Rightarrow> (u8 list \<times> u32) list \<Rightarrow> string" where
  "udp_text v f es = level_text v ''-UDP'' @ level_text v (ports_text (port_at f 34) (port_at f 36)) @
     (if port_at f 36 = DNS_PORT
      then level_text v ''-DNS'' @ (if port_at f 44 AND 0x8000 = 0
        then level_text v ''-Query'' @ entry_text v ''[where is '' ''?]'' [] es
        else level_text v ''-Response'')
      else level_text v ''-*'')"

definition frame_text :: "int \<Rightarrow> nat \<Rightarrow> u8 list \<Rightarrow> (u8 list \<times> u32) list \<Rightarrow> string" where
  "frame_text v n f es = level_text v ''{Ethernet'' @
     (if port_at f 12 \<noteq> ETHERTYPE_IP then level_text v ''-*''
      else level_text v ''-Ip'' @
        (if f ! 23 = TCP_PROT then tcp_text v f es
         else if f ! 23 = UDP_PROT then udp_text v f es
         else level_text v ''-*'')) @
     level_text v (''} - '' @ dec_str (n mod 2 ^ 32) @ nl)"

lemma new_saved_same [simp]: "new_saved st st = []"
  by (simp add: new_saved_def)

lemma append_new_saved:
  "append_url_to_file url st = Inr st' \<Longrightarrow>
   new_saved st st' = [(takeWhile (\<lambda>b. b \<noteq> 0) url, lst_ip st')]"
  using append_saved by (auto simp: new_saved_def)

lemma print_append_text:
  "seqE (d_print_str v a url b out) (\<lambda>out. append_url_out url (st, out)) =
   seqE (append_url_to_file url st) (\<lambda>st'. Inr (st', out @ entry_text v a b none (new_saved st st')))"
proof (cases "append_url_to_file url st")
  case (Inr st')
  then show ?thesis
    by (simp add: print_append append_new_saved entry_text_def d_printf_shown Let_def)
qed (simp add: print_append)

lemma entry_text_none [simp]: "entry_text v a b none [] = level_text v none"
  by (simp add: entry_text_def)

lemma sniff_tcp_text:
  "sniff_tcp_out v url (st, out) =
   seqE (sniff_tcp url st) (\<lambda>st'. Inr (st', out @ tcp_text v (frame st) (new_saved st st')))"
proof -
  let ?f = "frame st"
  show ?thesis
    by (cases "set_addr_from_get_buf url (drop (34 + unat (drop_bit 4 (?f ! 46) * 4)) ?f)")
      (auto simp: sniff_tcp_out_def sniff_tcp_def net16_eq mem_read_def offsets tcp_text_def
        d_printf_shown Let_def print_append_text [where none = "''-*''"])
qed

lemma sniff_udp_text:
  "sniff_udp_out v (st, out) =
   seqE (sniff_udp st) (\<lambda>st'. Inr (st', out @ udp_text v (frame st) (new_saved st st')))"
  by (cases "dns_query_url (frame st) 54")
    (auto simp: sniff_udp_out_def sniff_udp_def net16_eq offsets udp_text_def d_printf_shown Let_def
      print_append_text [where none = "[]"])

lemma new_saved_ip: "new_saved (st\<lparr>lst_ip := a\<rparr>) st' = new_saved st st'"
  by (simp add: new_saved_def)

lemma sniff_frame_text:
  "sniff_frame_out v url n (st, out) =
   seqE (sniff_frame url st) (\<lambda>st'. Inr (st', out @ frame_text v n (frame st) (new_saved st st')))"
  by (auto simp: sniff_frame_out_def sniff_frame_def frame_text_def Let_def ETHER_HDR_LEN_def
      net16_eq mem_read_def mem_block_def d_printf_shown sniff_tcp_text sniff_udp_text seqE_assoc
      new_saved_ip)

text \<open>
  Without \<open>-v\<close> a round prints the line of what it saves and nothing else; and what
  it prints then is part of what it prints with \<open>-v\<close>.
\<close>

lemma sniff_tcp_quiet:
  "sniff_tcp url st = Inr st' \<Longrightarrow>
   tcp_text 0 (frame st) (new_saved st st') = concat (map saving_line (new_saved st st')) \<and>
   saved st' = saved st @ new_saved st st'"
  by (auto simp: sniff_tcp_def seqE_eq_Inr net16_eq offsets tcp_text_def append_new_saved
      entry_text_def append_saved Let_def split: if_splits)

lemma sniff_udp_quiet:
  "sniff_udp st = Inr st' \<Longrightarrow>
   udp_text 0 (frame st) (new_saved st st') = concat (map saving_line (new_saved st st')) \<and>
   saved st' = saved st @ new_saved st st'"
  by (auto simp: sniff_udp_def seqE_eq_Inr net16_eq offsets udp_text_def append_new_saved
      entry_text_def append_saved Let_def split: if_splits)

lemma sniff_frame_quiet:
  assumes "sniff_frame url st = Inr st'"
  shows "frame_text 0 n (frame st) (new_saved st st') = concat (map saving_line (new_saved st st')) \<and>
    saved st' = saved st @ new_saved st st'"
  using assms sniff_tcp_quiet [of url _ st'] sniff_udp_quiet [of _ st']
  by (fastforce simp: sniff_frame_def seqE_eq_Inr net16_eq offsets frame_text_def mem_read_def
      mem_block_def new_saved_ip Let_def new_saved_def split: if_splits)

lemma entry_text_subseq: "subseq (entry_text 0 a b none es) (entry_text v a b none es)"
  by (auto simp: entry_text_def split: list.split)

lemma shown_subseq: "subseq (level_text 0 t) (level_text v t)"
  by simp

lemma if_subseq:
  "subseq a a' \<Longrightarrow> subseq b b' \<Longrightarrow> subseq (if c then a else b) (if c then a' else b')"
  by simp

lemmas text_subseq = list_emb_append_mono if_subseq shown_subseq entry_text_subseq

lemma tcp_text_subseq: "subseq (tcp_text 0 f es) (tcp_text v f es)"
  unfolding tcp_text_def by (intro text_subseq)

lemma udp_text_subseq: "subseq (udp_text 0 f es) (udp_text v f es)"
  unfolding udp_text_def by (intro text_subseq)

lemma frame_text_subseq: "subseq (frame_text 0 n f es) (frame_text v n f es)"
  unfolding frame_text_def by (intro text_subseq tcp_text_subseq udp_text_subseq)

section \<open>The loop\<close>

definition sniffer_head :: "int \<Rightarrow> string" where
  "sniffer_head v = level_text v (''Initializing Sniffer'' @ nl) @
     level_text v (''Ethernet Payload Length: '' @ dec_str (ETHER_MAX_LEN - ETHER_HDR_LEN) @ nl)"

lemma sniffer_out_head:
  "init_sniffer_out v bl frs (st, out) = foldE (sniff_round_out v bl) frs (st, out @ sniffer_head v)"
  by (simp add: init_sniffer_out_def sniffer_head_def d_printf_shown)

lemma sniffer_head_quiet [simp]: "sniffer_head 0 = []"
  by (simp add: sniffer_head_def)

lemma sniff_round_text:
  assumes "sniff_round rd stack bl url st = Inr st'"
  obtains n f where "\<And>v out. sniff_round_out v bl (rd, stack, url) (st, out) =
      Inr (st', out @ frame_text v n f (new_saved st st'))"
    and "frame_text 0 n f (new_saved st st') = concat (map saving_line (new_saved st st'))"
    and "saved st' = saved st @ new_saved st st'"
proof -
  obtain n f where f: "wait_eth_frame rd stack bl (frame st) = Inr (n, f)"
      "sniff_frame url (st\<lparr>frame := f\<rparr>) = Inr st'"
    using assms by (auto simp: sniff_round_def seqE_eq_Inr)
  have new: "new_saved (st\<lparr>frame := f\<rparr>) st' = new_saved st st'" by (simp add: new_saved_def)
  show ?thesis
    using that [of n f] sniff_frame_quiet [OF f(2), of n] f
    by (simp add: sniff_round_out_def sniff_frame_text new)
qed

lemma sniff_round_error:
  "sniff_round rd stack bl url st = Inl e \<Longrightarrow> sniff_round_out v bl (rd, stack, url) (st, out) = Inl e"
  by (auto simp: sniff_round_out_def sniff_round_def seqE_eq_Inl sniff_frame_text)

text \<open>
  The loop of the sniffer prints what its rounds print. \<open>t\<close> is the text of the
  rounds for each output level.
\<close>

lemma init_sniffer_text:
  assumes "init_sniffer bl frs st = Inr st'"
  shows "\<exists>t. (\<forall>v out. foldE (sniff_round_out v bl) frs (st, out) = Inr (st', out @ t v)) \<and>
    t 0 = concat (map saving_line (new_saved st st')) \<and> saved st' = saved st @ new_saved st st' \<and>
    (\<forall>v. subseq (t 0) (t v))"
  using assms
proof (induction frs arbitrary: st)
  case Nil
  then show ?case by (intro exI [of _ "\<lambda>v. []"]) (simp add: init_sniffer_def)
next
  case (Cons fr frs)
  obtain rd stack url where fr: "fr = (rd, stack, url)" by (cases fr)
  obtain st1 where st1: "sniff_round rd stack bl url st = Inr st1" "init_sniffer bl frs st1 = Inr st'"
    using Cons.prems by (auto simp: init_sniffer_def fr seqE_eq_Inr)
  obtain n f where r: "\<And>v out. sniff_round_out v bl (rd, stack, url) (st, out) =
      Inr (st1, out @ frame_text v n f (new_saved st st1))"
    "frame_text 0 n f (new_saved st st1) = concat (map saving_line (new_saved st st1))"
    "saved st1 = saved st @ new_saved st st1"
    using sniff_round_text [OF st1(1)] by metis
  obtain t where t: "\<And>v out. foldE (sniff_round_out v bl) frs (st1, out) = Inr (st', out @ t v)"
    "t 0 = concat (map saving_line (new_saved st1 st'))" "saved st' = saved st1 @ new_saved st1 st'"
    "\<And>v. subseq (t 0) (t v)"
    using Cons.IH [OF st1(2)] by blast
  have "new_saved st st' = new_saved st st1 @ new_saved st1 st'"
    using r(3) t(3) by (metis append.assoc append_eq_conv_conj new_saved_def)
  then show ?case
    using r t by (intro exI [of _ "\<lambda>v. frame_text v n f (new_saved st st1) @ t v"])
      (auto simp: fr simp flip: r(2) intro: list_emb_append_mono frame_text_subseq)
qed

lemma init_sniffer_error:
  assumes "init_sniffer bl frs st = Inl e"
  shows "foldE (sniff_round_out v bl) frs (st, out) = Inl e"
  using assms
proof (induction frs arbitrary: st out)
  case (Cons fr frs)
  obtain rd stack url where fr: "fr = (rd, stack, url)" by (cases fr)
  show ?case
  proof (cases "sniff_round rd stack bl url st")
    case (Inl e')
    then show ?thesis using Cons.prems by (simp add: fr init_sniffer_def sniff_round_error)
  next
    case (Inr st1)
    obtain n f where "\<And>v out. sniff_round_out v bl (rd, stack, url) (st, out) =
        Inr (st1, out @ frame_text v n f (new_saved st st1))"
      using sniff_round_text [OF Inr] by metis
    then show ?thesis using Cons Inr by (simp add: fr init_sniffer_def)
  qed
qed (simp add: init_sniffer_def)

section \<open>Properties of the sniffer's text\<close>

lemma init_sniffer_out_cases:
  "(case init_sniffer bl frs st of
      Inl e \<Rightarrow> init_sniffer_out v bl frs (st, out) = Inl e
    | Inr st' \<Rightarrow> \<exists>t. (\<forall>v out. init_sniffer_out v bl frs (st, out) = Inr (st', out @ sniffer_head v @ t v)) \<and>
        t 0 = concat (map saving_line (new_saved st st')) \<and> saved st' = saved st @ new_saved st st' \<and>
        (\<forall>v. subseq (t 0) (t v)))"
proof (cases "init_sniffer bl frs st")
  case (Inr st')
  show ?thesis using init_sniffer_text [OF Inr] Inr by (auto simp: sniffer_out_head)
qed (simp add: sniffer_out_head init_sniffer_error)

lemma init_sniffer_out_only: "only (init_sniffer_out v bl frs (st, out)) = init_sniffer bl frs st"
  using init_sniffer_out_cases [of v bl frs st out] by (auto split: sum.splits)

text \<open>
  C20. The output level changes the text only: with and without \<open>-v\<close> the sniffer
  goes through the same states and ends with the same error if it does, and what it prints
  without the option is part of what it prints with it.
\<close>

theorem output_level_changes_text_only:
  "only (init_sniffer_out v bl frs (st, out)) = init_sniffer bl frs st \<and>
   (case (init_sniffer_out 0 bl frs (st, out), init_sniffer_out v bl frs (st, out)) of
      (Inr (st0, out0), Inr (st1, out1)) \<Rightarrow> st0 = st1 \<and> subseq out0 out1
    | (Inl e0, Inl e1) \<Rightarrow> e0 = e1
    | _ \<Rightarrow> False)"
proof (cases "init_sniffer bl frs st")
  case (Inl e)
  then show ?thesis
    using init_sniffer_out_cases [of _ bl frs st out] init_sniffer_out_only by simp
next
  case (Inr st')
  then obtain t where t: "\<And>v out. init_sniffer_out v bl frs (st, out) = Inr (st', out @ sniffer_head v @ t v)"
      "\<And>v. subseq (t 0) (t v)"
    using init_sniffer_out_cases [of v bl frs st out] by auto
  then have "subseq (sniffer_head 0 @ t 0) (sniffer_head v @ t v)" by (simp add: subseq_drop_many)
  then show ?thesis using init_sniffer_out_only [of v bl frs st out] t(1) Inr by (simp add: subseq_append')
qed

lemma quiet_run:
  assumes "init_sniffer_out 0 bl frs (st, out) = Inr (st', out')"
  shows "saved st' = saved st @ new_saved st st' \<and>
    out' = out @ concat (map saving_line (new_saved st st'))"
  using init_sniffer_out_cases [of 0 bl frs st out] assms by (auto split: sum.splits)

text \<open>A line tells the URL and the address, for URLs without a line feed.\<close>

lemma inet_ntoa_chars: "set (inet_ntoa a) \<subseteq> insert (CHR ''.'') hex_digits"
  using dec_str_digits by (auto simp: inet_ntoa_def st32_def butlast_append)

lemma line_feed: "char_of (unat (10 :: u8)) = CHR 0x0A"
  by (simp add: char_of_def bit_0)

lemma saving_body:
  "saving_line e = (''saving url http://'' @ text_of (fst e) @ '' - ip: '' @ inet_ntoa (snd e)) @ CHR 0x0A # []"
  by (simp add: saving_line_def nl_def)

lemma body_no_line_feed:
  "10 \<notin> set (fst e) \<Longrightarrow>
   set (''saving url http://'' @ text_of (fst e) @ '' - ip: '' @ inet_ntoa (snd e)) \<subseteq> - {CHR 0x0A}"
  using text_of_avoids [of 10 "fst e", unfolded line_feed] inet_ntoa_chars [of "snd e"]
  by (auto simp: hex_digits_def)

lemma body_inject:
  assumes "text_of u @ '' - ip: '' @ inet_ntoa a = text_of v @ '' - ip: '' @ inet_ntoa b"
  shows "u = v \<and> a = b"
proof -
  have no_space: "set (rev (inet_ntoa c)) \<subseteq> - {CHR '' ''}" for c
    using inet_ntoa_chars [of c] by (auto simp: hex_digits_def)
  have "rev (inet_ntoa a) @ CHR '' '' # rev (text_of u @ '' - ip:'') =
      rev (inet_ntoa b) @ CHR '' '' # rev (text_of v @ '' - ip:'')"
    using arg_cong [OF assms, of rev] by simp
  from split_at_first [OF this no_space no_space]
  have "inet_ntoa a = inet_ntoa b" "text_of u = text_of v" by simp_all
  then show ?thesis using inet_ntoa_inject text_of_inject by blast
qed

lemma saving_lines_inject:
  assumes "concat (map saving_line es) = concat (map saving_line fs)"
    and "\<forall>e \<in> set es \<union> set fs. 10 \<notin> set (fst e)"
  shows "es = fs"
  using assms
proof (induction es arbitrary: fs)
  case Nil
  then show ?case by (cases fs) (auto simp: saving_body)
next
  case (Cons e es)
  show ?case
  proof (cases fs)
    case Nil
    then show ?thesis using Cons.prems by (simp add: saving_body)
  next
    case (Cons f fs')
    let ?b = "\<lambda>e. ''saving url http://'' @ text_of (fst e) @ '' - ip: '' @ inet_ntoa (snd e)"
    have "?b e @ CHR 0x0A # concat (map saving_line es) = ?b f @ CHR 0x0A # concat (map saving_line fs')"
      using Cons.prems(1) Cons by (simp add: saving_body [of e] saving_body [of f])
    from split_at_first [OF this body_no_line_feed body_no_line_feed]
    have "?b e = ?b f" "concat (map saving_line es) = concat (map saving_line fs')"
      using Cons.prems(2) Cons by simp_all
    then show ?thesis
      using Cons.IH [of fs'] Cons.prems(2) Cons body_inject [of "fst e" "snd e" "fst f" "snd f"]
      by (auto intro: prod_eqI)
  qed
qed

text \<open>
  C26. Without \<open>-v\<close> the console is the list of the URLs saved: a run prints one line
  for each, in order, with the source address, and nothing else; so two runs with the same text
  saved the same URLs for the same addresses, when no URL has a line feed.
\<close>

theorem quiet_console_tells_saved:
  assumes "init_sniffer_out 0 bl frs (sniffer_start, []) = Inr (st, out)"
    and "init_sniffer_out 0 bl' frs' (sniffer_start, []) = Inr (st', out')"
    and "\<forall>e \<in> set (saved st) \<union> set (saved st'). 10 \<notin> set (fst e)"
  shows "out = concat (map saving_line (saved st)) \<and> (out = out' \<longleftrightarrow> saved st = saved st')"
proof -
  have start: "new_saved sniffer_start s = saved s" for s
    by (simp add: new_saved_def sniffer_start_def)
  have "out = concat (map saving_line (saved st))" "out' = concat (map saving_line (saved st'))"
    using quiet_run [OF assms(1)] quiet_run [OF assms(2)] by (simp_all add: start)
  then show ?thesis using saving_lines_inject assms(3) by auto
qed

section \<open>The set-up\<close>

text \<open>\<open>eth_init\<close> prints the name at every output level; \<open>init\<close> prints on its own only with \<open>-v\<close>.\<close>

definition eth_init_out :: "eth_env \<Rightarrow> eth_state \<times> string \<Rightarrow> (int \<times> eth_state \<times> string) outcome" where
  "eth_init_out env so = (case so of (st, out) \<Rightarrow>
     seqE (get_ifa_name (ifas env)) (\<lambda>(r, nm).
     let st = st\<lparr>ifname := nm\<rparr>
     in if r < 0 then Inr (- 1, st, out)
        else seqE (c_string (ifname st)) (\<lambda>name.
          let out = out @ ''Interface Name: '' @ text_of name @ nl
          in seqE (eth_attach env st) (\<lambda>(r, st). Inr (r, st, out)))))"

definition init_addresses_out ::
  "int \<Rightarrow> ifaddr list \<Rightarrow> app_globals \<times> string \<Rightarrow> (app_globals \<times> string) outcome" where
  "init_addresses_out v addrs so = (case so of (g, out) \<Rightarrow>
     (let g = g\<lparr>app_ifa_name := replicate (IFNAMSIZ + 1) 0\<rparr>
      in seqE (pick_ifa addrs) (\<lambda>it.
         case it of None \<Rightarrow> Inr (g, out)
         | Some it \<Rightarrow>
             seqE (deref (ifa_addr it)) (\<lambda>(_, ip).
             seqE (deref (ifa_broadaddr it)) (\<lambda>brd.
             seqE (deref (ifa_netmask it)) (\<lambda>sub.
             seqE (c_strcpy (app_ifa_name g) (ifa_name it @ [0])) (\<lambda>nm.
             let out = d_printf v (''My Ip Address: '' @ inet_ntoa ip @ nl) out;
                 out = d_printf v (''Brodcast Address For the Network: '' @ inet_ntoa brd @ nl) out;
                 out = d_printf v (''Subnet Mask: '' @ inet_ntoa sub @ nl) out
             in seqE (d_print_str v ''Interface Name: '' nm nl out) (\<lambda>out.
               Inr (g\<lparr>conf := (conf g)\<lparr>my_ip := ip, sub_addr := sub\<rparr>, brd_addr := brd,
                 app_ifa_name := nm\<rparr>, out)))))))))"

definition app_init_out ::
  "int \<Rightarrow> ifaddr list \<Rightarrow> eth_env \<Rightarrow> app_globals \<times> string \<Rightarrow> (app_globals \<times> string) outcome" where
  "app_init_out v addrs env so = (case so of (g, out) \<Rightarrow>
     seqE (init_addresses_out v addrs (g, d_printf v (''Initializing'' @ nl) out)) (\<lambda>(g, out).
     let g = g\<lparr>conf := (conf g)\<lparr>dns_addr := DNS_SRV_ADDR\<rparr>\<rparr>;
         out = d_printf v (''DNS Server Ip: '' @ inet_ntoa DNS_SRV_ADDR @ nl) out;
         out = d_printf v (''Ethernet Initialization'' @ nl) out
     in seqE (eth_init_out env (eth g, out)) (\<lambda>(_, st, out).
        Inr (g\<lparr>eth := st\<rparr>, d_printf v (''Done - Initialization'' @ nl) out))))"

lemma c_strcpy_terminated:
  assumes "c_strcpy dst src = Inr m"
  obtains n where "c_strlen m = Inr n" and "takeWhile (\<lambda>b. b \<noteq> 0) m = takeWhile (\<lambda>b. b \<noteq> 0) src"
proof -
  obtain n where n: "c_strlen src = Inr n"
    using assms by (auto simp: c_strcpy_def seqE_eq_Inr)
  then have s: "n < length src" "src ! n = 0" "0 \<notin> set (take n src)" by (simp_all add: c_strlen_Inr_iff)
  then have "src = take n src @ 0 # drop (Suc n) src" by (metis id_take_nth_drop)
  moreover obtain r where "m = take n src @ 0 # r"
    using assms n s by (auto simp: c_strcpy_def seqE_eq_Inr mem_block_def mem_write_def
        take_Suc_conv_app_nth split: if_splits)
  moreover have "takeWhile (\<lambda>b. b \<noteq> 0) (take n src @ 0 # x) = take n src" for x
    using s(3) by (subst takeWhile_append2) auto
  ultimately have "c_strlen m = Inr (length (take n src))" "takeWhile (\<lambda>b. b \<noteq> 0) m = take n src"
      "takeWhile (\<lambda>b. b \<noteq> 0) src = take n src"
    using c_strlen_terminated [OF s(3)] by (simp_all, metis)
  then show ?thesis by (intro that) simp_all
qed

lemma d_print_str_copied:
  assumes "c_strcpy dst src = Inr m"
  shows "d_print_str v a m b out = Inr (out @ level_text v (a @ text_of (takeWhile (\<lambda>b. b \<noteq> 0) src) @ b))"
proof -
  obtain n where n: "c_strlen m = Inr n" "takeWhile (\<lambda>b. b \<noteq> 0) m = takeWhile (\<lambda>b. b \<noteq> 0) src"
    using c_strcpy_terminated [OF assms] .
  then show ?thesis by (simp add: d_print_str_def level_text_def c_string_Inr [OF n(1)])
qed

lemma init_addresses_out_only:
  "only (init_addresses_out v addrs (g, out)) = init_addresses addrs g"
proof (cases "pick_ifa addrs")
  case (Inr r)
  show ?thesis
  proof (cases r)
    case (Some it)
    then show ?thesis
      using Inr
      by (cases "deref (ifa_addr it)"; cases "deref (ifa_broadaddr it)"; cases "deref (ifa_netmask it)";
          cases "c_strcpy (replicate (IFNAMSIZ + 1) 0) (ifa_name it @ [0])")
        (simp_all add: init_addresses_out_def init_addresses_def d_print_str_copied Let_def split_def)
  qed (use Inr in \<open>simp add: init_addresses_out_def init_addresses_def\<close>)
qed (simp add: init_addresses_out_def init_addresses_def)

lemma get_ifa_name_string:
  assumes "get_ifa_name addrs = Inr (r, nm)" and "\<not> r < 0"
  shows "c_string nm = Inr (takeWhile (\<lambda>b. b \<noteq> 0) nm)"
proof -
  obtain it :: "ifaddr option" where it: "(case it of None \<Rightarrow> Inr (replicate IFNAMSIZ 0)
      | Some it \<Rightarrow> c_strcpy (replicate IFNAMSIZ 0) (ifa_name it @ [0])) = Inr nm" "nm ! 0 \<noteq> 0"
    using assms by (auto simp: get_ifa_name_def seqE_eq_Inr mem_read_Inr Let_def split: if_splits)
  then obtain it' :: ifaddr where "c_strcpy (replicate IFNAMSIZ 0) (ifa_name it' @ [0]) = Inr nm"
    by (cases it) (auto simp: c_consts)
  then show ?thesis by (rule c_strcpy_terminated) (rule c_string_Inr)
qed

lemma eth_init_out_eq:
  "eth_init_out env (st, out) = seqE (get_ifa_name (ifas env)) (\<lambda>(r, nm).
     seqE (eth_init env st) (\<lambda>(k, st'). Inr (k, st',
       out @ (if r < 0 then [] else ''Interface Name: '' @ text_of (takeWhile (\<lambda>b. b \<noteq> 0) nm) @ nl))))"
proof (cases "get_ifa_name (ifas env)")
  case (Inr p)
  obtain r nm where p: "p = (r, nm)" by (cases p)
  show ?thesis
    using Inr p get_ifa_name_string [of "ifas env" r nm]
    by (cases "r < 0"; cases "eth_attach env (st\<lparr>ifname := nm\<rparr>)")
      (auto simp: eth_init_out_def eth_init_def Let_def)
qed (simp add: eth_init_out_def)

lemma app_init_out_only: "only (app_init_out v addrs env (g, out)) = app_init addrs env g"
proof (cases "init_addresses_out v addrs (g, d_printf v (''Initializing'' @ nl) out)")
  case (Inl e)
  then have "init_addresses addrs g = Inl e"
    using init_addresses_out_only by (metis only_simps(1))
  then show ?thesis using Inl by (simp add: app_init_out_def app_init_def)
next
  case (Inr p)
  obtain g' t where p: "p = (g', t)" by (cases p)
  then have "init_addresses addrs g = Inr g'"
    using init_addresses_out_only Inr by (metis only_simps(2))
  then show ?thesis
    using Inr p
    by (cases "get_ifa_name (ifas env)"; cases "eth_init env (eth g')")
      (auto simp: app_init_out_def app_init_def eth_init_out_eq Let_def eth_init_def split_def)
qed

lemma init_addresses_text:
  assumes "\<forall>it \<in> set addrs. ifa_complete it" and "find usable addrs = Some it"
  shows "\<exists>g'. init_addresses_out v addrs (g, out) = Inr (g', out @ level_text v
    (''My Ip Address: '' @ inet_ntoa (snd (the (ifa_addr it))) @ nl @
     ''Brodcast Address For the Network: '' @ inet_ntoa (the (ifa_broadaddr it)) @ nl @
     ''Subnet Mask: '' @ inet_ntoa (the (ifa_netmask it)) @ nl @
     ''Interface Name: '' @ text_of (ifa_name it) @ nl))"
proof -
  have ok: "ifa_complete it" "usable it" using assms by (auto simp: find_Some_iff)
  obtain fam ip brd sub where f: "ifa_addr it = Some (fam, ip)" "ifa_broadaddr it = Some brd"
      "ifa_netmask it = Some sub"
    using ok by (auto simp: ifa_complete_def usable_def split: option.splits)
  have name: "0 \<notin> set (ifa_name it)" "length (ifa_name it) < IFNAMSIZ + 1"
    using ok by (auto simp: ifa_complete_def name_ok_def)
  then obtain m where m: "c_strcpy (replicate (IFNAMSIZ + 1) 0) (ifa_name it @ [0]) = Inr m"
    using c_strcpy_ok [of "ifa_name it" "replicate (IFNAMSIZ + 1) 0" "[]"] by simp
  have "takeWhile (\<lambda>b. b \<noteq> 0) (ifa_name it @ [0]) = ifa_name it"
    using name(1) by (subst takeWhile_append2) auto
  moreover have "pick_ifa addrs = Inr (Some it)"
    using pick_ifa_find [of addrs] assms by (auto simp: ifa_complete_def name_ok_def)
  ultimately show ?thesis
    using f m d_print_str_copied [OF m]
    by (simp add: init_addresses_out_def deref_def d_printf_shown) (simp add: level_text_def)
qed

definition init_console :: "int \<Rightarrow> ifaddr \<Rightarrow> string" where
  "init_console v it =
     level_text v (''Initializing'' @ nl @
       ''My Ip Address: '' @ inet_ntoa (snd (the (ifa_addr it))) @ nl @
       ''Brodcast Address For the Network: '' @ inet_ntoa (the (ifa_broadaddr it)) @ nl @
       ''Subnet Mask: '' @ inet_ntoa (the (ifa_netmask it)) @ nl @
       ''Interface Name: '' @ text_of (ifa_name it) @ nl @
       ''DNS Server Ip: 8.8.8.8'' @ nl @ ''Ethernet Initialization'' @ nl) @
     ''Interface Name: '' @ text_of (ifa_name it) @ nl @
     level_text v (''Done - Initialization'' @ nl)"

lemma dns_server_text: "inet_ntoa DNS_SRV_ADDR = ''8.8.8.8''"
proof -
  have "st32 DNS_SRV_ADDR = [8, 8, 8, 8]" unfolding DNS_SRV_ADDR_def by (rule st32_ld32) simp
  moreover have "dec_str 8 = ''8''" by (simp add: dec_str_def num_str.simps digit_def)
  ultimately show ?thesis by (simp add: inet_ntoa_def)
qed

lemma app_init_text:
  assumes "\<forall>it \<in> set (ifas env). ifa_complete it" and "find usable (ifas env) = Some it"
    and "app_init_out v (ifas env) env (g, []) = Inr (g', out)"
  shows "out = init_console v it"
proof -
  have ok: "ifa_complete it" using assms by (auto simp: find_Some_iff)
  obtain g1 where g1: "init_addresses_out v (ifas env) (g, d_printf v (''Initializing'' @ nl) []) =
      Inr (g1, d_printf v (''Initializing'' @ nl) [] @ level_text v
    (''My Ip Address: '' @ inet_ntoa (snd (the (ifa_addr it))) @ nl @
     ''Brodcast Address For the Network: '' @ inet_ntoa (the (ifa_broadaddr it)) @ nl @
     ''Subnet Mask: '' @ inet_ntoa (the (ifa_netmask it)) @ nl @
     ''Interface Name: '' @ text_of (ifa_name it) @ nl))"
    using init_addresses_text [OF assms(1,2)] by blast
  have "get_ifa_name (ifas env) = Inr (0, padded_name it)"
    using get_ifa_name_find [of "ifas env"] assms(1,2) by (simp add: padded_name_def ifa_complete_def)
  moreover have "takeWhile (\<lambda>b. b \<noteq> 0) (padded_name it) = ifa_name it"
    using ok padded_name_str by (simp add: ifa_complete_def)
  ultimately show ?thesis
    using assms(3) g1
    by (auto simp: app_init_out_def eth_init_out_eq seqE_eq_Inr Let_def d_printf_shown dns_server_text
        init_console_def level_text_def)
qed

section \<open>The program\<close>

text \<open>
  What the main thread prints: \<open>init\<close>, the failures of
  \<open>pthread_create\<close>, and the sniffer. The other threads print
  \<open>init_DHCP_server_out\<close> and \<open>url_thread_out\<close>, and
  \<open>deinit\<close> runs at the end.
\<close>

definition tf_main_out :: "tf_env \<Rightarrow> u8 list list \<Rightarrow> (tf_run \<times> string) outcome" where
  "tf_main_out env argv =
     (let v = get_initial_flags argv 0
      in seqE (app_init_out v (ifas (tf_eth env)) (tf_eth env) (globals_start, [])) (\<lambda>(g, out).
         let out = (if tf_dhcp_created env \<noteq> 0 then d_printf v (''pthread_create(dhcp_thread)'' @ nl) out else out);
             out = (if tf_url_created env \<noteq> 0 then d_printf v (''pthread_create(url_thread)'' @ nl) out else out)
         in seqE (init_sniffer_out v (buf_size (eth g)) (tf_frames env) (sniffer_start, out)) (\<lambda>(st, out).
              Inr (\<lparr>verbose = v, globals = g,
                server = (if tf_dhcp_created env \<noteq> 0 then None
                  else Some (init_DHCP_server (conf g) (tf_packets env) srv_start)),
                writer_runs = (tf_url_created env = 0), sniffed = Inr st\<rparr>, out))))"

definition url_thread_out :: "int \<Rightarrow> bool \<Rightarrow> string \<Rightarrow> string" where
  "url_thread_out v opened out =
     (if opened then d_printf v (''waiting urls'' @ nl) out
      else d_printf v (''Error while creating file for the urls'' @ nl) out)"

definition deinit :: "int \<Rightarrow> string \<Rightarrow> string" where
  "deinit v out = d_printf v (''Deinitializing'' @ nl) out"

text \<open>
  C6. What the user sees: the main thread of a run without \<open>-v\<close> prints the name of
  the interface and one line for each URL it saves, with the address of the host that asked for
  it; with \<open>-v\<close> the same run goes through the same states and prints the set-up
  before the text of the sniffer.
\<close>

theorem main_thread_console:
  assumes "tf_main_out env argv = Inr (run, out)" and "sniffed run = Inr st"
    and "\<forall>it \<in> set (ifas (tf_eth env)). ifa_complete it" and "find usable (ifas (tf_eth env)) = Some it"
  shows "tf_main env argv = Inr run \<and>
    (118 \<notin> set (options argv) \<longrightarrow> out =
      ''Interface Name: '' @ text_of (ifa_name it) @ nl @ concat (map saving_line (saved st))) \<and>
    (118 \<in> set (options argv) \<longrightarrow> (\<exists>t. out = init_console 1 it @ t))"
proof -
  let ?v = "get_initial_flags argv 0"
  obtain g o1 o2 where g: "app_init_out ?v (ifas (tf_eth env)) (tf_eth env) (globals_start, []) = Inr (g, o1)"
      "init_sniffer_out ?v (buf_size (eth g)) (tf_frames env) (sniffer_start, o2) = Inr (st, out)"
      "\<exists>t. o2 = o1 @ level_text ?v t"
      "run = \<lparr>verbose = ?v, globals = g, server = (if tf_dhcp_created env \<noteq> 0 then None
          else Some (init_DHCP_server (conf g) (tf_packets env) srv_start)),
        writer_runs = (tf_url_created env = 0), sniffed = Inr st\<rparr>"
    using assms(1,2) by (auto simp: tf_main_out_def seqE_eq_Inr Let_def d_printf_shown level_text_def)
  have init: "app_init (ifas (tf_eth env)) (tf_eth env) globals_start = Inr g"
    using app_init_out_only g(1) by (metis only_simps(2))
  have "init_sniffer (buf_size (eth g)) (tf_frames env) sniffer_start = Inr st"
    using init_sniffer_out_only g(2) by (metis only_simps(2))
  then have main: "tf_main env argv = Inr run"
    using init g(4) by (simp add: tf_main_def)
  have o1: "o1 = init_console ?v it" by (rule app_init_text [OF assms(3,4) g(1)])
  have "out = ''Interface Name: '' @ text_of (ifa_name it) @ nl @ concat (map saving_line (saved st))"
    if "118 \<notin> set (options argv)"
  proof -
    have "?v = 0" using that by (simp add: flags_result)
    then show ?thesis
      using quiet_run [of "buf_size (eth g)" "tf_frames env" sniffer_start o2 st out] g(2,3) o1
      by (auto simp: init_console_def new_saved_def sniffer_start_def)
  qed
  moreover have "\<exists>t. out = init_console 1 it @ t" if "118 \<in> set (options argv)"
  proof -
    have "?v = 1" using that by (simp add: flags_result)
    then show ?thesis
      using init_sniffer_out_cases [of 1 "buf_size (eth g)" "tf_frames env" sniffer_start o2] g(2,3) o1
      by (auto split: sum.splits)
  qed
  ultimately show ?thesis using main by blast
qed

section \<open>Instances\<close>

lemma tf_main_out_runs:
  assumes "tf_main env argv = Inr run" and "sniffed run = Inr st"
  shows "\<exists>out. tf_main_out env argv = Inr (run, out)"
proof -
  let ?v = "get_initial_flags argv 0"
  obtain g where g: "app_init (ifas (tf_eth env)) (tf_eth env) globals_start = Inr g"
      "init_sniffer (buf_size (eth g)) (tf_frames env) sniffer_start = Inr st"
      "run = \<lparr>verbose = ?v, globals = g, server = (if tf_dhcp_created env \<noteq> 0 then None
          else Some (init_DHCP_server (conf g) (tf_packets env) srv_start)),
        writer_runs = (tf_url_created env = 0), sniffed = Inr st\<rparr>"
    using assms by (auto simp: tf_main_def seqE_eq_Inr Let_def)
  then obtain o1 where o1: "app_init_out ?v (ifas (tf_eth env)) (tf_eth env) (globals_start, []) = Inr (g, o1)"
    using app_init_out_only [of ?v "ifas (tf_eth env)" "tf_eth env" globals_start "[]"]
    by (cases "app_init_out ?v (ifas (tf_eth env)) (tf_eth env) (globals_start, [])") auto
  have "\<exists>t. init_sniffer_out ?v (buf_size (eth g)) (tf_frames env) (sniffer_start, out) = Inr (st, t)" for out
    using init_sniffer_out_only [of ?v "buf_size (eth g)" "tf_frames env" sniffer_start out] g(2)
    by (cases "init_sniffer_out ?v (buf_size (eth g)) (tf_frames env) (sniffer_start, out)") auto
  then obtain t where
    "\<And>out. init_sniffer_out ?v (buf_size (eth g)) (tf_frames env) (sniffer_start, out) = Inr (st, t out)"
    by metis
  then show ?thesis
    using o1 g(3) by (simp add: tf_main_out_def Let_def)
qed

lemma sample_text:
  "saving_line (([98, 46, 99, 47, 97], ld32 [10, 32, 143, 5])) = ''saving url http://b.c/a - ip: 10.32.143.5'' @ nl"
proof -
  have "st32 (ld32 [10, 32, 143, 5]) = [10, 32, 143, 5]" by (rule st32_ld32) simp
  moreover have "dec_str 10 = ''10''" "dec_str 32 = ''32''" "dec_str 143 = ''143''" "dec_str 5 = ''5''"
    by (simp_all add: dec_str_def num_str.simps digit_def)
  ultimately have "inet_ntoa (ld32 [10, 32, 143, 5]) = ''10.32.143.5''"
    by (simp add: inet_ntoa_def)
  moreover have "text_of [98, 46, 99, 47, 97] = ''b.c/a''" by (simp add: char_of_def bit_0)
  ultimately show ?thesis by (simp only: saving_line_def fst_conv snd_conv) simp
qed

lemma sample_main_run:
  obtains run st out where "tf_main_out (sample_tf [] (map tr_read [Page sample_capture])) argv = Inr (run, out)"
    and "sniffed run = Inr st" and "saved st = [([98, 46, 99, 47, 97], ld32 [10, 32, 143, 5])]"
  using sample_run tf_main_out_runs that by metis

theorem main_thread_console_witness:
  "\<exists>run out. tf_main_out (sample_tf [] (map tr_read [Page sample_capture])) [] = Inr (run, out) \<and>
     out = ''Interface Name: '' @ text_of (ifa_name sample_ifa) @ nl @
       ''saving url http://b.c/a - ip: 10.32.143.5'' @ nl"
proof -
  obtain run st out where run: "tf_main_out (sample_tf [] (map tr_read [Page sample_capture])) [] = Inr (run, out)"
      "sniffed run = Inr st" "saved st = [([98, 46, 99, 47, 97], ld32 [10, 32, 143, 5])]"
    by (rule sample_main_run)
  have "118 \<notin> set (options [])" by (simp add: options_def)
  with main_thread_console [OF run(1,2), unfolded sample_tf_sel(1), OF sample_tf_eth(1,2)] run(1,3)
  show ?thesis by (auto simp: sample_text simp del: ld32.simps tr_read.simps)
qed

theorem quiet_console_tells_saved_witness:
  "\<exists>st out. init_sniffer_out 0 4096 (map tr_read [Page sample_capture]) (sniffer_start, []) = Inr (st, out) \<and>
     out = ''saving url http://b.c/a - ip: 10.32.143.5'' @ nl"
proof -
  obtain st where st: "init_sniffer 4096 (map tr_read [Page sample_capture]) sniffer_start = Inr st"
      "saved st = [([98, 46, 99, 47, 97], ld32 [10, 32, 143, 5])]"
    using traffic_saved [of "[Page sample_capture]" 4096 sniffer_start] sample_capture_ok wf_sniffer_start
    by (auto simp: saves_def sample_entries simp del: ld32.simps tr_read.simps tr_entries.simps)
  then obtain out where out: "init_sniffer_out 0 4096 (map tr_read [Page sample_capture]) (sniffer_start, []) = Inr (st, out)"
    using init_sniffer_out_only [of 0 4096 "map tr_read [Page sample_capture]" sniffer_start "[]"]
    by (cases "init_sniffer_out 0 4096 (map tr_read [Page sample_capture]) (sniffer_start, [])") auto
  have "\<forall>e \<in> set (saved st) \<union> set (saved st). 10 \<notin> set (fst e)" by (simp only: st(2)) simp
  from quiet_console_tells_saved [OF out out this] out st(2) show ?thesis by (auto simp: sample_text simp del: ld32.simps tr_read.simps)
qed

end
