(* ===== verification/Tf_Process.thy ===== *)
theory Tf_Process
  imports Tf_Program
begin

text \<open>
  The process of \<open>TF/\<close> while its threads run: datagrams for the DHCP thread and
  frames for the sniffer come in any order. The two threads share no variable they write, so a
  step of the model is a whole round of one of them on variables of its own, and that they do not
  disturb each other is built into the model. But they share the process: \<open>exit\<close> in
  \<open>wait_dhcp_hdr\<close> or \<open>send_dhcp_hdr\<close> ends the sniffer too, an access
  outside an object ends everything that can be said, and an options reader that does not return
  stops its own thread only. The thread that writes the file is the subject of
  \<open>Url_Log\<close>.
\<close>

section \<open>Events and steps\<close>

datatype event =
    Datagram "recv_env \<times> send_env"
  | Frame "read_result \<times> u8 list \<times> u8 list"

text \<open>\<open>serving\<close> is \<open>None\<close> when the DHCP thread hangs; \<open>ended\<close> holds why the process ended.\<close>

record process =
  serving :: "dhcp_srv option"
  sniffing :: sniffer
  ended :: "c_error option"

definition process_start :: process where
  "process_start = \<lparr>serving = Some srv_start, sniffing = sniffer_start, ended = None\<rparr>"

lemma process_start_sel [simp]:
  "serving process_start = Some srv_start" "sniffing process_start = sniffer_start"
  "ended process_start = None"
  by (simp_all add: process_start_def)

fun tf_step :: "net_conf \<Rightarrow> nat \<Rightarrow> event \<Rightarrow> process \<Rightarrow> process" where
  "tf_step c bl (Datagram e) p =
     (if ended p \<noteq> None then p
      else case serving p of
        None \<Rightarrow> p
      | Some s \<Rightarrow> (case dhcp_round c e s of
            None \<Rightarrow> p\<lparr>serving := None\<rparr>
          | Some (Inl err) \<Rightarrow> p\<lparr>ended := Some err\<rparr>
          | Some (Inr s') \<Rightarrow> p\<lparr>serving := Some s'\<rparr>))"
| "tf_step c bl (Frame (rd, stack, url)) p =
     (if ended p \<noteq> None then p
      else case sniff_round rd stack bl url (sniffing p) of
        Inl err \<Rightarrow> p\<lparr>ended := Some err\<rparr>
      | Inr st \<Rightarrow> p\<lparr>sniffing := st\<rparr>)"

fun process_run :: "net_conf \<Rightarrow> nat \<Rightarrow> event list \<Rightarrow> process \<Rightarrow> process" where
  "process_run c bl [] p = p"
| "process_run c bl (e # es) p = process_run c bl es (tf_step c bl e p)"

text \<open>What each thread gets of the events.\<close>

fun datagrams :: "event list \<Rightarrow> (recv_env \<times> send_env) list" where
  "datagrams [] = []"
| "datagrams (Datagram e # es) = e # datagrams es"
| "datagrams (Frame f # es) = datagrams es"

fun captures :: "event list \<Rightarrow> (read_result \<times> u8 list \<times> u8 list) list" where
  "captures [] = []"
| "captures (Datagram e # es) = captures es"
| "captures (Frame f # es) = f # captures es"

lemma tf_run_append: "process_run c bl (es @ fs) p = process_run c bl fs (process_run c bl es p)"
  by (induction es arbitrary: p) simp_all

lemma ended_stays: "ended p \<noteq> None \<Longrightarrow> process_run c bl es p = p"
proof (induction es)
  case (Cons e es)
  then show ?case by (cases e) auto
qed simp

lemma hung_stays: "serving p = None \<Longrightarrow> serving (process_run c bl es p) = None"
proof (induction es arbitrary: p)
  case (Cons e es)
  have "serving (tf_step c bl e p) = None"
    using Cons.prems by (cases e) (auto split: sum.splits)
  then show ?case using Cons.IH by simp
qed simp

section \<open>Each thread runs as it does alone\<close>

text \<open>The outcome of the DHCP thread alone, from a state in which it may hang.\<close>

definition served :: "net_conf \<Rightarrow> (recv_env \<times> send_env) list \<Rightarrow> dhcp_srv option \<Rightarrow> dhcp_srv outcome option" where
  "served c ds s = (case s of None \<Rightarrow> None | Some s \<Rightarrow> init_DHCP_server c ds s)"

lemma served_simps [simp]:
  "served c ds None = None" "served c ds (Some s) = init_DHCP_server c ds s"
  by (simp_all add: served_def)

definition one_fails :: "net_conf \<Rightarrow> nat \<Rightarrow> event list \<Rightarrow> process \<Rightarrow> bool" where
  "one_fails c bl es p \<longleftrightarrow> (\<exists>err. served c (datagrams es) (serving p) = Some (Inl err)) \<or>
     (\<exists>err. init_sniffer bl (captures es) (sniffing p) = Inl err)"

text \<open>
  The process is still there exactly when neither thread alone fails, and then each thread has done
  what it does alone.
\<close>

lemma run_projects:
  assumes "ended p = None"
  shows "if one_fails c bl es p then ended (process_run c bl es p) \<noteq> None
    else ended (process_run c bl es p) = None \<and>
      map_option Inr (serving (process_run c bl es p)) = served c (datagrams es) (serving p) \<and>
      Inr (sniffing (process_run c bl es p)) = init_sniffer bl (captures es) (sniffing p)"
  using assms
proof (induction es arbitrary: p)
  case Nil
  then show ?case by (cases "serving p") (simp_all add: init_sniffer_def one_fails_def)
next
  case (Cons e es)
  let ?q = "tf_step c bl e p"
  show ?case
  proof (cases "ended ?q")
    case (Some err)
    then have "one_fails c bl (e # es) p"
      using Cons.prems
      by (cases e) (auto simp: one_fails_def init_sniffer_def split: option.splits sum.splits if_splits)
    then show ?thesis using ended_stays [of ?q c bl es] Some by simp
  next
    case None
    have "served c (datagrams (e # es)) (serving p) = served c (datagrams es) (serving ?q) \<and>
        init_sniffer bl (captures (e # es)) (sniffing p) = init_sniffer bl (captures es) (sniffing ?q)"
      using Cons.prems None
      by (cases e) (auto simp: served_def init_sniffer_def split: option.splits sum.splits)
    then show ?thesis using Cons.IH [OF None] by (simp add: one_fails_def)
  qed
qed

section \<open>What one thread can do to the program\<close>



text \<open>
  C18. But a server that cannot work ends the sniffer: when the socket of the first receive cannot be
  opened or bound, for instance because the port is taken, the process ends before the first
  datagram, and what is saved are the URLs asked for in the traffic captured before that.
\<close>

theorem failed_bind_ends_sniffer:
  assumes "r_socket renv < 0 \<or> r_bind renv (htonl INADDR_ANY) (htons DHCP_PRT_NUM_S) < 0"
    and "datagrams es = []" and "captures es = map tr_read ts" and "\<forall>t \<in> set ts. traffic_ok bl t"
  shows "ended (process_run c bl (es @ Datagram (renv, senv) # fs) process_start) \<noteq> None \<and>
    saved (sniffing (process_run c bl (es @ Datagram (renv, senv) # fs) process_start)) = entries ts"
proof -
  let ?p = "process_run c bl es process_start"
  obtain st where st: "init_sniffer bl (captures es) sniffer_start = Inr st" "saved st = entries ts"
    using traffic_saved [OF assms(4) wf_sniffer_start(1)] assms(3) wf_sniffer_start(2) by (auto simp: saves_def)
  then have p: "serving ?p = Some srv_start" "ended ?p = None" "sniffing ?p = st"
    using run_projects [OF process_start_sel(3), of c bl es] assms(2) by (auto simp: one_fails_def)
  let ?m = "if r_socket renv < 0 then ''socket'' else ''bind''"
  have "dhcp_round c (renv, senv) srv_start = Some (Inl (ExitFailure ?m))"
    using assms(1) by (auto simp: dhcp_round_def wait_dhcp_hdr_def)
  then have "tf_step c bl (Datagram (renv, senv)) ?p = ?p\<lparr>ended := Some (ExitFailure ?m)\<rparr>"
    using p by simp
  then show ?thesis
    using ended_stays [of "?p\<lparr>ended := Some (ExitFailure ?m)\<rparr>" c bl fs] p(3) st(2)
    by (simp add: tf_run_append)
qed

text \<open>
  C25. One packet can stop everything: after any run in which the traffic was well formed, a
  captured DNS query for the root, or for a name whose labels and dots are 512 bytes or more,
  makes the sniffer read or write outside its array \<open>url\<close>; for the root it writes
  the byte before the first. What the process does then is not defined by C; here it ends, and
  with it the DHCP server: no datagram or frame that comes later is handled, and the query is not
  saved.
\<close>

theorem bad_query_leaves_array:
  assumes "captures es = map tr_read ts" and "\<forall>t \<in> set ts. traffic_ok bl t" and "bad_query bl q"
    and "p = process_run c bl es process_start" and "ended p = None"
  shows "\<exists>e. process_run c bl (es @ Frame (ip_read q (qc_packet q [])) # fs) process_start = p\<lparr>ended := Some e\<rparr> \<and>
    e \<in> {BadRead, BadWrite} \<and> (qc_name q = [] \<longrightarrow> e = BadWrite) \<and> saved (sniffing p) = entries ts"
proof -
  obtain st where st: "init_sniffer bl (captures es) sniffer_start = Inr st" "saves (entries ts) sniffer_start st"
    using traffic_saved [OF assms(2) wf_sniffer_start(1)] assms(1) by auto
  have "sniffing p = st"
    using run_projects [OF process_start_sel(3), of c bl es] assms(4,5) st(1) by (auto split: if_splits)
  then have p: "sniffer_wf (sniffing p)" "saved (sniffing p) = entries ts"
    using st(2) wf_sniffer_start(2) by (simp_all add: saves_def)
  obtain e where e: "sniff_round (ReadBytes (rc_hdr q @ qc_packet q [] @ rc_more q)) (rc_stack q) bl (rc_url q)
      (sniffing p) = Inl e" "e \<in> {BadRead, BadWrite}" "qc_name q = [] \<longrightarrow> e = BadWrite"
    using bad_query_round [OF assms(3) p(1)] by blast
  then have "tf_step c bl (Frame (ip_read q (qc_packet q []))) p = p\<lparr>ended := Some e\<rparr>"
    using assms(5) by (simp add: ip_read_def)
  then have "process_run c bl (es @ Frame (ip_read q (qc_packet q [])) # fs) process_start = p\<lparr>ended := Some e\<rparr>"
    using ended_stays [of "p\<lparr>ended := Some e\<rparr>" c bl fs] assms(4) by (simp add: tf_run_append)
  then show ?thesis using e(2,3) p(2) by blast
qed

section \<open>Instances\<close>

lemma one_request_ok: "\<forall>t \<in> set [Page sample_capture]. traffic_ok 4096 t"
  by (simp add: sample_capture_ok)


text \<open>A query for the root, between two datagrams of a handshake.\<close>

theorem bad_query_leaves_array_witness:
  "ended (process_run sample_conf 4096
     ([Datagram (sample_event (DISCOVER, 7)), Frame (tr_read (Page sample_capture))] @
      Frame (ip_read (sample_lookup\<lparr>qc_name := []\<rparr>) (qc_packet (sample_lookup\<lparr>qc_name := []\<rparr>) [])) #
      [Datagram (sample_event (REQUEST, 7))]) process_start) = Some BadWrite"
proof -
  let ?q = "sample_lookup\<lparr>qc_name := []\<rparr>"
  let ?es = "[Datagram (sample_event (DISCOVER, 7)), Frame (tr_read (Page sample_capture))]"
  have q: "bad_query 4096 ?q"
    by (simp add: bad_query_def ip_ok_def read_fits_def sample_lookup_def qc_packet_def ip_packet_def
        bpf_header_def st16_def ip_sizes_def MAX_URL_L_def)
  have caps: "captures ?es = map tr_read [Page sample_capture]" by simp
  obtain s where s: "init_DHCP_server sample_conf (datagrams ?es) srv_start = Some (Inr s)"
    using run_replies [of "[sample_event (DISCOVER, 7)]" "[(DISCOVER, 7)]" srv_start sample_conf]
      carries_sample by auto
  obtain st where "init_sniffer 4096 (captures ?es) sniffer_start = Inr st"
    using traffic_saved [OF one_request_ok wf_sniffer_start(1)] caps by auto
  then have "ended (process_run sample_conf 4096 ?es process_start) = None"
    using run_projects [OF process_start_sel(3), of sample_conf 4096 ?es] s
    by (simp add: one_fails_def split: if_splits del: process_run.simps datagrams.simps captures.simps)
  from bad_query_leaves_array [OF caps one_request_ok q refl this, of "[Datagram (sample_event (REQUEST, 7))]"]
  obtain e where "process_run sample_conf 4096 (?es @ Frame (ip_read ?q (qc_packet ?q [])) #
      [Datagram (sample_event (REQUEST, 7))]) process_start = (process_run sample_conf 4096 ?es process_start)\<lparr>ended := Some e\<rparr>"
      "e = BadWrite" by auto
  then show ?thesis by (simp del: process_run.simps)
qed

theorem failed_bind_ends_sniffer_witness:
  "ended (process_run sample_conf 4096
     ([Frame (tr_read (Page sample_capture))] @
      Datagram ((sample_recv [])\<lparr>r_bind := \<lambda>a p. - 1\<rparr>, sample_send) # map (Frame \<circ> tr_read) sample_traffic)
     process_start) \<noteq> None"
  using failed_bind_ends_sniffer [of "(sample_recv [])\<lparr>r_bind := \<lambda>a p. - 1\<rparr>" "[Frame (tr_read (Page sample_capture))]"
      "[Page sample_capture]" 4096 sample_conf sample_send "map (Frame \<circ> tr_read) sample_traffic"] one_request_ok
  by (simp del: process_run.simps)

end
