(* ===== verification/Tf_Clients.thy ===== *)
theory Tf_Clients
  imports Tf_Process
begin

text \<open>
  The purpose of \<open>TF/\<close>: a host gets its address from the DHCP thread and the URLs it
  asks for are saved under that address. Here the two are put together, on runs of the process in
  which the datagrams of the clients and the frames of the network come in any order.
\<close>

section \<open>Requests saved by the process\<close>

lemma process_saves_requests:
  assumes "init_DHCP_server c (datagrams es) srv_start = Some (Inr s)"
    and "captures es = map tr_read trs" and "\<forall>t \<in> set trs. traffic_ok bl t"
  shows "ended (process_run c bl es process_start) = None \<and>
    serving (process_run c bl es process_start) = Some s \<and>
    saved (sniffing (process_run c bl es process_start)) = entries trs"
proof -
  obtain st where "init_sniffer bl (captures es) sniffer_start = Inr st" "saved st = entries trs"
    using traffic_saved [OF assms(3) wf_sniffer_start(1)] assms(2) wf_sniffer_start(2) by (auto simp: saves_def)
  then show ?thesis
    using run_projects [OF process_start_sel(3), of c bl es] assms(1) by (auto simp: one_fails_def)
qed

text \<open>\<open>given c k\<close> is the address of the \<open>k\<close>-th client after the start.\<close>

definition given :: "net_conf \<Rightarrow> nat \<Rightarrow> u32" where
  "given c k = get_cur_ip c (40 + of_nat k)"

text \<open>What is asked for in \<open>tr\<close> is asked for by the address \<open>a\<close>; and the entries of traffic sent from \<open>addr\<close>.\<close>

definition asked_by :: "u32 \<Rightarrow> traffic \<Rightarrow> bool" where
  "asked_by a tr \<longleftrightarrow> (\<forall>e \<in> set (tr_entries tr). snd e = a)"

definition entries_from :: "(traffic \<Rightarrow> u32) \<Rightarrow> traffic list \<Rightarrow> (u8 list \<times> u32) list" where
  "entries_from addr trs = concat (map (\<lambda>tr. map (\<lambda>e. (fst e, addr tr)) (tr_entries tr)) trs)"

lemma entries_asked_by:
  assumes "\<forall>tr \<in> set trs. asked_by (addr tr) tr"
  shows "entries trs = entries_from addr trs"
proof -
  have "tr_entries tr = map (\<lambda>e. (fst e, addr tr)) (tr_entries tr)" if "tr \<in> set trs" for tr
    using that assms by (intro map_idI [symmetric]) (force simp: asked_by_def)
  then have "map tr_entries trs = map (\<lambda>tr. map (\<lambda>e. (fst e, addr tr)) (tr_entries tr)) trs" by simp
  then show ?thesis by (simp only: entries_def entries_from_def)
qed

lemma handshakes_given:
  assumes "list_all2 carries ds (concat (map handshake ts))" and "length ts \<le> 2 ^ 32"
  obtains s where "init_DHCP_server c ds srv_start = Some (Inr s)"
    and "map reply_own_ip (sent s) = concat (map (\<lambda>k. [given c k, given c k]) [0..<length ts])"
    and "inj_on (given c) {0..<length ts}"
proof -
  have "cur_ip srv_start = 40" "sent srv_start = []" by (simp_all add: srv_start_def)
  then show ?thesis
    using handshake_addresses [OF assms(1) wf_start_pool assms(2), of c] that
    by (auto simp: given_def [abs_def] distinct_map)
qed

text \<open>
  C1. The log tells the clients apart: the DHCP thread gets complete handshakes one after the
  other, the \<open>k\<close>-th of them being that of client \<open>k\<close>, and every page
  request and look-up in the traffic comes from the address its client was given. Then, in
  whatever order datagrams and frames come, every URL asked for is saved under the address of the
  client that asked for it, and two saved requests have the same address exactly when one client
  sent both. The traffic is of the kinds of \<open>traffic_ok\<close>, and may have any packets
  that ask for nothing.
\<close>

theorem log_tells_clients_apart:
  assumes "list_all2 carries (datagrams es) (concat (map handshake ts))" and "length ts \<le> 2 ^ 32"
    and "captures es = map tr_read trs"
    and "\<forall>tr \<in> set trs. traffic_ok bl tr \<and> who tr < length ts \<and> asked_by (given c (who tr)) tr"
    and "p = process_run c bl es process_start"
  shows "\<exists>s. ended p = None \<and> serving p = Some s \<and>
    map reply_own_ip (sent s) = concat (map (\<lambda>k. [given c k, given c k]) [0..<length ts]) \<and>
    saved (sniffing p) = entries_from (\<lambda>tr. given c (who tr)) trs \<and>
    (\<forall>tr \<in> set trs. \<forall>tr' \<in> set trs. given c (who tr) = given c (who tr') \<longleftrightarrow> who tr = who tr')"
proof -
  obtain s where s: "init_DHCP_server c (datagrams es) srv_start = Some (Inr s)"
      "map reply_own_ip (sent s) = concat (map (\<lambda>k. [given c k, given c k]) [0..<length ts])"
      "inj_on (given c) {0..<length ts}"
    by (rule handshakes_given [OF assms(1,2), of c])
  have "\<forall>tr \<in> set trs. traffic_ok bl tr" using assms(4) by simp
  note process_saves_requests [OF s(1) assms(3) this]
  moreover have "entries trs = entries_from (\<lambda>tr. given c (who tr)) trs"
    by (rule entries_asked_by) (use assms(4) in simp)
  moreover have "given c (who tr) = given c (who tr') \<longleftrightarrow> who tr = who tr'"
    if "tr \<in> set trs" "tr' \<in> set trs" for tr tr'
    using that assms(4) s(3) by (auto simp: inj_on_eq_iff)
  ultimately show ?thesis using s(2) by (auto simp: assms(5))
qed

text \<open>
  C8. But not when handshakes overlap: when the DHCP thread gets the DISCOVERs of two clients
  \<open>t\<close> and \<open>u\<close> with no REQUEST of anybody between them, then the
  REQUESTs of both, in either order, and no other client whose transaction id has the key of one
  of them comes in between, both are offered and given the same address \<open>x\<close>, unless
  it is 0. Any other clients may come before, between and after. When both use the address they
  were given, the log does not tell which of the two asked for a URL: all of them are saved under
  \<open>x\<close>.
\<close>

theorem overlapping_clients_logged_alike:
  assumes "list_all2 carries (datagrams es) pkts" and "overlapping t u pre pkts"
    and "x = get_cur_ip c (40 + of_nat (length (filter (\<lambda>p. fst p = REQUEST) pre)))" and "x \<noteq> 0"
    and "captures es = map tr_read trs"
    and "\<forall>tr \<in> set trs. traffic_ok bl tr \<and> asked_by (if client tr \<in> {t, u} then x else addr tr) tr"
    and "p = process_run c bl es process_start"
  shows "\<exists>s rs. ended p = None \<and> serving p = Some s \<and>
    map decode_reply (sent s) = map Some rs \<and> both_given t u x rs \<and>
    saved (sniffing p) = entries_from (\<lambda>tr. if client tr \<in> {t, u} then x else addr tr) trs"
proof -
  obtain s rs where s: "init_DHCP_server c (datagrams es) srv_start = Some (Inr s)"
      "map decode_reply (sent s) = map Some rs" "both_given t u x rs"
    using overlap_sent [OF assms(1-4)] by blast
  have "\<forall>tr \<in> set trs. traffic_ok bl tr" using assms(6) by blast
  note process_saves_requests [OF s(1) assms(5) this]
  moreover have "entries trs = entries_from (\<lambda>tr. if client tr \<in> {t, u} then x else addr tr) trs"
    by (rule entries_asked_by) (use assms(6) in blast)
  ultimately show ?thesis using s(2,3) by (auto simp: assms(7))
qed

section \<open>Instances\<close>

definition client_capture :: request_capture where
  "client_capture = sample_capture\<lparr>rc_src := [10, 32, 143, 40]\<rparr>"

lemma client_capture_entries:
  "tr_entries (Page client_capture) = [([98, 46, 99, 47, 97], 0x288F200A)]"
  by (simp add: client_capture_def sample_capture_def sample_bytes)

lemma client_capture_ok: "traffic_ok 4096 (Page client_capture)"
proof -
  have "rc_packet client_capture [] = take 26 (rc_packet sample_capture []) @ [10, 32, 143, 40] @
      drop 30 (rc_packet sample_capture [])"
    by (simp add: client_capture_def sample_capture_def rc_packet_def ip_packet_def)
  moreover have "30 \<le> length (rc_packet sample_capture [])"
    by (simp add: sample_capture_def rc_packet_def ip_packet_def)
  ultimately have "length (rc_packet client_capture []) = length (rc_packet sample_capture [])" by simp
  then show ?thesis
    using sample_capture_ok
    by (simp add: request_ok_def ip_ok_def read_fits_def ip_sizes_def client_capture_def)
qed

lemma client_asks: "asked_by 0x288F200A (Page client_capture)"
  by (simp only: asked_by_def client_capture_entries) simp

lemma client_saved: "entries_from (\<lambda>tr. 0x288F200A) [Page client_capture] = [([98, 46, 99, 47, 97], 0x288F200A)]"
  by (simp only: entries_from_def list.map client_capture_entries) simp

lemma given_first: "given sample_conf 0 = 0x288F200A"
  using sample_first_ip by (simp add: given_def srv_start_def)

theorem log_tells_clients_apart_witness:
  "saved (sniffing (process_run sample_conf 4096
     [Datagram (sample_event (DISCOVER, 7)), Frame (tr_read (Page client_capture)),
      Datagram (sample_event (REQUEST, 7))] process_start)) = [([98, 46, 99, 47, 97], 0x288F200A)]"
proof -
  let ?es = "[Datagram (sample_event (DISCOVER, 7)), Frame (tr_read (Page client_capture)),
      Datagram (sample_event (REQUEST, 7))]"
  have "list_all2 carries (datagrams ?es) (concat (map handshake [7]))"
    by (simp add: carries_sample handshake_def)
  moreover have "captures ?es = map tr_read [Page client_capture]" by simp
  moreover have "\<forall>tr \<in> set [Page client_capture]. traffic_ok 4096 tr \<and> (\<lambda>tr. 0) tr < length [7] \<and>
      asked_by (given sample_conf ((\<lambda>tr. 0) tr)) tr"
    unfolding given_first using client_capture_ok client_asks by simp
  ultimately have "saved (sniffing (process_run sample_conf 4096 ?es process_start)) =
      entries_from (\<lambda>tr. given sample_conf 0) [Page client_capture]"
    using log_tells_clients_apart [of ?es "[7]" "[Page client_capture]" 4096 "\<lambda>tr. 0" sample_conf, OF _ _ _ _ refl]
    by (auto simp del: process_run.simps tr_read.simps traffic_ok.simps)
  then show ?thesis by (simp only: given_first client_saved)
qed

theorem overlapping_clients_logged_alike_witness:
  "saved (sniffing (process_run sample_conf 4096
     (map (\<lambda>e. Datagram (sample_event e)) [(DISCOVER, 7), (DISCOVER, 9), (DISCOVER, 8), (REQUEST, 8), (REQUEST, 7)] @
      [Frame (tr_read (Page client_capture))]) process_start)) = [([98, 46, 99, 47, 97], 0x288F200A)]"
proof -
  let ?ds = "[(DISCOVER, 7), (DISCOVER, 9), (DISCOVER, 8), (REQUEST, 8), (REQUEST, 7)]"
  let ?es = "map (\<lambda>e. Datagram (sample_event e)) ?ds @ [Frame (tr_read (Page client_capture))]"
  have ds: "list_all2 carries (datagrams ?es) ?ds" by (simp add: carries_sample)
  have keys: "get_key_for_trs_id 7 \<noteq> get_key_for_trs_id 8" by (simp add: get_key_for_trs_id_def st32_def)
  have over: "overlapping 7 8 [] ?ds"
    unfolding overlapping_def
    by (intro conjI keys exI [of _ "[(DISCOVER, 9)]"] exI [of _ "[]"] exI [of _ 8] exI [of _ 7])
      (simp_all add: no_request_def spares_def)
  have x: "0x288F200A = get_cur_ip sample_conf (40 + of_nat (length (filter (\<lambda>p. fst p = REQUEST) [])))"
    using given_first by (simp add: given_def)
  have nz: "(0x288F200A :: u32) \<noteq> 0" by simp
  have caps: "captures ?es = map tr_read [Page client_capture]" by simp
  define who :: "traffic \<Rightarrow> u32" where "who = (\<lambda>tr. 7)"
  define addr :: "traffic \<Rightarrow> u32" where "addr = (\<lambda>tr. 0)"
  have both: "(if who tr \<in> {7, 8} then 0x288F200A else addr tr) = 0x288F200A" for tr
    by (simp add: who_def)
  have ok: "\<forall>tr \<in> set [Page client_capture]. traffic_ok 4096 tr \<and>
      asked_by (if who tr \<in> {7, 8} then 0x288F200A else addr tr) tr"
    unfolding both using client_capture_ok client_asks by simp
  from overlapping_clients_logged_alike [OF ds over x nz caps ok refl]
  have "saved (sniffing (process_run sample_conf 4096 ?es process_start)) =
      entries_from (\<lambda>tr. if who tr \<in> {7, 8} then 0x288F200A else addr tr) [Page client_capture]"
    by blast
  then show ?thesis by (simp only: both client_saved)
qed

end
