(* ===== verification/Arp_Package.thy ===== *)
theory Arp_Package
  imports Net_Calls
begin

text \<open>
  ARP packages: \<open>T1/Old/Arp.c\<close>, \<open>T1/Old/Arp.h\<close> and
  \<open>T1/Old/Ethernet.c\<close>. The struct \<open>ArpPackage\<close> is a record, and
  \<open>arp_bytes\<close> its object representation, 28 bytes without padding. The
  \<open>data\<close> pointer of an \<open>EthernetPackage\<close> is the part of the receive
  buffer it points at. \<open>ethertype\<close> is a \<open>short\<close>, so a comparison with a
  constant reads it signed.
\<close>

section \<open>Data\<close>

definition ARP_ETHERTYPE :: int where [c_consts]: "ARP_ETHERTYPE = 0x0806"
definition BUFFER_SIZE :: nat where [c_consts]: "BUFFER_SIZE = 1500"
definition MAC_ADDRESS_LENGTH :: nat where [c_consts]: "MAC_ADDRESS_LENGTH = 6"
definition IP_ADDRESS_LENGTH :: nat where [c_consts]: "IP_ADDRESS_LENGTH = 4"

record arp_package =
  hardwareType :: u16
  protocolType :: u16
  hardwareLength :: u8
  protocolLength :: u8
  operation :: u16
  senderMacAddress :: "u8 list"
  senderIpAddress :: "u8 list"
  targetMacAddress :: "u8 list"
  targetIpAddress :: "u8 list"

record ethernet_package =
  destinationMac :: "u8 list"
  sourceMac :: "u8 list"
  ethertype :: u16
  data :: "u8 list"

definition wf_arp :: "arp_package \<Rightarrow> bool" where
  "wf_arp p \<longleftrightarrow> length (senderMacAddress p) = 6 \<and> length (senderIpAddress p) = 4 \<and>
     length (targetMacAddress p) = 6 \<and> length (targetIpAddress p) = 4"

definition arp_bytes :: "arp_package \<Rightarrow> u8 list" where
  "arp_bytes p = st16 (hardwareType p) @ st16 (protocolType p) @ [hardwareLength p] @
     [protocolLength p] @ st16 (operation p) @ senderMacAddress p @ senderIpAddress p @
     targetMacAddress p @ targetIpAddress p"

definition sizeof_arp :: nat where [c_consts]: "sizeof_arp = 28"

lemma length_arp_bytes [layout]: "wf_arp p \<Longrightarrow> length (arp_bytes p) = sizeof_arp"
  by (simp add: arp_bytes_def wf_arp_def c_consts)

section \<open>Operations\<close>

definition createEthernetPackageFromBuffer :: "u8 list \<Rightarrow> ethernet_package outcome" where
  "createEthernetPackageFromBuffer buffer =
     seqE (mem_block buffer 0 MAC_ADDRESS_LENGTH) (\<lambda>dst.
     seqE (mem_block buffer MAC_ADDRESS_LENGTH MAC_ADDRESS_LENGTH) (\<lambda>src.
     seqE (mem_block buffer (2 * MAC_ADDRESS_LENGTH) 2) (\<lambda>ty.
       Inr \<lparr>destinationMac = dst, sourceMac = src, ethertype = ld16 ty,
         data = drop (2 * MAC_ADDRESS_LENGTH + 2) buffer\<rparr>)))"

text \<open>
  \<open>printEthernetPackage\<close> of \<open>Ethernet.c\<close>. \<open>%u\<close> of the
  \<open>short\<close> \<open>ethertype\<close> prints it sign-extended to 32 bits.
\<close>

definition hex_run :: "u8 list \<Rightarrow> string" where
  "hex_run bs = concat (map (\<lambda>b. hex_str (unat b)) bs)"

definition printEthernetPackage :: "ethernet_package \<Rightarrow> string" where
  "printEthernetPackage p =
     ''Destination = '' @ hex_run (destinationMac p) @ nl @ ''Source = '' @ hex_run (sourceMac p) @ nl @
     ''Ethertype = '' @ dec_str (unat (scast (ethertype p) :: u32)) @ nl"

text \<open>The bytes are printed without a separator and without padding, so the printout is ambiguous.\<close>

lemma printEthernetPackage_ambiguous:
  "printEthernetPackage \<lparr>destinationMac = [0x11, 1, 0, 0, 0, 0], sourceMac = s, ethertype = t, data = d\<rparr> =
   printEthernetPackage \<lparr>destinationMac = [1, 0x11, 0, 0, 0, 0], sourceMac = s, ethertype = t, data = d\<rparr>"
  by (simp add: printEthernetPackage_def hex_run_def hex_str_def num_str.simps)

definition htonArpPackage :: "arp_package \<Rightarrow> arp_package" where
  "htonArpPackage p = p\<lparr>hardwareType := htons (hardwareType p),
     protocolType := htons (protocolType p), operation := htons (operation p)\<rparr>"

definition ntohArpPackage :: "arp_package \<Rightarrow> arp_package" where
  "ntohArpPackage p = p\<lparr>hardwareType := ntohs (hardwareType p),
     protocolType := ntohs (protocolType p), operation := htons (operation p)\<rparr>"

definition copyMemoryAndAdvancePointer :: "u8 list \<Rightarrow> nat \<Rightarrow> nat \<Rightarrow> (u8 list \<times> nat) outcome" where
  "copyMemoryAndAdvancePointer m dataPointer n =
     seqE (mem_block m dataPointer n) (\<lambda>b. Inr (b, dataPointer + n))"

definition createArpPackageWithEthernetPackage :: "ethernet_package \<Rightarrow> arp_package outcome" where
  "createArpPackageWithEthernetPackage package =
     (let m = data package
      in seqE (copyMemoryAndAdvancePointer m 0 2) (\<lambda>(hw, ptr).
         seqE (copyMemoryAndAdvancePointer m ptr 2) (\<lambda>(pr, ptr).
         seqE (copyMemoryAndAdvancePointer m ptr 1) (\<lambda>(hl, ptr).
         seqE (copyMemoryAndAdvancePointer m ptr 1) (\<lambda>(pl, ptr).
         seqE (copyMemoryAndAdvancePointer m ptr 2) (\<lambda>(op, ptr).
         seqE (copyMemoryAndAdvancePointer m ptr 6) (\<lambda>(sm, ptr).
         seqE (copyMemoryAndAdvancePointer m ptr 4) (\<lambda>(si, ptr).
         seqE (copyMemoryAndAdvancePointer m ptr 6) (\<lambda>(tm, ptr).
         seqE (copyMemoryAndAdvancePointer m ptr 4) (\<lambda>(ti, ptr).
           Inr (ntohArpPackage \<lparr>hardwareType = ld16 hw, protocolType = ld16 pr,
             hardwareLength = hd hl, protocolLength = hd pl, operation = ld16 op,
             senderMacAddress = sm, senderIpAddress = si, targetMacAddress = tm,
             targetIpAddress = ti\<rparr>)))))))))))"

definition printMacAddress :: "u8 list \<Rightarrow> string" where
  "printMacAddress = print_sep (\<lambda>b. hex_str (unat b)) (CHR '':'') (CHR 0x0A)"

definition printIpAddress :: "u8 list \<Rightarrow> string" where
  "printIpAddress = print_sep (\<lambda>b. dec_str (unat b)) (CHR ''.'') (CHR 0x0A)"

definition printArpPackage :: "arp_package \<Rightarrow> string" where
  "printArpPackage p =
     ''Hardware Type = '' @ dec_str (unat (ntohs (hardwareType p))) @ nl @
     ''Protocol Type = '' @ dec_str (unat (ntohs (protocolType p))) @ nl @
     ''Hardware Length = '' @ dec_str (unat (hardwareLength p)) @ nl @
     ''Protocol Length = '' @ dec_str (unat (protocolLength p)) @ nl @
     ''Operation = '' @ hex_str (unat (ntohs (operation p))) @ nl @
     ''Sender Mac = '' @ printMacAddress (senderMacAddress p) @
     ''Sender Ip = '' @ printIpAddress (senderIpAddress p) @
     ''Target Mac = '' @ printMacAddress (targetMacAddress p) @
     ''Target Ip = '' @ printIpAddress (targetIpAddress p)"

text \<open>
  The body of \<open>arpSnifferLoop\<close> and the loop over what \<open>recv\<close> gives. The
  buffer is not initialised and keeps its bytes from one package to the next; the result is what
  is printed, and whether the loop was left by a failed \<open>recv\<close>.
\<close>

definition store_recv :: "u8 list \<Rightarrow> u8 list \<Rightarrow> u8 list" where
  "store_recv bs buffer = recv_into BUFFER_SIZE bs buffer"

fun arpSnifferLoop :: "recv_event list \<Rightarrow> u8 list \<Rightarrow> string \<Rightarrow> (bool \<times> string) outcome" where
  "arpSnifferLoop [] buffer out = Inr (True, out)"
| "arpSnifferLoop (RecvFailed # es) buffer out = Inr (False, out)"
| "arpSnifferLoop (Recv bs # es) buffer out =
     (let buffer = store_recv bs buffer
      in seqE (createEthernetPackageFromBuffer buffer) (\<lambda>package.
         if sint (ethertype package) = ARP_ETHERTYPE
         then seqE (createArpPackageWithEthernetPackage package) (\<lambda>arpPackage.
           arpSnifferLoop es buffer (out @ ''Arp Package:'' @ nl @ printArpPackage arpPackage))
         else arpSnifferLoop es buffer out))"

text \<open>
  \<open>initArpSnifferWithInterfaceName\<close>: the name is copied to
  \<open>sharedInterfaceName\<close>, an array of 16 bytes; \<open>created\<close> is the result
  of \<open>pthread_create\<close>.
\<close>

definition initArpSnifferWithInterfaceName :: "int \<Rightarrow> u8 list \<Rightarrow> (int \<times> u8 list) outcome" where
  "initArpSnifferWithInterfaceName created interfaceName =
     seqE (c_strcpy (replicate 16 0) interfaceName) (\<lambda>sharedInterfaceName.
       Inr (if created \<noteq> 0 then - 1 else 0, sharedInterfaceName))"

section \<open>Round trips\<close>

lemma htons_htons [simp]: "htons (htons w) = w"
  by (metis n16.ntoh_eq_hton n16.ntoh_hton)

lemma ntoh_hton_arp [simp]: "ntohArpPackage (htonArpPackage p) = p"
  by (cases p) (simp add: ntohArpPackage_def htonArpPackage_def)

lemma wf_hton_arp [simp]: "wf_arp (htonArpPackage p) = wf_arp p"
  by (simp add: wf_arp_def htonArpPackage_def)

lemma copy_at:
  assumes "drop ptr m = b @ r" and "0 < length b"
  shows "copyMemoryAndAdvancePointer m ptr (length b) = Inr (b, ptr + length b)"
    and "drop (ptr + length b) m = r"
proof -
  have "length m - ptr = length b + length r" using arg_cong [OF assms(1), of length] by simp
  then have "ptr + length b \<le> length m" using assms(2) by linarith
  then have "mem_block m ptr (length b) = Inr b"
    using assms by (simp add: mem_block_def)
  then show "copyMemoryAndAdvancePointer m ptr (length b) = Inr (b, ptr + length b)"
    by (simp add: copyMemoryAndAdvancePointer_def)
  have "drop (ptr + length b) m = drop (length b) (drop ptr m)" by (simp add: add.commute)
  then show "drop (ptr + length b) m = r" by (simp add: assms)
qed

lemma copy_at2:
  assumes "drop ptr m = st16 w @ r"
  shows "copyMemoryAndAdvancePointer m ptr 2 = Inr (st16 w, ptr + 2)" and "drop (ptr + 2) m = r"
  using copy_at [OF assms] by simp_all

lemma copy_at1:
  assumes "drop ptr m = [b] @ r"
  shows "copyMemoryAndAdvancePointer m ptr 1 = Inr ([b], ptr + 1)" and "drop (ptr + 1) m = r"
  using copy_at [OF assms] by simp_all

lemma create_arp:
  assumes "wf_arp p" and "data e = arp_bytes p @ r"
  shows "createArpPackageWithEthernetPackage e = Inr (ntohArpPackage p)"
proof -
  let ?m = "data e"
  have l: "length (senderMacAddress p) = 6" "length (senderIpAddress p) = 4"
      "length (targetMacAddress p) = 6" "length (targetIpAddress p) = 4"
    using assms(1) by (simp_all add: wf_arp_def)
  have "drop 0 ?m = st16 (hardwareType p) @ st16 (protocolType p) @ [hardwareLength p] @
      [protocolLength p] @ st16 (operation p) @ senderMacAddress p @ senderIpAddress p @
      targetMacAddress p @ targetIpAddress p @ r"
    using assms(2) by (simp add: arp_bytes_def)
  note s1 = copy_at2 [OF this]
  note s2 = copy_at2 [OF s1(2)]
  note s3 = copy_at1 [OF s2(2)]
  note s4 = copy_at1 [OF s3(2)]
  note s5 = copy_at2 [OF s4(2)]
  note s6 = copy_at [OF s5(2), unfolded l, OF zero_less_numeral]
  note s7 = copy_at [OF s6(2), unfolded l, OF zero_less_numeral]
  note s8 = copy_at [OF s7(2), unfolded l, OF zero_less_numeral]
  note s9 = copy_at [OF s8(2), unfolded l, OF zero_less_numeral]
  show ?thesis
    by (simp only: createArpPackageWithEthernetPackage_def Let_def s1(1) s2(1) s3(1) s4(1) s5(1)
        s6(1) s7(1) s8(1) s9(1) seqE_Inr prod.case ld16_st16 list.sel) (cases p; simp)
qed

definition eth_frame :: "u8 list \<Rightarrow> u8 list \<Rightarrow> u16 \<Rightarrow> u8 list \<Rightarrow> u8 list" where
  "eth_frame dst src ty payload = dst @ src @ st16 (htons ty) @ payload"

lemma create_ethernet:
  assumes "length dst = 6" and "length src = 6"
  shows "createEthernetPackageFromBuffer (eth_frame dst src ty payload) =
    Inr \<lparr>destinationMac = dst, sourceMac = src, ethertype = htons ty, data = payload\<rparr>"
proof -
  have "ld16 (rev (st16 ty)) = htons ty" by (simp add: htons_def)
  then show ?thesis
    using assms
    by (simp add: createEthernetPackageFromBuffer_def eth_frame_def mem_block_def c_consts)
qed

text \<open>
  Round trip of an ARP package: what is converted to network order, laid out as the struct and
  sent in an Ethernet frame is read back as the same package, whatever follows it in the buffer.
\<close>

lemma arp_roundtrip:
  assumes "wf_arp p" and "length dst = 6" and "length src = 6"
  shows "seqE (createEthernetPackageFromBuffer (eth_frame dst src 0x0806 (arp_bytes (htonArpPackage p) @ r)))
    createArpPackageWithEthernetPackage = Inr p"
  using create_arp [of "htonArpPackage p"] assms by (simp add: create_ethernet)

text \<open>
  The sniffer thread compares the type field without converting it, so a frame of type 0x0806 is
  passed over, and a frame is taken for ARP when its type field is 0x0608.
\<close>

lemma arp_sniffer_step:
  assumes "length dst = 6" and "length src = 6" and "length payload \<le> 1486" and "wf_arp p"
    and "payload = arp_bytes p @ r"
  shows "arpSnifferLoop (Recv (eth_frame dst src ty payload) # es) buffer out =
    (if ty = 0x0608
     then arpSnifferLoop es (store_recv (eth_frame dst src ty payload) buffer)
       (out @ ''Arp Package:'' @ nl @ printArpPackage (ntohArpPackage p))
     else arpSnifferLoop es (store_recv (eth_frame dst src ty payload) buffer) out)"
proof -
  have "take BUFFER_SIZE (eth_frame dst src ty payload) = eth_frame dst src ty payload"
    using assms by (simp add: eth_frame_def c_consts)
  then have "store_recv (eth_frame dst src ty payload) buffer =
      eth_frame dst src ty payload @ drop (length (eth_frame dst src ty payload)) buffer"
    by (simp only: store_recv_def recv_into_def Let_def)
  then obtain r' where buf: "store_recv (eth_frame dst src ty payload) buffer =
      eth_frame dst src ty (payload @ r')"
    by (simp add: eth_frame_def)
  have "sint (htons ty) = ARP_ETHERTYPE \<longleftrightarrow> htons ty = 0x0806"
  proof -
    have "sint (0x0806 :: u16) = ARP_ETHERTYPE" by (simp add: c_consts)
    then show ?thesis by (metis signed_word_eqI)
  qed
  also have "\<dots> \<longleftrightarrow> ty = 0x0608"
  proof -
    have "htons 0x0608 = 0x0806" by (simp add: htons_def st16_def)
    then show ?thesis by (metis n16.hton_eq)
  qed
  finally have type: "sint (htons ty) = ARP_ETHERTYPE \<longleftrightarrow> ty = 0x0608" .
  let ?e = "\<lparr>destinationMac = dst, sourceMac = src, ethertype = htons ty, data = payload @ r'\<rparr>"
  have eth: "createEthernetPackageFromBuffer (store_recv (eth_frame dst src ty payload) buffer) = Inr ?e"
    unfolding buf by (rule create_ethernet [OF assms(1,2)])
  have arp: "createArpPackageWithEthernetPackage ?e = Inr (ntohArpPackage p)"
    by (rule create_arp [OF assms(4), of _ "r @ r'"]) (simp add: assms(5))
  show ?thesis
    by (simp only: arpSnifferLoop.simps Let_def eth arp seqE_Inr ethernet_package.select_convs type)
qed

lemma printMac_inject:
  "printMacAddress a @ r = printMacAddress b @ r' \<Longrightarrow> length a = length b \<Longrightarrow> a = b \<and> r = r'"
  unfolding printMacAddress_def by (drule print_sep_inject) (simp_all add: hex_str_digits)

lemma printIp_inject:
  "printIpAddress a @ r = printIpAddress b @ r' \<Longrightarrow> length a = length b \<Longrightarrow> a = b \<and> r = r'"
  unfolding printIpAddress_def by (drule print_sep_inject) (simp_all add: dec_str_digits)

lemma line_inject:
  "num @ nl @ r = num' @ nl @ r' \<Longrightarrow> set num \<subseteq> hex_digits \<Longrightarrow> set num' \<subseteq> hex_digits \<Longrightarrow> num = num' \<and> r = r'"
  unfolding nl_def append_Cons append_Nil by (drule split_at_first [where D = hex_digits]) simp_all

text \<open>
  The printout of a package is complete: two packages with the same printout are equal.
\<close>

lemma printArpPackage_inject:
  assumes "printArpPackage p = printArpPackage q" and "wf_arp p" and "wf_arp q"
  shows "p = q"
proof -
  have digits: "set (dec_str n) \<subseteq> hex_digits" "set (hex_str n) \<subseteq> hex_digits" for n
    by (rule dec_str_digits, rule hex_str_digits)
  have w16: "v = w" if "unat (ntohs v) = unat (ntohs w)" for v w
    using that n16.ntoh_eq unsigned_word_eqI by blast
  have w8: "v = w" if "unat v = unat w" for v w :: u8
    using that by (rule unsigned_word_eqI)
  note eq = assms(1) [unfolded printArpPackage_def append_assoc same_append_eq]
  note l1 = line_inject [OF eq digits(1) digits(1)]
  note l2 = line_inject [OF l1 [THEN conjunct2, unfolded same_append_eq] digits(1) digits(1)]
  note l3 = line_inject [OF l2 [THEN conjunct2, unfolded same_append_eq] digits(1) digits(1)]
  note l4 = line_inject [OF l3 [THEN conjunct2, unfolded same_append_eq] digits(1) digits(1)]
  note l5 = line_inject [OF l4 [THEN conjunct2, unfolded same_append_eq] digits(2) digits(2)]
  have len: "length (senderMacAddress p) = length (senderMacAddress q)"
      "length (senderIpAddress p) = length (senderIpAddress q)"
      "length (targetMacAddress p) = length (targetMacAddress q)"
      "length (targetIpAddress p) = length (targetIpAddress q)"
    using assms(2,3) by (simp_all add: wf_arp_def)
  note l6 = printMac_inject [OF l5 [THEN conjunct2, unfolded same_append_eq] len(1)]
  note l7 = printIp_inject [OF l6 [THEN conjunct2, unfolded same_append_eq] len(2)]
  note l8 = printMac_inject [OF l7 [THEN conjunct2, unfolded same_append_eq] len(3)]
  have l9: "targetIpAddress p = targetIpAddress q"
    using printIp_inject [of "targetIpAddress p" "[]" "targetIpAddress q" "[]"] l8 len(4) by simp
  show ?thesis
    using l1 l2 l3 l4 l5 l6 l7 l8 l9 w16 w8
    by (intro arp_package.equality) simp_all
qed

section \<open>Instances\<close>

definition sample_arp :: arp_package where
  "sample_arp = \<lparr>hardwareType = 1, protocolType = 0x0800, hardwareLength = 6, protocolLength = 4,
     operation = 2, senderMacAddress = replicate 6 1, senderIpAddress = [10, 32, 143, 1],
     targetMacAddress = replicate 6 2, targetIpAddress = [10, 32, 143, 5]\<rparr>"

lemma wf_sample_arp [simp]: "wf_arp sample_arp"
  by (simp add: wf_arp_def sample_arp_def)

lemma arp_roundtrip_witness:
  "seqE (createEthernetPackageFromBuffer
     (eth_frame (replicate 6 2) (replicate 6 1) 0x0806 (arp_bytes (htonArpPackage sample_arp) @ [])))
     createArpPackageWithEthernetPackage = Inr sample_arp"
  by (rule arp_roundtrip) simp_all

lemma printArpPackage_inject_witness:
  "printArpPackage (sample_arp\<lparr>operation := 1\<rparr>) \<noteq> printArpPackage sample_arp"
proof
  assume "printArpPackage (sample_arp\<lparr>operation := 1\<rparr>) = printArpPackage sample_arp"
  from printArpPackage_inject [OF this] show False by (simp add: sample_arp_def wf_arp_def)
qed

end
