(* ===== verification/Arp_Network.thy ===== *)
theory Arp_Network
  imports Arp_Package
begin

text \<open>
  \<open>T1/Old/Network.c\<close>: the raw socket, and the sending and receiving of ARP packages.

  The system calls are parameters: the record \<open>host_env\<close> holds, for each
  \<open>ioctl\<close> of the set-up, its result and what it stores as a function of the name in
  the request, and \<open>sendto\<close> is a function of the frame; \<open>sock_env\<close> is
  what they give for the requests that were made. The variables of the file are the record
  \<open>arp_net\<close>; \<open>sent\<close> collects the frames handed to \<open>sendto\<close>
  with success and \<open>screen\<close> the text printed.
\<close>

section \<open>The socket\<close>

definition ETH_ALEN :: u8 where [c_consts]: "ETH_ALEN = 6"

record sock_env =
  e_socket :: int
  e_ifindex :: "int \<times> u32"
  e_flags :: "int \<times> u16"
  e_hwaddr :: "int \<times> u8 list"   \<comment> \<open>the 14 bytes of \<open>sa_data\<close>\<close>
  e_addr :: "int \<times> u32"
  e_setflags :: "u16 \<Rightarrow> int"

record host_env =
  req_stack :: "nat \<Rightarrow> u8 list"   \<comment> \<open>what \<open>ifr_name\<close> holds in the four requests, not initialised\<close>
  h_socket :: int
  h_ifindex :: "u8 list \<Rightarrow> int \<times> u32"
  h_flags :: "u8 list \<Rightarrow> int \<times> u16"
  h_hwaddr :: "u8 list \<Rightarrow> int \<times> u8 list"
  h_addr :: "u8 list \<Rightarrow> int \<times> u32"
  h_setflags :: "u8 list \<Rightarrow> u16 \<Rightarrow> int"

record arp_net =
  sharedSocket :: int
  sll_family :: u16
  sll_protocol :: u16
  sll_hatype :: u16
  sll_pkttype :: u8
  sll_ifindex :: u32
  sll_halen :: u8
  sll_addr :: "u8 list"
  localInterfaceMacAddress :: "u8 list"
  localInterfaceIpAddress :: "u8 list"
  sent :: "u8 list list"
  screen :: string

definition net_start :: arp_net where
  "net_start = \<lparr>sharedSocket = - 1, sll_family = 0, sll_protocol = 0, sll_hatype = 0, sll_pkttype = 0,
     sll_ifindex = 0, sll_halen = 0, sll_addr = replicate 8 0,
     localInterfaceMacAddress = replicate 6 0, localInterfaceIpAddress = replicate 4 0,
     sent = [], screen = []\<rparr>"

definition ip_bytes :: "u32 \<Rightarrow> u8 list" where
  "ip_bytes a = [ucast (a AND 0xFF), ucast (drop_bit 8 a AND 0xFF), ucast (drop_bit 16 a AND 0xFF),
     ucast (drop_bit 24 a AND 0xFF)]"

text \<open>The four requests, with the name of the interface copied into each.\<close>

definition name_requests :: "host_env \<Rightarrow> u8 list \<Rightarrow> sock_env outcome" where
  "name_requests host interfaceName =
     seqE (c_strncpy (req_stack host 0) interfaceName (IFNAMSIZ - 1)) (\<lambda>interfaceIndex.
     seqE (c_strncpy (req_stack host 1) interfaceName (IFNAMSIZ - 1)) (\<lambda>interfaceMac.
     seqE (c_strncpy (req_stack host 2) interfaceName (IFNAMSIZ - 1)) (\<lambda>interfaceIp.
     seqE (c_strncpy (req_stack host 3) interfaceName (IFNAMSIZ - 1)) (\<lambda>interfaceFlags.
       Inr \<lparr>e_socket = h_socket host, e_ifindex = h_ifindex host interfaceIndex,
         e_flags = h_flags host interfaceFlags, e_hwaddr = h_hwaddr host interfaceMac,
         e_addr = h_addr host interfaceIp, e_setflags = h_setflags host interfaceFlags\<rparr>))))"

definition initSocketWithInterfaceName ::
  "host_env \<Rightarrow> u8 list \<Rightarrow> bool \<Rightarrow> arp_net \<Rightarrow> (int \<times> arp_net) outcome" where
  "initSocketWithInterfaceName host interfaceName isShared s =
     seqE (name_requests host interfaceName) (\<lambda>env.
      if e_socket env < 0 then Inr (- 1, s)
      else if fst (e_ifindex env) < 0 then Inr (- 1, s)
      else if fst (e_flags env) < 0 then Inr (- 1, s)
      else if fst (e_hwaddr env) < 0 then Inr (- 1, s)
      else seqE (if isShared
          then seqE (mem_block (snd (e_hwaddr env)) 0 MAC_ADDRESS_LENGTH) (\<lambda>mac.
               seqE (mem_write (localInterfaceMacAddress s) 0 mac) (\<lambda>lmac.
               seqE (mem_write (sll_addr s) 0 mac) (\<lambda>sll.
                 Inr (s\<lparr>sll_ifindex := snd (e_ifindex env), sll_halen := ETH_ALEN,
                   localInterfaceMacAddress := lmac, sll_addr := sll\<rparr>))))
          else Inr s) (\<lambda>s.
        if fst (e_addr env) < 0 then Inr (- 1, s)
        else (let s = (if isShared
                then s\<lparr>localInterfaceIpAddress := ip_bytes (snd (e_addr env)),
                    screen := screen s @ ''Ip Address '' @ inet_ntoa (snd (e_addr env)) @ nl\<rparr>
                else s)
              in if e_setflags env (snd (e_flags env) OR IFF_PROMISC) < 0 then Inr (- 1, s)
                 else Inr (e_socket env, s))))"

definition initSharedSocketWithInterfaceName ::
  "host_env \<Rightarrow> u8 list \<Rightarrow> arp_net \<Rightarrow> (int \<times> arp_net) outcome" where
  "initSharedSocketWithInterfaceName host interfaceName s =
     seqE (initSocketWithInterfaceName host interfaceName True s) (\<lambda>(fd, s). Inr (fd, s\<lparr>sharedSocket := fd\<rparr>))"

text \<open>
  The background thread: \<open>arpSnifferLoop\<close> with a socket of its own. The result is
  the text printed and whether it still runs; \<open>buffer\<close> is the array before the first
  package.
\<close>

definition arp_sniffer_thread ::
  "host_env \<Rightarrow> u8 list \<Rightarrow> u8 list \<Rightarrow> recv_event list \<Rightarrow> arp_net \<Rightarrow> (bool \<times> string) outcome" where
  "arp_sniffer_thread host sharedInterfaceName buffer es s =
     (let out = ''Initializing Arp Sniffer'' @ nl
      in seqE (initSocketWithInterfaceName host sharedInterfaceName False s) (\<lambda>(rawSocket, _).
           if rawSocket < 0 then Inr (False, out) else arpSnifferLoop es buffer out))"

text \<open>
  Closing: the result of \<open>close\<close> and the text \<open>perror\<close> prints.
  \<open>close_fd\<close> is the system call.
\<close>

definition closeSocketWithFileDescriptor :: "(int \<Rightarrow> int) \<Rightarrow> int \<Rightarrow> int \<times> string" where
  "closeSocketWithFileDescriptor close_fd fileDescriptor =
     (let operationCode = close_fd fileDescriptor
      in (operationCode,
          if operationCode < 0 then ''Error while closing socket with file Descriptor'' else []))"

definition closeSharedSocket :: "(int \<Rightarrow> int) \<Rightarrow> arp_net \<Rightarrow> int \<times> string" where
  "closeSharedSocket close_fd s = closeSocketWithFileDescriptor close_fd (sharedSocket s)"

definition printSharedSocketAddress :: "arp_net \<Rightarrow> string" where
  "printSharedSocketAddress s =
     ''sll_family '' @ dec_str (unat (sll_family s)) @ nl @
     ''sll_protocol '' @ dec_str (unat (sll_protocol s)) @ nl @
     ''sll_ifindex '' @ dec_str (unat (sll_ifindex s)) @ nl @
     ''sll_hatype '' @ dec_str (unat (sll_hatype s)) @ nl @
     ''sll_pkttype '' @ dec_str (unat (sll_pkttype s)) @ nl @
     ''sll_halen '' @ dec_str (unat (sll_halen s)) @ nl @
     ''sll_addr = '' @ printMacAddress (sll_addr s)"

section \<open>Sending and receiving\<close>

definition sendArpPackage ::
  "(u8 list \<Rightarrow> int) \<Rightarrow> arp_package \<Rightarrow> arp_net \<Rightarrow> (int \<times> arp_package \<times> arp_net) outcome" where
  "sendArpPackage sendto package s =
     (let arpEtherType = htons 0x0806;
          buffer = replicate BUFFER_SIZE 0;
          package = htonArpPackage package;
          s = s\<lparr>screen := screen s @ printArpPackage package\<rparr>
      in seqE (mem_write (sll_addr s) 0 (targetMacAddress package)) (\<lambda>sll.
         let s = s\<lparr>sll_addr := sll\<rparr>
         in seqE (mem_write buffer 0 (targetMacAddress package)) (\<lambda>buffer.
            seqE (mem_write buffer MAC_ADDRESS_LENGTH (localInterfaceMacAddress s)) (\<lambda>buffer.
            seqE (mem_write buffer (2 * MAC_ADDRESS_LENGTH) (st16 arpEtherType)) (\<lambda>buffer.
            seqE (mem_write buffer (2 * MAC_ADDRESS_LENGTH + 2) (arp_bytes package)) (\<lambda>buffer.
            let frameLength = 2 * MAC_ADDRESS_LENGTH + 2 + sizeof_arp;
                s = s\<lparr>screen := screen s @ ''Trying to send package with '' @
                  (if sharedSocket s < 0 then ''-'' else '''') @ dec_str (nat \<bar>sharedSocket s\<bar>) @ nl\<rparr>
            in if sendto (take frameLength buffer) < 0 then Inr (- 1, package, s)
               else Inr (0, ntohArpPackage package, s\<lparr>sent := sent s @ [take frameLength buffer]\<rparr>)))))))"

text \<open>
  The loop of \<open>receiveArpPackage\<close> over what \<open>recv\<close> gives:
  \<open>None\<close> while it waits, and otherwise its result, the package it stored and the
  events it left. The buffer is cleared once, before the loop.
\<close>

fun receive_loop ::
  "u16 \<Rightarrow> u8 list \<Rightarrow> recv_event list \<Rightarrow> (int \<times> arp_package option \<times> recv_event list) option outcome" where
  "receive_loop op buffer [] = Inr None"
| "receive_loop op buffer (RecvFailed # es) = Inr (Some (- 1, None, es))"
| "receive_loop op buffer (Recv bs # es) =
     (let buffer = store_recv bs buffer
      in seqE (createEthernetPackageFromBuffer buffer) (\<lambda>ethernetPackage.
         if uint (ntohs (ethertype ethernetPackage)) = ARP_ETHERTYPE
         then seqE (createArpPackageWithEthernetPackage ethernetPackage) (\<lambda>arpPackage.
           if op = operation arpPackage then Inr (Some (0, Some arpPackage, es))
           else receive_loop op buffer es)
         else receive_loop op buffer es))"

definition receiveArpPackage ::
  "u16 \<Rightarrow> recv_event list \<Rightarrow> (int \<times> arp_package option \<times> recv_event list) option outcome" where
  "receiveArpPackage op es = receive_loop op (replicate BUFFER_SIZE 0) es"

section \<open>Properties of the socket\<close>

lemma ip_bytes_st32: "ip_bytes a = st32 a"
proof -
  have m: "(ucast (v AND 0xFF) :: u8) = ucast v" for v :: u32
  proof (rule bit_word_eqI)
    fix n assume "n < LENGTH(8)"
    moreover have m: "(0xFF :: u32) = mask 8" by (simp add: mask_eq_exp_minus_1)
    ultimately have "bit (0xFF :: u32) n" unfolding m by (simp add: bit_mask_iff)
    then show "bit (ucast (v AND 0xFF) :: u8) n = bit (ucast v :: u8) n"
      by (simp add: bit_simps)
  qed
  show ?thesis by (simp add: ip_bytes_def st32_def m)
qed

definition sock_ok :: "sock_env \<Rightarrow> bool" where
  "sock_ok env \<longleftrightarrow> 0 \<le> e_socket env \<and> 0 \<le> fst (e_ifindex env) \<and> 0 \<le> fst (e_flags env) \<and>
     0 \<le> fst (e_hwaddr env) \<and> 0 \<le> fst (e_addr env) \<and>
     0 \<le> e_setflags env (snd (e_flags env) OR IFF_PROMISC)"

definition net_wf :: "arp_net \<Rightarrow> bool" where
  "net_wf s \<longleftrightarrow> length (sll_addr s) = 8 \<and> length (localInterfaceMacAddress s) = 6 \<and>
     length (localInterfaceIpAddress s) = 4"

text \<open>The name as \<open>strncpy\<close> leaves it in a request, and what the calls then give.\<close>

definition ifr_name :: "u8 list \<Rightarrow> u8 list \<Rightarrow> u8 list" where
  "ifr_name st nm = (let n = take 15 (takeWhile (\<lambda>b. b \<noteq> 0) nm) in n @ replicate (15 - length n) 0 @ drop 15 st)"

definition asked :: "host_env \<Rightarrow> u8 list \<Rightarrow> sock_env" where
  "asked host nm = \<lparr>e_socket = h_socket host, e_ifindex = h_ifindex host (ifr_name (req_stack host 0) nm),
     e_flags = h_flags host (ifr_name (req_stack host 3) nm),
     e_hwaddr = h_hwaddr host (ifr_name (req_stack host 1) nm),
     e_addr = h_addr host (ifr_name (req_stack host 2) nm),
     e_setflags = h_setflags host (ifr_name (req_stack host 3) nm)\<rparr>"

definition stack_ok :: "host_env \<Rightarrow> bool" where
  "stack_ok host \<longleftrightarrow> (\<forall>i. length (req_stack host i) = IFNAMSIZ)"

lemma name_requests_asked:
  assumes "stack_ok host"
  shows "name_requests host (nm @ 0 # zs) = Inr (asked host nm)"
proof -
  have "c_strncpy (req_stack host i) (nm @ 0 # zs) 15 = Inr (ifr_name (req_stack host i) nm)" for i
    using assms
    by (simp add: c_strncpy_def ifr_name_def mem_write_def stack_ok_def Let_def takeWhile_tail c_consts)
  then show ?thesis by (simp add: name_requests_def asked_def IFNAMSIZ_def)
qed

text \<open>
  Setting up the shared socket: it returns the descriptor exactly when every system call
  succeeded, and then the hardware address, the index and the IP address of the interface are
  in the variables, the IP address in network byte order; otherwise it returns -1, also when
  some of them are already stored.
\<close>

lemma init_shared:
  assumes "stack_ok host" and "env = asked host nm"
    and "length (snd (e_hwaddr env)) = 14" and "net_wf s"
  shows "\<exists>fd s'. initSharedSocketWithInterfaceName host (nm @ 0 # zs) s = Inr (fd, s') \<and> net_wf s' \<and>
    sharedSocket s' = fd \<and> sent s' = sent s \<and>
    (sock_ok env \<longrightarrow> fd = e_socket env \<and> sll_ifindex s' = snd (e_ifindex env) \<and>
      localInterfaceMacAddress s' = take 6 (snd (e_hwaddr env)) \<and>
      localInterfaceIpAddress s' = st32 (snd (e_addr env))) \<and>
    (\<not> sock_ok env \<longrightarrow> fd = - 1)"
proof -
  have mac: "mem_block (snd (e_hwaddr env)) 0 6 = Inr (take 6 (snd (e_hwaddr env)))"
    using assms(3) by (simp add: mem_block_def)
  have w: "mem_write (localInterfaceMacAddress s) 0 (take 6 (snd (e_hwaddr env))) =
      Inr (take 6 (snd (e_hwaddr env)))"
    "mem_write (sll_addr s) 0 (take 6 (snd (e_hwaddr env))) =
      Inr (take 6 (snd (e_hwaddr env)) @ drop 6 (sll_addr s))"
    using assms(3,4) by (simp_all add: mem_write_def net_wf_def)
  show ?thesis
    using assms(3,4) mac w
    by (auto simp: initSharedSocketWithInterfaceName_def initSocketWithInterfaceName_def sock_ok_def
        name_requests_asked [OF assms(1)] net_wf_def Let_def ip_bytes_st32 MAC_ADDRESS_LENGTH_def
        simp flip: assms(2))
qed

text \<open>
  A set-up that fails leaks its socket: when the socket was created but a later call fails, the
  descriptor is not kept, and closing the shared socket closes the descriptor -1 instead.
\<close>

lemma failed_setup_leaks_socket:
  assumes "stack_ok host" and "length (snd (e_hwaddr (asked host nm))) = 14" and "net_wf s"
    and "\<not> sock_ok (asked host nm)"
    and "initSharedSocketWithInterfaceName host (nm @ 0 # zs) s = Inr (fd, s')"
  shows "closeSharedSocket close_fd s' = closeSocketWithFileDescriptor close_fd (- 1)"
  using init_shared [OF assms(1) refl assms(2,3), of zs] assms(4,5) by (auto simp: closeSharedSocket_def)

text \<open>
  The background thread: with a socket of its own it prints as \<open>arpSnifferLoop\<close> does
  for what it receives, and without one it ends; it leaves the variables of the file as they are.
\<close>

lemma sniffer_thread:
  assumes "stack_ok host"
  shows "arp_sniffer_thread host (nm @ 0 # zs) buffer es s =
    (if sock_ok (asked host nm) then arpSnifferLoop es buffer (''Initializing Arp Sniffer'' @ nl)
     else Inr (False, ''Initializing Arp Sniffer'' @ nl))"
  by (simp add: arp_sniffer_thread_def initSocketWithInterfaceName_def name_requests_asked [OF assms]
      sock_ok_def Let_def)

section \<open>Properties of sending\<close>

definition arp_frame :: "u8 list \<Rightarrow> arp_package \<Rightarrow> u8 list" where
  "arp_frame mac p = eth_frame (targetMacAddress p) mac 0x0806 (arp_bytes (htonArpPackage p))"

lemma length_arp_frame: "wf_arp p \<Longrightarrow> length mac = 6 \<Longrightarrow> length (arp_frame mac p) = 42"
  using length_arp_bytes [of "htonArpPackage p"]
  by (simp add: arp_frame_def eth_frame_def wf_arp_def [of p] c_consts)

lemma send_arp:
  assumes "wf_arp p" and "net_wf s"
  shows "\<exists>s'. sendArpPackage sendto p s = Inr
      (if sendto (arp_frame (localInterfaceMacAddress s) p) < 0
       then (- 1, htonArpPackage p, s'\<lparr>sent := sent s\<rparr>)
       else (0, p, s'\<lparr>sent := sent s @ [arp_frame (localInterfaceMacAddress s) p]\<rparr>)) \<and>
    net_wf s' \<and> localInterfaceMacAddress s' = localInterfaceMacAddress s \<and>
    localInterfaceIpAddress s' = localInterfaceIpAddress s"
proof -
  let ?q = "htonArpPackage p" and ?l = "localInterfaceMacAddress s"
  let ?tm = "targetMacAddress p" and ?z = "\<lambda>n. replicate n (0 :: u8)"
  have tm: "targetMacAddress ?q = ?tm" by (simp add: htonArpPackage_def)
  have len: "length ?tm = 6" "length ?l = 6" "length (sll_addr s) = 8"
      "length (localInterfaceIpAddress s) = 4"
    using assms by (simp_all add: wf_arp_def net_wf_def)
  have lq: "length (arp_bytes ?q) = 28"
    using length_arp_bytes [of ?q] assms(1) by (simp add: c_consts)
  have sll: "mem_write (sll_addr s) 0 ?tm = Inr (?tm @ drop 6 (sll_addr s))"
    using mem_write_front [of ?tm "sll_addr s"] len by simp
  have b1: "mem_write (?z 1500) 0 ?tm = Inr (?tm @ ?z 1494)"
    using mem_write_front [of ?tm "?z 1500"] len by simp
  have b2: "mem_write (?tm @ ?z 1494) 6 ?l = Inr ((?tm @ ?l) @ ?z 1488)"
    using mem_write_prefix [of ?l "?z 1494" ?tm] len by simp
  have b3: "mem_write ((?tm @ ?l) @ ?z 1488) 12 (st16 (htons 0x0806)) =
      Inr ((?tm @ ?l @ st16 (htons 0x0806)) @ ?z 1486)"
    using mem_write_prefix [of "st16 (htons 0x0806)" "?z 1488" "?tm @ ?l"] len by simp
  have b4: "mem_write ((?tm @ ?l @ st16 (htons 0x0806)) @ ?z 1486) 14 (arp_bytes ?q) =
      Inr (arp_frame ?l p @ ?z 1458)"
    using mem_write_prefix [of "arp_bytes ?q" "?z 1486" "?tm @ ?l @ st16 (htons 0x0806)"] len lq
    by (simp add: arp_frame_def eth_frame_def)
  have tk: "take 42 (arp_frame ?l p @ ?z 1458) = arp_frame ?l p"
    using length_arp_frame [OF assms(1) len(2)] by simp
  let ?s = "s\<lparr>screen := (screen s @ printArpPackage ?q) @ ''Trying to send package with '' @
      (if sharedSocket s < 0 then ''-'' else '''') @ dec_str (nat \<bar>sharedSocket s\<bar>) @ nl,
      sll_addr := ?tm @ drop 6 (sll_addr s)\<rparr>"
  have "sendArpPackage sendto p s = Inr
      (if sendto (arp_frame ?l p) < 0 then (- 1, ?q, ?s)
       else (0, p, ?s\<lparr>sent := sent s @ [arp_frame ?l p]\<rparr>))"
    using b1 b2 b3 b4 tk sll
    by (simp add: sendArpPackage_def Let_def c_consts tm del: append_assoc n16.store_hton)
  then show ?thesis
    using len by (intro exI [of _ ?s]) (simp add: net_wf_def)
qed

text \<open>
  C32. Sending: \<open>sendArpPackage\<close> hands \<open>sendto\<close> one frame of 42 bytes,
  to the target's hardware address and from the interface's, with type 0x0806 and the package in
  network order. When \<open>sendto\<close> succeeds it returns 0 and the caller's package is as
  before; when it fails it returns -1 and the caller's package keeps its three fields in network
  order.
\<close>

theorem send_arp_frame:
  assumes "wf_arp p" and "net_wf s"
  shows "\<exists>s'. sendArpPackage sendto p s = Inr
      (if sendto (arp_frame (localInterfaceMacAddress s) p) < 0
       then (- 1, htonArpPackage p, s'\<lparr>sent := sent s\<rparr>)
       else (0, p, s'\<lparr>sent := sent s @ [arp_frame (localInterfaceMacAddress s) p]\<rparr>)) \<and>
    net_wf s' \<and> localInterfaceMacAddress s' = localInterfaceMacAddress s \<and>
    length (arp_frame (localInterfaceMacAddress s) p) = 42"
  using send_arp [OF assms, of sendto] length_arp_frame [OF assms(1), of "localInterfaceMacAddress s"]
    assms(2) by (auto simp: net_wf_def)

section \<open>Properties of receiving\<close>

text \<open>What a frame of at least 42 bytes holds, read from the frame alone.\<close>

definition arp_of :: "u8 list \<Rightarrow> arp_package" where
  "arp_of f = \<lparr>hardwareType = ntohs (ld16 (take 2 (drop 14 f))),
     protocolType = ntohs (ld16 (take 2 (drop 16 f))), hardwareLength = f ! 18, protocolLength = f ! 19,
     operation = ntohs (ld16 (take 2 (drop 20 f))), senderMacAddress = take 6 (drop 22 f),
     senderIpAddress = take 4 (drop 28 f), targetMacAddress = take 6 (drop 32 f),
     targetIpAddress = take 4 (drop 38 f)\<rparr>"

definition wanted :: "u16 \<Rightarrow> u8 list \<Rightarrow> bool" where
  "wanted op f \<longleftrightarrow> take 2 (drop 12 f) = [0x08, 0x06] \<and> operation (arp_of f) = op"

lemma take_drop_join: "take a (drop i f) @ take b (drop (i + a) f) = take (a + b) (drop i f)"
  using take_add [of a b "drop i f"] by (simp add: add.commute)

lemma frame_split:
  assumes "42 \<le> length f"
  shows "f = eth_frame (take 6 f) (take 6 (drop 6 f)) (ntohs (ld16 (take 2 (drop 12 f))))
    (arp_bytes (htonArpPackage (arp_of f)) @ drop 42 f)"
    and "wf_arp (arp_of f)"
proof -
  have st: "st16 (ld16 (take 2 (drop i f))) = take 2 (drop i f)" if "i < 41" for i
    using assms that by (intro st16_ld16) simp
  have one: "[f ! i] = take 1 (drop i f)" if "i < 41" for i
    using assms that by (simp add: take_Suc_conv_app_nth hd_drop_conv_nth take_Suc)
  have "arp_bytes (htonArpPackage (arp_of f)) = take 2 (drop 14 f) @ take 2 (drop 16 f) @
      take 1 (drop 18 f) @ take 1 (drop 19 f) @ take 2 (drop 20 f) @ take 6 (drop 22 f) @
      take 4 (drop 28 f) @ take 6 (drop 32 f) @ take 4 (drop 38 f)"
    by (simp add: arp_bytes_def htonArpPackage_def arp_of_def st one
        del: n16.store_hton n16.store_ntoh append_Cons append_Nil)
  also have "\<dots> = take 28 (drop 14 f)"
    using take_drop_join [of 2 14 f 26] take_drop_join [of 2 16 f 24] take_drop_join [of 1 18 f 23]
      take_drop_join [of 1 19 f 22] take_drop_join [of 2 20 f 20] take_drop_join [of 6 22 f 14]
      take_drop_join [of 4 28 f 10] take_drop_join [of 6 32 f 4]
    by simp
  finally have arp: "arp_bytes (htonArpPackage (arp_of f)) = take 28 (drop 14 f)" .
  have "take 42 f = take 6 f @ take 6 (drop 6 f) @ take 2 (drop 12 f) @ take 28 (drop 14 f)"
    using take_drop_join [of 6 0 f 36] take_drop_join [of 6 6 f 30] take_drop_join [of 2 12 f 28]
    by simp
  then have "f = take 6 f @ take 6 (drop 6 f) @ take 2 (drop 12 f) @ take 28 (drop 14 f) @ drop 42 f"
    using append_take_drop_id [of 42 f] by (metis append_assoc)
  moreover have "st16 (htons (ntohs (ld16 (take 2 (drop 12 f))))) = take 2 (drop 12 f)"
    using st [of 12] by (simp del: n16.store_hton n16.store_ntoh)
  ultimately show "f = eth_frame (take 6 f) (take 6 (drop 6 f)) (ntohs (ld16 (take 2 (drop 12 f))))
    (arp_bytes (htonArpPackage (arp_of f)) @ drop 42 f)"
    unfolding eth_frame_def arp by (simp only: append_assoc)
  show "wf_arp (arp_of f)" using assms by (simp add: wf_arp_def arp_of_def)
qed

lemma receive_step:
  assumes "42 \<le> length f" and "length f \<le> 1500"
  shows "receive_loop op buffer (Recv f # es) =
    (if wanted op f then Inr (Some (0, Some (arp_of f), es))
     else receive_loop op (store_recv f buffer) es)"
proof -
  let ?p = "htonArpPackage (arp_of f)" and ?ty = "ntohs (ld16 (take 2 (drop 12 f)))"
  let ?dst = "take 6 f" and ?src = "take 6 (drop 6 f)"
  have "take BUFFER_SIZE f = f" using assms(2) by (simp add: c_consts)
  then have "store_recv f buffer = f @ drop (length f) buffer"
    by (simp only: store_recv_def recv_into_def Let_def)
  also have "\<dots> = eth_frame ?dst ?src ?ty (arp_bytes ?p @ drop 42 f) @ drop (length f) buffer"
    using frame_split(1) [OF assms(1)] by (rule arg_cong)
  finally obtain r where buf: "store_recv f buffer = eth_frame ?dst ?src ?ty (arp_bytes ?p @ r)"
    by (simp add: eth_frame_def)
  let ?e = "\<lparr>destinationMac = ?dst, sourceMac = ?src, ethertype = htons ?ty, data = arp_bytes ?p @ r\<rparr>"
  have eth: "createEthernetPackageFromBuffer (store_recv f buffer) = Inr ?e"
    unfolding buf using assms(1) by (intro create_ethernet) simp_all
  have arp: "createArpPackageWithEthernetPackage ?e = Inr (arp_of f)"
    using create_arp [of ?p ?e r] frame_split(2) [OF assms(1)] by simp
  have "uint (ntohs (htons ?ty)) = ARP_ETHERTYPE \<longleftrightarrow> ?ty = 0x0806"
  proof -
    have "uint (0x0806 :: u16) = ARP_ETHERTYPE" by (simp add: c_consts)
    then show ?thesis unfolding n16.ntoh_hton by (metis unsigned_word_eqI)
  qed
  also have "\<dots> \<longleftrightarrow> take 2 (drop 12 f) = [0x08, 0x06]"
  proof -
    have "st16 0x0608 = [0x08, 0x06]" by (simp add: st16_def)
    moreover have "length (take 2 (drop 12 f)) = 2" using assms(1) by simp
    moreover have "ntohs 0x0608 = 0x0806" by (simp add: ntohs_def st16_def)
    ultimately show ?thesis by (metis n16.ntoh_eq st16_ld16 ld16_st16)
  qed
  finally have ty: "uint (ntohs (htons ?ty)) = ARP_ETHERTYPE \<longleftrightarrow> take 2 (drop 12 f) = [0x08, 0x06]" .
  show ?thesis
    unfolding receive_loop.simps Let_def eth seqE_Inr ethernet_package.select_convs ty arp wanted_def
    by auto
qed

lemma receive_first:
  assumes "\<forall>f \<in> set fs. 42 \<le> length f \<and> length f \<le> 1500"
  shows "receiveArpPackage op (map Recv fs @ es) =
    (case dropWhile (\<lambda>f. \<not> wanted op f) fs of
       f # rest \<Rightarrow> Inr (Some (0, Some (arp_of f), map Recv rest @ es))
     | [] \<Rightarrow> receive_loop op (foldl (\<lambda>b f. store_recv f b) (replicate BUFFER_SIZE 0) fs) es) \<and>
   receive_loop op b [] = Inr None \<and> receive_loop op b (RecvFailed # es) = Inr (Some (- 1, None, es))"
proof -
  have "receive_loop op b (map Recv fs @ es) =
    (case dropWhile (\<lambda>f. \<not> wanted op f) fs of
       f # rest \<Rightarrow> Inr (Some (0, Some (arp_of f), map Recv rest @ es))
     | [] \<Rightarrow> receive_loop op (foldl (\<lambda>b f. store_recv f b) b fs) es)" for b
    using assms
  proof (induction fs arbitrary: b)
    case (Cons f fs)
    have "receive_loop op b (map Recv (f # fs) @ es) =
        (if wanted op f then Inr (Some (0, Some (arp_of f), map Recv fs @ es))
         else receive_loop op (store_recv f b) (map Recv fs @ es))"
      using Cons.prems receive_step [of f op b "map Recv fs @ es"] by simp
    then show ?case
      using Cons.IH [of "store_recv f b"] Cons.prems by (cases "wanted op f"; cases "dropWhile (\<lambda>f. \<not> wanted op f) fs")
        (simp_all del: receive_loop.simps dropWhile_eq_Nil_conv)
  qed simp
  then show ?thesis by (simp add: receiveArpPackage_def)
qed

text \<open>
  C30. Receiving: for frames of the size of an ARP frame or more,
  \<open>receiveArpPackage\<close> passes over every frame that is not an ARP package with the
  operation asked for and stores the first that is, whoever sent it; while there is none it
  waits, and a failed \<open>recv\<close> ends it with -1.
\<close>

theorem receive_arp_first_wanted:
  assumes "\<forall>f \<in> set fs. 42 \<le> length f \<and> length f \<le> 1500"
  shows "receiveArpPackage op (map Recv fs @ es) =
    (case dropWhile (\<lambda>f. \<not> wanted op f) fs of
       f # rest \<Rightarrow> Inr (Some (0, Some (arp_of f), map Recv rest @ es))
     | [] \<Rightarrow> receive_loop op (foldl (\<lambda>b f. store_recv f b) (replicate BUFFER_SIZE 0) fs) es) \<and>
   receive_loop op b [] = Inr None \<and> receive_loop op b (RecvFailed # es) = Inr (Some (- 1, None, es))"
  using receive_first [OF assms] .

section \<open>Instances\<close>

definition sample_sock :: host_env where
  "sample_sock = \<lparr>req_stack = (\<lambda>i. replicate 16 7), h_socket = 3,
     h_ifindex = (\<lambda>n. if take 3 n = [108, 111, 0] then (0, 1) else (0, 2)), h_flags = (\<lambda>n. (0, 0)),
     h_hwaddr = (\<lambda>n. (0, replicate 14 1)), h_addr = (\<lambda>n. (0, 0x028F200A)), h_setflags = (\<lambda>n f. 0)\<rparr>"

lemma sample_sock_ok: "stack_ok sample_sock" "sock_ok (asked sample_sock nm)"
    "snd (e_hwaddr (asked sample_sock nm)) = replicate 14 1"
  by (auto simp: stack_ok_def sock_ok_def asked_def sample_sock_def c_consts)

lemma net_wf_start: "net_wf net_start"
  by (simp add: net_wf_def net_start_def)

theorem send_arp_frame_witness:
  "\<exists>s. sendArpPackage (\<lambda>f. - 1) sample_arp net_start = Inr (- 1, htonArpPackage sample_arp, s)"
  using send_arp_frame [OF wf_sample_arp net_wf_start, of "\<lambda>f. - 1"] by auto

theorem receive_arp_first_wanted_witness:
  "receiveArpPackage 2 (map Recv [replicate 42 0] @ [RecvFailed]) = Inr (Some (- 1, None, []))"
proof -
  have "\<not> wanted 2 (replicate 42 0)"
  proof -
    have "take 2 (drop 12 (replicate 42 (0 :: u8))) = replicate 2 0" by simp
    moreover have "replicate 2 (0 :: u8) = [0, 0]" by (simp add: numeral_2_eq_2)
    moreover have "[0, 0 :: u8] \<noteq> [0x08, 0x06]" by simp
    ultimately show ?thesis by (simp only: wanted_def) simp
  qed
  then have "dropWhile (\<lambda>f. \<not> wanted 2 f) [replicate 42 0] = []" by simp
  then show ?thesis using receive_arp_first_wanted [of "[replicate 42 0]" 2 "[RecvFailed]"] by simp
qed

end
