(* ===== verification/Arp_Attack.thy ===== *)
theory Arp_Attack
  imports Arp_Network
begin

text \<open>
  \<open>T1/Old/Application.c\<close>: the program that asks for the hardware addresses of a host
  and of the router and then sends both of them, again and again, replies that bind the other's
  IP address to its own hardware address.

  Parameters: \<open>inet_addr\<close>, the result of starting the background thread, the
  environment of the socket, the result of \<open>sendto\<close> for the frame after
  \<open>n\<close> frames sent, and the events \<open>recv\<close> gives. The loop at the end
  runs for ever; \<open>rounds\<close> is the number of its rounds that are looked at.
  \<open>ExitFailure\<close> carries the text printed before \<open>exit\<close>.
  \<open>None\<close> is a program that still waits.
\<close>

definition ARPHRD_ETHER :: u16 where [c_consts]: "ARPHRD_ETHER = 1"
definition ETH_P_IP :: u16 where [c_consts]: "ETH_P_IP = 0x0800"
definition ARPOP_REQUEST :: u32 where [c_consts]: "ARPOP_REQUEST = 1"
definition ARPOP_REPLY :: u32 where [c_consts]: "ARPOP_REPLY = 2"

definition broadcastMacAddress :: "u8 list" where "broadcastMacAddress = replicate 6 0xFF"
definition routerIpAddress :: "u8 list" where "routerIpAddress = [0xA, 0x20, 0x8F, 0x01]"

text \<open>\<open>opcode\<close> is an \<open>unsigned long\<close> stored in an \<open>unsigned short\<close>.\<close>

definition createArpPackage ::
  "u32 \<Rightarrow> u8 list \<Rightarrow> u8 list \<Rightarrow> u8 list \<Rightarrow> u8 list \<Rightarrow> arp_package outcome" where
  "createArpPackage opcode senderMac senderIp targetMac targetIp =
     seqE (mem_block senderMac 0 MAC_ADDRESS_LENGTH) (\<lambda>sm.
     seqE (mem_block senderIp 0 IP_ADDRESS_LENGTH) (\<lambda>si.
     seqE (mem_block targetMac 0 MAC_ADDRESS_LENGTH) (\<lambda>tm.
     seqE (mem_block targetIp 0 IP_ADDRESS_LENGTH) (\<lambda>ti.
       Inr \<lparr>hardwareType = ARPHRD_ETHER, protocolType = ETH_P_IP,
         hardwareLength = of_nat MAC_ADDRESS_LENGTH, protocolLength = of_nat IP_ADDRESS_LENGTH,
         operation = ucast opcode, senderMacAddress = sm, senderIpAddress = si,
         targetMacAddress = tm, targetIpAddress = ti\<rparr>))))"

text \<open>\<open>cleanUp\<close>, which \<open>atexit\<close> registers.\<close>

definition cleanUp :: "(int \<Rightarrow> int) \<Rightarrow> arp_net \<Rightarrow> string" where
  "cleanUp close_fd s = snd (closeSharedSocket close_fd s)"

definition send_or_exit ::
  "(nat \<Rightarrow> u8 list \<Rightarrow> int) \<Rightarrow> string \<Rightarrow> arp_package \<Rightarrow> arp_net \<Rightarrow> (arp_package \<times> arp_net) outcome" where
  "send_or_exit sendto msg p s =
     seqE (sendArpPackage (sendto (length (sent s))) p s) (\<lambda>(r, p, s).
       if r < 0 then Inl (ExitFailure msg) else Inr (p, s))"

definition receive_or_exit ::
  "string \<Rightarrow> recv_event list \<Rightarrow> (arp_package \<times> recv_event list) option outcome" where
  "receive_or_exit msg es =
     seqE (receiveArpPackage (ucast ARPOP_REPLY) es) (\<lambda>r.
       case r of None \<Rightarrow> Inr None
       | Some (ret, p, es) \<Rightarrow>
           (if ret < 0 then Inl (ExitFailure msg)
            else case p of None \<Rightarrow> Inl BadRead | Some p \<Rightarrow> Inr (Some (p, es))))"

fun attack_loop ::
  "(nat \<Rightarrow> u8 list \<Rightarrow> int) \<Rightarrow> nat \<Rightarrow> arp_package \<Rightarrow> arp_package \<Rightarrow> arp_net \<Rightarrow> arp_net outcome" where
  "attack_loop sendto 0 m r s = Inr s"
| "attack_loop sendto (Suc n) m r s =
     seqE (send_or_exit sendto ''Error 6'' m s) (\<lambda>(m, s).
     seqE (send_or_exit sendto ''Error 7'' r s) (\<lambda>(r, s). attack_loop sendto n m r s))"

record attack_env =
  sock :: host_env
  inet_addr_of :: "u8 list \<Rightarrow> u32"
  thread_create :: int
  sendto_of :: "nat \<Rightarrow> u8 list \<Rightarrow> int"
  recvs :: "recv_event list"

text \<open>\<open>argv\<close> holds the arguments, each without its terminating 0.\<close>

definition attack_main :: "u8 list list \<Rightarrow> nat \<Rightarrow> attack_env \<Rightarrow> arp_net option outcome" where
  "attack_main argv rounds env =
     (if length argv \<noteq> 3 then Inl (ExitFailure ''Usage: ./run <InterfaceName> <TargetIpAddress>'')
      else seqE (c_strcpy (replicate 16 0) (argv ! 1 @ [0])) (\<lambda>interfaceName.
        let targetIp = ip_bytes (inet_addr_of env (argv ! 2))
        in seqE (initSharedSocketWithInterfaceName (sock env) interfaceName net_start) (\<lambda>(fd, s).
        if fd < 0 then Inl (ExitFailure ''Error 1'')
        else seqE (initArpSnifferWithInterfaceName (thread_create env) interfaceName) (\<lambda>(r, _).
        if r < 0 then Inl (ExitFailure ''Error 2'')
        else
          seqE (createArpPackage ARPOP_REQUEST (localInterfaceMacAddress s)
            (localInterfaceIpAddress s) broadcastMacAddress targetIp) (\<lambda>initialPackage.
          seqE (createArpPackage ARPOP_REQUEST (localInterfaceMacAddress s)
            (localInterfaceIpAddress s) broadcastMacAddress routerIpAddress) (\<lambda>routerPackage.
          seqE (send_or_exit (sendto_of env) ''Error 3'' initialPackage s) (\<lambda>(_, s).
          seqE (receive_or_exit ''Error 4'' (recvs env)) (\<lambda>r1.
          case r1 of None \<Rightarrow> Inr None
          | Some (received, es) \<Rightarrow>
              (let targetMac = senderMacAddress received
               in seqE (send_or_exit (sendto_of env) ''Error 4'' routerPackage s) (\<lambda>(_, s).
                  seqE (receive_or_exit ''Error 5'' es) (\<lambda>r2.
                  case r2 of None \<Rightarrow> Inr None
                  | Some (received, es) \<Rightarrow>
                      (let routerMac = senderMacAddress received
                       in seqE (createArpPackage ARPOP_REPLY (localInterfaceMacAddress s)
                            routerIpAddress targetMac targetIp) (\<lambda>malicious.
                          seqE (createArpPackage ARPOP_REPLY (localInterfaceMacAddress s) targetIp
                            routerMac routerIpAddress) (\<lambda>maliciousRouter.
                          seqE (attack_loop (sendto_of env) rounds malicious maliciousRouter s)
                            (\<lambda>s. Inr (Some s))))))))))))))))"

section \<open>Properties\<close>

definition the_package :: "u16 \<Rightarrow> u8 list \<Rightarrow> u8 list \<Rightarrow> u8 list \<Rightarrow> u8 list \<Rightarrow> arp_package" where
  "the_package op sm si tm ti =
     \<lparr>hardwareType = 1, protocolType = 0x0800, hardwareLength = 6, protocolLength = 4, operation = op,
      senderMacAddress = sm, senderIpAddress = si, targetMacAddress = tm, targetIpAddress = ti\<rparr>"

lemma create_package:
  assumes "length sm = 6" and "length si = 4" and "length tm = 6" and "length ti = 4"
  shows "createArpPackage op sm si tm ti = Inr (the_package (ucast op) sm si tm ti)"
    and "wf_arp (the_package (ucast op) sm si tm ti)"
  using assms by (simp_all add: createArpPackage_def the_package_def mem_block_def wf_arp_def c_consts)

lemma send_exit_ok:
  assumes "wf_arp p" and "net_wf s" and "\<forall>k f. 0 \<le> sendto k f"
  shows "\<exists>s'. send_or_exit sendto msg p s = Inr (p, s') \<and> net_wf s' \<and>
    sent s' = sent s @ [arp_frame (localInterfaceMacAddress s) p] \<and>
    localInterfaceMacAddress s' = localInterfaceMacAddress s \<and>
    localInterfaceIpAddress s' = localInterfaceIpAddress s"
proof -
  obtain t where "sendArpPackage (sendto (length (sent s))) p s =
      Inr (0, p, t\<lparr>sent := sent s @ [arp_frame (localInterfaceMacAddress s) p]\<rparr>)"
      "net_wf t" "localInterfaceMacAddress t = localInterfaceMacAddress s"
      "localInterfaceIpAddress t = localInterfaceIpAddress s"
    using send_arp [OF assms(1,2), of "sendto (length (sent s))"] assms(3) by (auto simp: not_less)
  then show ?thesis by (simp add: send_or_exit_def net_wf_def)
qed

lemma attack_loop_frames:
  assumes "wf_arp m" and "wf_arp r" and "net_wf s" and "\<forall>k f. 0 \<le> sendto k f"
    and "localInterfaceMacAddress s = mac"
  shows "\<exists>s'. attack_loop sendto n m r s = Inr s' \<and>
    sent s' = sent s @ concat (replicate n [arp_frame mac m, arp_frame mac r])"
  using assms(3,5)
proof (induction n arbitrary: s)
  case (Suc n)
  obtain s1 where s1: "send_or_exit sendto ''Error 6'' m s = Inr (m, s1)" "net_wf s1"
      "sent s1 = sent s @ [arp_frame mac m]" "localInterfaceMacAddress s1 = mac"
    using send_exit_ok [OF assms(1) Suc.prems(1) assms(4), where msg = "''Error 6''"] Suc.prems(2) by auto
  obtain s2 where s2: "send_or_exit sendto ''Error 7'' r s1 = Inr (r, s2)" "net_wf s2"
      "sent s2 = sent s1 @ [arp_frame mac r]" "localInterfaceMacAddress s2 = mac"
    using send_exit_ok [OF assms(2) s1(2) assms(4), where msg = "''Error 7''"] s1(4) by auto
  show ?case using Suc.IH [OF s2(2,4)] s1 s2 by auto
qed simp

lemma attack_sends:
  assumes "wf_arp p1" and "wf_arp p2" and "wf_arp m" and "wf_arp r" and "net_wf s0"
    and "\<forall>k f. 0 \<le> sendto k f" and "localInterfaceMacAddress s0 = mac"
  shows "\<exists>s1 s2 s3. send_or_exit sendto ''Error 3'' p1 s0 = Inr (p1, s1) \<and>
    localInterfaceMacAddress s1 = mac \<and> localInterfaceIpAddress s1 = localInterfaceIpAddress s0 \<and>
    send_or_exit sendto ''Error 4'' p2 s1 = Inr (p2, s2) \<and> localInterfaceMacAddress s2 = mac \<and>
    attack_loop sendto n m r s2 = Inr s3 \<and>
    sent s3 = sent s0 @ [arp_frame mac p1, arp_frame mac p2] @
      concat (replicate n [arp_frame mac m, arp_frame mac r])"
proof -
  obtain s1 where s1: "send_or_exit sendto ''Error 3'' p1 s0 = Inr (p1, s1)" "net_wf s1"
      "sent s1 = sent s0 @ [arp_frame mac p1]" "localInterfaceMacAddress s1 = mac"
      "localInterfaceIpAddress s1 = localInterfaceIpAddress s0"
    using send_exit_ok [OF assms(1,5,6), where msg = "''Error 3''"] assms(7) by auto
  obtain s2 where s2: "send_or_exit sendto ''Error 4'' p2 s1 = Inr (p2, s2)" "net_wf s2"
      "sent s2 = sent s1 @ [arp_frame mac p2]" "localInterfaceMacAddress s2 = mac"
    using send_exit_ok [OF assms(2) s1(2) assms(6), where msg = "''Error 4''"] s1(4) by auto
  obtain s3 where "attack_loop sendto n m r s2 = Inr s3"
      "sent s3 = sent s2 @ concat (replicate n [arp_frame mac m, arp_frame mac r])"
    using attack_loop_frames [OF assms(3,4) s2(2) assms(6) s2(4)] by blast
  then show ?thesis using s1 s2 by (intro exI [of _ s1] exI [of _ s2] exI [of _ s3]) simp
qed

definition frame_ok :: "u8 list \<Rightarrow> bool" where
  "frame_ok f \<longleftrightarrow> 42 \<le> length f \<and> length f \<le> 1500"

lemma receive_reply:
  assumes "\<forall>f \<in> set fs. frame_ok f \<and> \<not> wanted 2 f" and "frame_ok g" and "wanted 2 g"
  shows "receive_or_exit msg (map Recv (fs @ [g]) @ es) = Inr (Some (arp_of g, es))"
proof -
  have "dropWhile (\<lambda>f. \<not> wanted 2 f) (fs @ [g]) = [g]"
    using assms(1,3) by (subst dropWhile_append2) auto
  then have "receiveArpPackage 2 (map Recv (fs @ [g]) @ es) = Inr (Some (0, Some (arp_of g), es))"
    using receive_first [of "fs @ [g]" 2 es] assms by (auto simp: frame_ok_def)
  then show ?thesis by (simp add: receive_or_exit_def c_consts)
qed

text \<open>Up to the first package: the copies of the name and the socket.\<close>

lemma attack_setup:
  assumes "length nm < 16 \<and> 0 \<notin> set nm" and "stack_ok host" and "calls = asked host nm"
    and "length (snd (e_hwaddr calls)) = 14"
  obtains name s where "c_strcpy (replicate 16 0) (nm @ [0]) = Inr name"
    and "\<And>c. initArpSnifferWithInterfaceName c name = Inr (if c \<noteq> 0 then - 1 else 0, name)"
    and "initSharedSocketWithInterfaceName host name net_start =
      Inr (if sock_ok calls then e_socket calls else - 1, s)"
    and "net_wf s" and "sent s = []"
    and "sock_ok calls \<longrightarrow> localInterfaceMacAddress s = take 6 (snd (e_hwaddr calls)) \<and>
      localInterfaceIpAddress s = st32 (snd (e_addr calls))"
proof -
  let ?name = "nm @ 0 # drop (length nm + 1) (replicate 16 0)"
  have name: "c_strcpy (replicate 16 0) (nm @ [0]) = Inr ?name"
      "initArpSnifferWithInterfaceName c ?name = Inr (if c \<noteq> 0 then - 1 else 0, ?name)" for c
    using assms(1) by (simp_all add: c_strcpy_ok initArpSnifferWithInterfaceName_def)
  have "net_wf net_start" "sent net_start = []" by (simp_all add: net_wf_def net_start_def)
  then show ?thesis
    using init_shared [OF assms(2-4), of net_start "drop (length nm + 1) (replicate 16 0)"] that [OF name]
    by (auto split: if_splits)
qed

text \<open>
  C14. The attack: when the set-up and the sending succeed and replies come in, the program sends
  a request for the target and one for the router to everybody and then, round after round, a
  reply to the target that binds the router's IP address to the program's own hardware address
  and a reply to the router that binds the target's. The hardware addresses used are those of
  the first and the second reply received, whatever address they are about.
\<close>

theorem attack_frames:
  assumes "length argv = 3" and "length (argv ! 1) < 16 \<and> 0 \<notin> set (argv ! 1)"
    and "stack_ok (sock env) \<and> sock_ok calls" and "length (snd (e_hwaddr calls)) = 14" and "thread_create env = 0"
    and "\<forall>k f. 0 \<le> sendto_of env k f"
    and "recvs env = map Recv (fs1 @ [g1]) @ map Recv (fs2 @ [g2]) @ es"
    and "\<forall>f \<in> set (fs1 @ fs2). frame_ok f \<and> \<not> wanted 2 f"
    and "frame_ok g1" and "wanted 2 g1" and "frame_ok g2" and "wanted 2 g2"
    and "mac = take 6 (snd (e_hwaddr calls))" and "ip = st32 (snd (e_addr calls))"
    and "target = st32 (inet_addr_of env (argv ! 2))" and "calls = asked (sock env) (argv ! 1)"
  shows "\<exists>s. attack_main argv n env = Inr (Some s) \<and> sent s =
    [arp_frame mac (the_package 1 mac ip (replicate 6 0xFF) target),
     arp_frame mac (the_package 1 mac ip (replicate 6 0xFF) [10, 32, 143, 1])] @
    concat (replicate n
      [arp_frame mac (the_package 2 mac [10, 32, 143, 1] (senderMacAddress (arp_of g1)) target),
       arp_frame mac (the_package 2 mac target (senderMacAddress (arp_of g2)) [10, 32, 143, 1])])"
proof -
  let ?tm = "senderMacAddress (arp_of g1)" and ?rm = "senderMacAddress (arp_of g2)"
  obtain name s0 where name: "c_strcpy (replicate 16 0) (argv ! 1 @ [0]) = Inr name"
    and thread: "initArpSnifferWithInterfaceName (thread_create env) name = Inr (0, name)"
    and s0: "initSharedSocketWithInterfaceName (sock env) name net_start = Inr (e_socket calls, s0)"
      "net_wf s0" "sent s0 = []" "localInterfaceMacAddress s0 = mac" "localInterfaceIpAddress s0 = ip"
    by (rule attack_setup [OF assms(2) conjunct1 [OF assms(3)] assms(16,4)])
      (use assms(3,5,13,14) in auto)
  have "6 \<le> length g1 - 22" "6 \<le> length g2 - 22"
    using assms(9,11) by (auto simp: frame_ok_def)
  then have len: "length mac = 6" "length ip = 4" "length target = 4" "length ?tm = 6" "length ?rm = 6"
      "length routerIpAddress = 4" "length broadcastMacAddress = 6"
    using assms(4) by (simp_all add: assms(13-15) arp_of_def routerIpAddress_def
        broadcastMacAddress_def min_absorb2)
  note pk = create_package [OF len(1,2,7,3), of ARPOP_REQUEST]
    create_package [OF len(1,2,7,6), of ARPOP_REQUEST]
    create_package [OF len(1,6,4,3), of ARPOP_REPLY]
    create_package [OF len(1,3,5,6), of ARPOP_REPLY]
  obtain s1 s2 s3 where s: "send_or_exit (sendto_of env) ''Error 3''
      (the_package (ucast ARPOP_REQUEST) mac ip broadcastMacAddress target) s0 =
      Inr (the_package (ucast ARPOP_REQUEST) mac ip broadcastMacAddress target, s1)"
    "localInterfaceMacAddress s1 = mac" "localInterfaceIpAddress s1 = ip"
    "send_or_exit (sendto_of env) ''Error 4''
      (the_package (ucast ARPOP_REQUEST) mac ip broadcastMacAddress routerIpAddress) s1 =
      Inr (the_package (ucast ARPOP_REQUEST) mac ip broadcastMacAddress routerIpAddress, s2)"
    "localInterfaceMacAddress s2 = mac"
    "attack_loop (sendto_of env) n (the_package (ucast ARPOP_REPLY) mac routerIpAddress ?tm target)
      (the_package (ucast ARPOP_REPLY) mac target ?rm routerIpAddress) s2 = Inr s3"
    "sent s3 = [arp_frame mac (the_package (ucast ARPOP_REQUEST) mac ip broadcastMacAddress target),
       arp_frame mac (the_package (ucast ARPOP_REQUEST) mac ip broadcastMacAddress routerIpAddress)] @
      concat (replicate n
        [arp_frame mac (the_package (ucast ARPOP_REPLY) mac routerIpAddress ?tm target),
         arp_frame mac (the_package (ucast ARPOP_REPLY) mac target ?rm routerIpAddress)])"
    using attack_sends [OF pk(2,4,6,8) s0(2) assms(6) s0(4), of n] s0(3,5) by auto
  have r1: "receive_or_exit ''Error 4'' (recvs env) = Inr (Some (arp_of g1, map Recv (fs2 @ [g2]) @ es))"
    unfolding assms(7) by (rule receive_reply) (use assms(8-10) in auto)
  have r2: "receive_or_exit ''Error 5'' (map Recv (fs2 @ [g2]) @ es) = Inr (Some (arp_of g2, es))"
    by (rule receive_reply) (use assms(8,11,12) in auto)
  have fd: "\<not> e_socket calls < 0" "\<not> (0 :: int) < 0"
    using assms(3) by (simp_all add: sock_ok_def)
  have "attack_main argv n env = Inr (Some s3)"
    unfolding attack_main_def ip_bytes_st32 Let_def name assms(15) [symmetric]
    using assms(1) fd
    by (simp only: s0(1,4,5) s(1-6) pk(1,3,5,7) r1 r2 thread seqE_Inr prod.case option.case
        if_False simp_thms)
  moreover have "(ucast ARPOP_REQUEST :: u16) = 1" "(ucast ARPOP_REPLY :: u16) = 2"
    by (simp_all add: c_consts)
  ultimately show ?thesis
    using s(7) by (simp add: routerIpAddress_def broadcastMacAddress_def)
qed

lemma start_lengths:
  assumes "net_wf s"
  shows "length (localInterfaceMacAddress s) = 6" "length (localInterfaceIpAddress s) = 4"
    "length broadcastMacAddress = 6" "length routerIpAddress = 4"
  using assms by (simp_all add: net_wf_def broadcastMacAddress_def routerIpAddress_def)

lemma first_send_fails:
  assumes "wf_arp p" and "net_wf s" and "sent s = []" and "\<forall>f. sendto 0 f < 0"
  shows "send_or_exit sendto msg p s = Inl (ExitFailure msg)"
proof -
  obtain t where "sendArpPackage (sendto 0) p s = Inr (- 1, t)"
    using send_arp [OF assms(1,2), of "sendto 0"] assms(4) by auto
  then show ?thesis using assms(3) by (cases t) (simp add: send_or_exit_def)
qed

text \<open>
  Errors end the program: with the wrong number of arguments, a socket that cannot be set up,
  a thread that does not start or a first frame that cannot be sent it stops before any other
  frame is sent; and an interface name of 16 or more bytes is copied past the array.
\<close>

lemma attack_errors:
  assumes "length argv = 3 \<longrightarrow> 0 \<notin> set (argv ! 1)" and "stack_ok (sock env)"
    and "calls = asked (sock env) (argv ! 1)" and "length (snd (e_hwaddr calls)) = 14"
  shows "(length argv \<noteq> 3 \<longrightarrow> (\<exists>m. attack_main argv n env = Inl (ExitFailure m))) \<and>
    (length argv = 3 \<and> 16 \<le> length (argv ! 1) \<longrightarrow> attack_main argv n env = Inl BadWrite) \<and>
    (length argv = 3 \<and> length (argv ! 1) < 16 \<and> \<not> sock_ok calls \<longrightarrow>
      attack_main argv n env = Inl (ExitFailure ''Error 1'')) \<and>
    (length argv = 3 \<and> length (argv ! 1) < 16 \<and> sock_ok calls \<and> thread_create env \<noteq> 0 \<longrightarrow>
      attack_main argv n env = Inl (ExitFailure ''Error 2'')) \<and>
    (length argv = 3 \<and> length (argv ! 1) < 16 \<and> sock_ok calls \<and> thread_create env = 0 \<and>
      (\<forall>f. sendto_of env 0 f < 0) \<longrightarrow> attack_main argv n env = Inl (ExitFailure ''Error 3''))"
proof -
  have usage: "\<exists>m. attack_main argv n env = Inl (ExitFailure m)" if "length argv \<noteq> 3"
    using that by (simp add: attack_main_def)
  have overflow: "attack_main argv n env = Inl BadWrite" if "length argv = 3" "16 \<le> length (argv ! 1)"
    using that assms(1) by (simp add: attack_main_def c_strcpy_long)
  have "attack_main argv n env = Inl (ExitFailure m)"
    if a: "length argv = 3" "length (argv ! 1) < 16"
      and e: "\<not> sock_ok calls \<and> m = ''Error 1'' \<or> sock_ok calls \<and> thread_create env \<noteq> 0 \<and> m = ''Error 2'' \<or>
        sock_ok calls \<and> thread_create env = 0 \<and> (\<forall>f. sendto_of env 0 f < 0) \<and> m = ''Error 3''" for m
  proof -
    have "length (argv ! 1) < 16 \<and> 0 \<notin> set (argv ! 1)" using a assms(1) by simp
    from attack_setup [OF this assms(2-4)]
    obtain name s where s: "c_strcpy (replicate 16 0) (argv ! 1 @ [0]) = Inr name"
        "\<And>c. initArpSnifferWithInterfaceName c name = Inr (if c \<noteq> 0 then - 1 else 0, name)"
        "initSharedSocketWithInterfaceName (sock env) name net_start =
          Inr (if sock_ok calls then e_socket calls else - 1, s)" "net_wf s" "sent s = []"
      by metis
    note create = create_package [OF start_lengths(1-3) [OF s(4)]]
    from e show ?thesis
      using s a create(1) [OF length_st32, of ARPOP_REQUEST] create(1) [OF start_lengths(4) [OF s(4)], of ARPOP_REQUEST]
        first_send_fails [OF create(2) [OF length_st32] s(4,5), of "sendto_of env"]
      by (auto simp: attack_main_def sock_ok_def ip_bytes_st32)
  qed
  then show ?thesis using usage overflow by blast
qed

section \<open>Instances\<close>

definition sample_reply :: "u8 list" where
  "sample_reply = arp_frame (replicate 6 2) (the_package 2 (replicate 6 2) [10, 32, 143, 5] (replicate 6 1)
     [10, 32, 143, 2])"

definition sample_attack :: attack_env where
  "sample_attack = \<lparr>sock = sample_sock, inet_addr_of = (\<lambda>a. 0x058F200A), thread_create = 0,
     sendto_of = (\<lambda>k f. 42), recvs = map Recv ([] @ [sample_reply]) @ map Recv ([] @ [sample_reply]) @ []\<rparr>"

lemma sample_reply_ok: "frame_ok sample_reply" "wanted 2 sample_reply"
    "senderMacAddress (arp_of sample_reply) = replicate 6 2"
proof -
  have wf: "wf_arp (the_package 2 (replicate 6 2) [10, 32, 143, 5] (replicate 6 1) [10, 32, 143, 2])"
    by (simp add: wf_arp_def the_package_def)
  show "frame_ok sample_reply"
    using length_arp_frame [OF wf, of "replicate 6 2"] by (simp add: frame_ok_def sample_reply_def)
  have h: "st16 (htons 0x0806) = [0x08, 0x06]" "st16 (htons 2) = [0, 2]"
    by simp_all (simp_all add: st16_def)
  have "take 2 (drop 12 sample_reply) = [0x08, 0x06]" "take 2 (drop 20 sample_reply) = [0, 2]"
      "take 6 (drop 22 sample_reply) = replicate 6 2"
    by (simp_all add: sample_reply_def arp_frame_def eth_frame_def the_package_def htonArpPackage_def
        arp_bytes_def h del: n16.store_hton)
  then show "wanted 2 sample_reply" "senderMacAddress (arp_of sample_reply) = replicate 6 2"
    by (simp_all add: wanted_def arp_of_def ntohs_ld16 del: ld16.simps) simp
qed

theorem attack_frames_witness:
  "\<exists>s. attack_main [[], [101], [49]] 1 sample_attack = Inr (Some s) \<and> length (sent s) = 4 \<and>
     sent s ! 2 = arp_frame (replicate 6 1)
       (the_package 2 (replicate 6 1) [10, 32, 143, 1] (replicate 6 2) (st32 0x058F200A))"
proof -
  have env: "sock sample_attack = sample_sock" "thread_create sample_attack = 0"
      "\<forall>k f. 0 \<le> sendto_of sample_attack k f" "inet_addr_of sample_attack a = 0x058F200A"
      "recvs sample_attack = map Recv ([] @ [sample_reply]) @ map Recv ([] @ [sample_reply]) @ []" for a
    by (simp_all add: sample_attack_def)
  have mac: "replicate 6 1 = take 6 (snd (e_hwaddr (asked (sock sample_attack) [101])))"
    by (simp add: env sample_sock_ok)
  show ?thesis
    using attack_frames [OF _ _ _ _ env(2,3,5) _ sample_reply_ok(1,2) sample_reply_ok(1,2) mac refl refl,
        of "[[], [101], [49]]" 1] sample_sock_ok
    by (auto simp: env sample_reply_ok)
qed

lemma attack_errors_witness:
  "attack_main [[], replicate 16 97, [49]] 1 sample_attack = Inl BadWrite"
  using attack_errors [of "[[], replicate 16 97, [49]]" sample_attack _ 1] sample_sock_ok
  by (simp add: sample_attack_def)

end
