(* ===== verification/Arp_Console.thy ===== *)
theory Arp_Console
  imports Arp_Attack
begin

text \<open>
  \<open>main\<close> of \<open>T1/Old/Application.c\<close> once more, with all it prints on the
  standard output and with the end of the process: \<open>exit\<close> calls
  \<open>cleanUp\<close>, which closes the shared socket. The text is collected in
  \<open>screen\<close> of \<open>arp_net\<close>, where the functions of
  \<open>Network.c\<close> put theirs. What the second thread prints at the same time is the
  subject of \<open>arp_sniffer_thread\<close>. It is shown that this is the program of
  \<open>Arp_Attack\<close>, and what is on the screen when it ends.
\<close>

section \<open>The program with its output\<close>

text \<open>
  The process goes on with a result, waits in \<open>recv\<close>, or has ended with a status;
  the string is what \<open>cleanUp\<close> then writes to the error stream.
\<close>

datatype 'a attack =
    Going 'a arp_net
  | Waiting arp_net
  | Ended int arp_net string

definition thenA :: "'a attack outcome \<Rightarrow> ('a \<Rightarrow> arp_net \<Rightarrow> 'b attack outcome) \<Rightarrow> 'b attack outcome" where
  "thenA m f = seqE m (\<lambda>r. case r of
     Going x s \<Rightarrow> f x s
   | Waiting s \<Rightarrow> Inr (Waiting s)
   | Ended status s err \<Rightarrow> Inr (Ended status s err))"

definition puts :: "string \<Rightarrow> arp_net \<Rightarrow> arp_net" where
  "puts t s = s\<lparr>screen := screen s @ t @ nl\<rparr>"

definition exit_failure :: "(int \<Rightarrow> int) \<Rightarrow> string \<Rightarrow> arp_net \<Rightarrow> 'a attack outcome" where
  "exit_failure close_fd msg s =
     (let s = puts msg s in Inr (Ended EXIT_FAILURE s (cleanUp close_fd s)))"

definition send_out ::
  "(int \<Rightarrow> int) \<Rightarrow> (nat \<Rightarrow> u8 list \<Rightarrow> int) \<Rightarrow> string \<Rightarrow> arp_package \<Rightarrow> arp_net \<Rightarrow>
   arp_package attack outcome" where
  "send_out close_fd sendto msg p s =
     seqE (sendArpPackage (sendto (length (sent s))) p s) (\<lambda>(r, p, s).
       if r < 0 then exit_failure close_fd msg s else Inr (Going p s))"

text \<open>\<open>receive_loop\<close> with the line it prints for each ARP package.\<close>

fun receive_loop_out ::
  "u16 \<Rightarrow> u8 list \<Rightarrow> recv_event list \<Rightarrow> arp_net \<Rightarrow>
   ((int \<times> arp_package option \<times> recv_event list) option \<times> arp_net) outcome" where
  "receive_loop_out op buffer [] s = Inr (None, s)"
| "receive_loop_out op buffer (RecvFailed # es) s = Inr (Some (- 1, None, es), s)"
| "receive_loop_out op buffer (Recv bs # es) s =
     (let buffer = store_recv bs buffer
      in seqE (createEthernetPackageFromBuffer buffer) (\<lambda>ethernetPackage.
         if uint (ntohs (ethertype ethernetPackage)) = ARP_ETHERTYPE
         then (let s = puts ''Received Arp'' s
           in seqE (createArpPackageWithEthernetPackage ethernetPackage) (\<lambda>arpPackage.
           if op = operation arpPackage then Inr (Some (0, Some arpPackage, es), s)
           else receive_loop_out op buffer es s))
         else receive_loop_out op buffer es s))"

definition receive_out ::
  "(int \<Rightarrow> int) \<Rightarrow> string \<Rightarrow> recv_event list \<Rightarrow> arp_net \<Rightarrow> (arp_package \<times> recv_event list) attack outcome" where
  "receive_out close_fd msg es s =
     seqE (receive_loop_out (ucast ARPOP_REPLY) (replicate BUFFER_SIZE 0) es s) (\<lambda>(r, s).
       case r of None \<Rightarrow> Inr (Waiting s)
       | Some (ret, p, es) \<Rightarrow>
           (if ret < 0 then exit_failure close_fd msg s
            else case p of None \<Rightarrow> Inl BadRead | Some p \<Rightarrow> Inr (Going (p, es) s)))"

fun attack_loop_out ::
  "(int \<Rightarrow> int) \<Rightarrow> (nat \<Rightarrow> u8 list \<Rightarrow> int) \<Rightarrow> nat \<Rightarrow> arp_package \<Rightarrow> arp_package \<Rightarrow> arp_net \<Rightarrow>
   unit attack outcome" where
  "attack_loop_out close_fd sendto 0 m r s = Inr (Going () s)"
| "attack_loop_out close_fd sendto (Suc n) m r s =
     thenA (send_out close_fd sendto ''Error 6'' m s) (\<lambda>m s.
     thenA (send_out close_fd sendto ''Error 7'' r s) (\<lambda>r s.
       attack_loop_out close_fd sendto n m r s))"

text \<open>\<open>atexit\<close> comes after the check of the arguments.\<close>

definition attack_main_out ::
  "(int \<Rightarrow> int) \<Rightarrow> u8 list list \<Rightarrow> nat \<Rightarrow> attack_env \<Rightarrow> unit attack outcome" where
  "attack_main_out close_fd argv rounds env =
     (if length argv \<noteq> 3
      then Inr (Ended EXIT_FAILURE (puts ''Usage: ./run <InterfaceName> <TargetIpAddress>'' net_start) [])
      else seqE (c_strcpy (replicate 16 0) (argv ! 1 @ [0])) (\<lambda>interfaceName.
        let targetIp = ip_bytes (inet_addr_of env (argv ! 2))
        in seqE (initSharedSocketWithInterfaceName (sock env) interfaceName net_start) (\<lambda>(fd, s).
        if fd < 0 then exit_failure close_fd ''Error 1'' s
        else seqE (initArpSnifferWithInterfaceName (thread_create env) interfaceName) (\<lambda>(r, _).
        if r < 0 then exit_failure close_fd ''Error 2'' s
        else
          seqE (createArpPackage ARPOP_REQUEST (localInterfaceMacAddress s)
            (localInterfaceIpAddress s) broadcastMacAddress targetIp) (\<lambda>initialPackage.
          seqE (createArpPackage ARPOP_REQUEST (localInterfaceMacAddress s)
            (localInterfaceIpAddress s) broadcastMacAddress routerIpAddress) (\<lambda>routerPackage.
          thenA (send_out close_fd (sendto_of env) ''Error 3'' initialPackage
            (puts ''Sending Initial Arp'' s)) (\<lambda>_ s.
          thenA (receive_out close_fd ''Error 4'' (recvs env)
            (puts ''Receiving Arp Response'' s)) (\<lambda>(received, es) s.
          let targetMac = senderMacAddress received
          in thenA (send_out close_fd (sendto_of env) ''Error 4'' routerPackage
            (puts ''Sending router package'' s)) (\<lambda>_ s.
          thenA (receive_out close_fd ''Error 5'' es
            (puts ''Receiving Arp Response'' s)) (\<lambda>(received, es) s.
          let routerMac = senderMacAddress received
          in seqE (createArpPackage ARPOP_REPLY (localInterfaceMacAddress s)
               routerIpAddress targetMac targetIp) (\<lambda>malicious.
             seqE (createArpPackage ARPOP_REPLY (localInterfaceMacAddress s) targetIp
               routerMac routerIpAddress) (\<lambda>maliciousRouter.
             attack_loop_out close_fd (sendto_of env) rounds malicious maliciousRouter s))))))))))))"

text \<open>\<open>Util.c\<close> of the same directory, whose only function is never called.\<close>

definition printHelloWorld :: string where
  "printHelloWorld = ''Hello World'' @ nl"

section \<open>The same program\<close>

definition quiet :: "arp_net \<Rightarrow> arp_net" where
  "quiet s = s\<lparr>screen := []\<rparr>"

lemma quiet_puts [simp]: "quiet (puts t s) = quiet s"
  by (simp add: quiet_def puts_def)

lemma quiet_sel:
  assumes "quiet s = quiet s'"
  shows "localInterfaceMacAddress s = localInterfaceMacAddress s'"
    and "localInterfaceIpAddress s = localInterfaceIpAddress s'"
    and "sent s = sent s'" and "sharedSocket s = sharedSocket s'"
  using arg_cong [OF assms, of localInterfaceMacAddress] arg_cong [OF assms, of localInterfaceIpAddress]
    arg_cong [OF assms, of sent] arg_cong [OF assms, of sharedSocket]
  by (simp_all add: quiet_def)

text \<open>\<open>agrees R m n\<close>: the run \<open>m\<close> ends, waits or faults as \<open>n\<close> does, or their results are related.\<close>

definition ended_with :: "(int \<Rightarrow> int) \<Rightarrow> string \<Rightarrow> int \<Rightarrow> arp_net \<Rightarrow> string \<Rightarrow> bool" where
  "ended_with close_fd msg status s err \<longleftrightarrow> status = EXIT_FAILURE \<and> err = cleanUp close_fd s \<and>
     (\<exists>t. screen s = t @ msg @ nl)"

fun agrees ::
  "(int \<Rightarrow> int) \<Rightarrow> ('a \<Rightarrow> arp_net \<Rightarrow> 'b \<Rightarrow> bool) \<Rightarrow> 'a attack outcome \<Rightarrow> 'b option outcome \<Rightarrow> bool" where
  "agrees cl R (Inl e) n \<longleftrightarrow> n = Inl e \<and> e \<in> {BadRead, BadWrite}"
| "agrees cl R (Inr (Waiting s)) n \<longleftrightarrow> n = Inr None"
| "agrees cl R (Inr (Ended status s err)) n \<longleftrightarrow>
     (\<exists>msg. n = Inl (ExitFailure msg) \<and> ended_with cl msg status s err)"
| "agrees cl R (Inr (Going x s)) n \<longleftrightarrow> (\<exists>y. n = Inr (Some y) \<and> R x s y)"

lemma agrees_exit [simp]: "agrees cl R (exit_failure cl msg s) (Inl (ExitFailure msg))"
  by (auto simp: exit_failure_def ended_with_def puts_def Let_def)

lemma agrees_then:
  assumes "agrees cl R m (seqE n (\<lambda>y. Inr (Some y)))"
    and "\<And>x s y. R x s y \<Longrightarrow> agrees cl Q (f x s) (g y)"
  shows "agrees cl Q (thenA m f) (seqE n g)"
proof -
  have "agrees cl Q (thenA m f) (seqE n g)" if "m = Inr r" for r
    using assms that by (cases r; cases n) (auto simp: thenA_def)
  then show ?thesis using assms(1) by (cases m; cases n) (auto simp: thenA_def)
qed

lemma agrees_then_wait:
  assumes "agrees cl R m n" and "\<And>x s y. R x s y \<Longrightarrow> agrees cl Q (f x s) (g y)"
  shows "agrees cl Q (thenA m f) (seqE n (\<lambda>r. case r of None \<Rightarrow> Inr None | Some y \<Rightarrow> g y))"
proof -
  have "agrees cl Q (thenA m f) (seqE n (\<lambda>r. case r of None \<Rightarrow> Inr None | Some y \<Rightarrow> g y))"
    if "m = Inr r" for r
    using assms that by (cases r) (auto simp: thenA_def)
  then show ?thesis using assms(1) by (cases m) (auto simp: thenA_def)
qed

text \<open>Steps that are the same in both programs and never call \<open>exit\<close>.\<close>

definition only_faults :: "'a outcome \<Rightarrow> bool" where
  "only_faults m \<longleftrightarrow> (\<forall>e. m = Inl e \<longrightarrow> e \<in> {BadRead, BadWrite})"

lemma agrees_seq:
  assumes "only_faults m" and "\<And>x. m = Inr x \<Longrightarrow> agrees cl Q (f x) (g x)"
  shows "agrees cl Q (seqE m f) (seqE m g)"
  using assms by (cases m) (auto simp: only_faults_def)

lemma only_faults_simps [simp]:
  "only_faults (Inr x)" "only_faults (Inl BadRead)" "only_faults (Inl BadWrite)"
  "only_faults (mem_read m i)" "only_faults (mem_block m i n)" "only_faults (mem_write m i vs)"
  by (simp_all add: only_faults_def mem_read_def mem_block_def mem_write_def)

lemma only_faults_seq: "only_faults m \<Longrightarrow> (\<And>x. only_faults (f x)) \<Longrightarrow> only_faults (seqE m f)"
  by (cases m) (auto simp: only_faults_def)

lemma only_faults_create [simp]: "only_faults (createArpPackage op sm si tm ti)"
  by (auto simp: createArpPackage_def intro!: only_faults_seq)

lemma only_faults_strlen [simp]: "only_faults (c_strlen m)"
  by (induction m) (auto intro!: only_faults_seq)

lemma only_faults_strcpy [simp]: "only_faults (c_strcpy dst src)"
  by (auto simp: c_strcpy_def intro!: only_faults_seq)

lemma only_faults_strncpy [simp]: "only_faults (c_strncpy dst src n)"
  by (simp add: c_strncpy_def Let_def)

lemma only_faults_thread [simp]: "only_faults (initArpSnifferWithInterfaceName c nm)"
  by (auto simp: initArpSnifferWithInterfaceName_def intro!: only_faults_seq)

lemma only_faults_shared [simp]: "only_faults (initSharedSocketWithInterfaceName host nm s)"
  by (auto simp: initSharedSocketWithInterfaceName_def initSocketWithInterfaceName_def
      name_requests_def Let_def intro!: only_faults_seq)

lemma only_faults_send [simp]: "only_faults (sendArpPackage st p s)"
  by (auto simp: sendArpPackage_def Let_def intro!: only_faults_seq)

lemma only_faults_ethernet [simp]: "only_faults (createEthernetPackageFromBuffer b)"
  by (auto simp: createEthernetPackageFromBuffer_def Let_def intro!: only_faults_seq)

lemma only_faults_copy [simp]: "only_faults (copyMemoryAndAdvancePointer b off n)"
  by (auto simp: copyMemoryAndAdvancePointer_def intro!: only_faults_seq)

lemma only_faults_arp [simp]: "only_faults (createArpPackageWithEthernetPackage e)"
  by (auto simp: createArpPackageWithEthernetPackage_def Let_def intro!: only_faults_seq)

lemma only_faults_receive [simp]: "only_faults (receive_loop op b es)"
  by (induction op b es rule: receive_loop.induct) (auto simp: Let_def intro!: only_faults_seq)

text \<open>What is on the screen changes nothing of what is sent and received.\<close>

lemma send_screen:
  "sendArpPackage st p s = seqE (sendArpPackage st p (quiet s)) (\<lambda>(r, q, t).
     Inr (r, q, t\<lparr>screen := screen s @ screen t\<rparr>))"
  by (auto simp: sendArpPackage_def quiet_def Let_def seqE_assoc intro!: seqE_step)

lemma agrees_send:
  assumes "quiet s = quiet s'"
  shows "agrees cl (\<lambda>p t (q, t'). p = q \<and> quiet t = quiet t') (send_out cl sendto msg p s)
    (seqE (send_or_exit sendto msg p s') (\<lambda>y. Inr (Some y)))"
proof -
  let ?m = "sendArpPackage (sendto (length (sent s))) p (quiet s)"
  have "only_faults ?m" by simp
  then show ?thesis
    using send_screen [of "sendto (length (sent s))" p s] send_screen [of "sendto (length (sent s))" p s']
      quiet_sel(3) [OF assms] assms
    by (cases ?m) (auto simp: send_out_def send_or_exit_def only_faults_def quiet_def)
qed

lemma receive_loop_quiet:
  "seqE (receive_loop_out op b es s) (\<lambda>(r, t). Inr (r, quiet t)) =
   seqE (receive_loop op b es) (\<lambda>r. Inr (r, quiet s))"
proof (induction op b es s rule: receive_loop_out.induct)
  case (3 op b bs es s)
  let ?m = "createEthernetPackageFromBuffer (store_recv bs b)"
  show ?case
  proof (cases ?m)
    case (Inr e)
    note IH = 3 [OF refl]
    show ?thesis
    proof (cases "uint (ntohs (ethertype e)) = ARP_ETHERTYPE")
      case True
      then show ?thesis
        using Inr IH(1) [OF True refl] by (cases "createArpPackageWithEthernetPackage e") (simp_all add: Let_def)
    next
      case False
      then show ?thesis using Inr IH(2) [OF False] by (simp add: Let_def)
    qed
  qed simp
qed simp_all

lemma agrees_receive:
  "agrees cl (\<lambda>x t y. x = y \<and> quiet t = quiet s) (receive_out cl msg es s) (receive_or_exit msg es)"
proof -
  let ?op = "ucast ARPOP_REPLY" and ?b = "replicate BUFFER_SIZE 0"
  have faults: "only_faults (receive_loop ?op ?b es)" by simp
  note q = receive_loop_quiet [of ?op ?b es s]
  show ?thesis
  proof (cases "receive_loop ?op ?b es")
    case (Inl e)
    then have "receive_loop_out ?op ?b es s = Inl e" using q by (cases "receive_loop_out ?op ?b es s") auto
    then show ?thesis
      using Inl faults by (simp add: receive_out_def receive_or_exit_def receiveArpPackage_def only_faults_def)
  next
    case (Inr r)
    then obtain t where t: "receive_loop_out ?op ?b es s = Inr (r, t)" "quiet t = quiet s"
      using q by (auto simp: seqE_eq_Inr)
    show ?thesis
    proof (cases r)
      case (Some a)
      obtain ret p es' where "a = (ret, p, es')" by (cases a)
      then show ?thesis
        using Inr t Some
        by (cases p) (simp_all add: receive_out_def receive_or_exit_def receiveArpPackage_def)
    qed (use Inr t in \<open>simp add: receive_out_def receive_or_exit_def receiveArpPackage_def\<close>)
  qed
qed

lemma agrees_send_then:
  assumes "quiet s = quiet s'" and "\<And>p t t'. quiet t = quiet t' \<Longrightarrow> agrees cl Q (f p t) (g p t')"
  shows "agrees cl Q (thenA (send_out cl sendto msg p s) f)
    (seqE (send_or_exit sendto msg p s') (\<lambda>(p, s). g p s))"
  by (rule agrees_then [OF agrees_send [OF assms(1)]]) (auto intro: assms(2))

lemma agrees_receive_then:
  assumes "\<And>p es t. quiet t = quiet s \<Longrightarrow> agrees cl Q (f (p, es) t) (g p es)"
  shows "agrees cl Q (thenA (receive_out cl msg es s) f)
    (seqE (receive_or_exit msg es) (\<lambda>r. case r of None \<Rightarrow> Inr None | Some (p, es) \<Rightarrow> g p es))"
  by (rule agrees_then_wait [OF agrees_receive]) (auto intro: assms)

lemma agrees_loop:
  "quiet s = quiet s' \<Longrightarrow> agrees cl (\<lambda>x t t'. quiet t = quiet t') (attack_loop_out cl sendto n m r s)
     (seqE (attack_loop sendto n m r s') (\<lambda>s. Inr (Some s)))"
proof (induction n arbitrary: m r s s')
  case (Suc n)
  show ?case
    unfolding attack_loop_out.simps attack_loop.simps seqE_assoc prod.case_distrib [of "\<lambda>m. seqE m _"]
    by (intro agrees_send_then Suc.prems Suc.IH)
qed simp

lemma agrees_seq_pair:
  assumes "only_faults m" and "\<And>x y. agrees cl Q (f x y) (g x y)"
  shows "agrees cl Q (seqE m (\<lambda>(x, y). f x y)) (seqE m (\<lambda>(x, y). g x y))"
  by (rule agrees_seq [OF assms(1)]) (auto intro: assms(2))

lemma agrees_if:
  "agrees cl Q m n \<Longrightarrow> agrees cl Q m' n' \<Longrightarrow> agrees cl Q (if b then m else m') (if b then n else n')"
  by simp

lemma agrees_attack:
  assumes "quiet t = quiet t'"
  shows "agrees cl (\<lambda>x t t'. quiet t = quiet t')
    (seqE (createArpPackage ARPOP_REPLY (localInterfaceMacAddress t) ip1 mac1 ip2) (\<lambda>malicious.
       seqE (createArpPackage ARPOP_REPLY (localInterfaceMacAddress t) ip2 mac2 ip1) (\<lambda>maliciousRouter.
       attack_loop_out cl sendto n malicious maliciousRouter t)))
    (seqE (createArpPackage ARPOP_REPLY (localInterfaceMacAddress t') ip1 mac1 ip2) (\<lambda>malicious.
       seqE (createArpPackage ARPOP_REPLY (localInterfaceMacAddress t') ip2 mac2 ip1) (\<lambda>maliciousRouter.
       seqE (attack_loop sendto n malicious maliciousRouter t') (\<lambda>s. Inr (Some s)))))"
  unfolding quiet_sel(1) [OF assms]
  by (intro agrees_seq agrees_loop assms only_faults_create)

lemma agrees_main:
  assumes "length argv = 3"
  shows "agrees cl (\<lambda>x t t'. quiet t = quiet t') (attack_main_out cl argv n env) (attack_main argv n env)"
proof -
  have three: "\<not> length argv \<noteq> 3" using assms by simp
  show ?thesis
    unfolding attack_main_out_def attack_main_def Let_def if_not_P [OF three]
    apply (rule agrees_seq [OF only_faults_strcpy])
    apply (rule agrees_seq_pair [OF only_faults_shared])
    apply (rule agrees_if [OF agrees_exit])
    apply (rule agrees_seq_pair [OF only_faults_thread])
    apply (rule agrees_if [OF agrees_exit])
    apply (rule agrees_seq [OF only_faults_create])
    apply (rule agrees_seq [OF only_faults_create])
    apply (rule agrees_send_then [OF quiet_puts])
    apply (rule agrees_receive_then)
    apply (simp only: prod.case)
    apply (rule agrees_send_then, simp)
    apply (rule agrees_receive_then)
    apply (simp only: prod.case)
    apply (rule agrees_attack, simp)
    done
qed

text \<open>
  C13. How a run of the ARP program ends: it goes on for ever, waits for a reply for ever, faults, or
  exits, each exactly when the program without its output does; while it goes on, its state is
  that of the program without output, the frames sent included. It never
  exits with status 0. When it exits the last line on the screen is the message of the step that
  failed, and unless the arguments were wrong \<open>cleanUp\<close> has closed the shared socket.
\<close>

theorem attack_run_ends:
  "case attack_main_out close_fd argv n env of
     Inl e \<Rightarrow> attack_main argv n env = Inl e \<and> e \<in> {BadRead, BadWrite}
   | Inr (Going _ s) \<Rightarrow> (\<exists>s'. attack_main argv n env = Inr (Some s') \<and> s = s'\<lparr>screen := screen s\<rparr> \<and>
       sent s = sent s')
   | Inr (Waiting s) \<Rightarrow> attack_main argv n env = Inr None
   | Inr (Ended status s err) \<Rightarrow> status = EXIT_FAILURE \<and>
       (\<exists>m t. attack_main argv n env = Inl (ExitFailure m) \<and> screen s = t @ m @ nl) \<and>
       err = (if length argv = 3 then cleanUp close_fd s else [])"
proof (cases "length argv = 3")
  case True
  have same: "s = s'\<lparr>screen := screen s\<rparr>" if "quiet s = quiet s'" for s s' :: arp_net
    using that by (cases s; cases s') (simp add: quiet_def)
  note ag = agrees_main [OF True, of close_fd n env]
  show ?thesis
  proof (cases "attack_main_out close_fd argv n env")
    case (Inl e)
    then show ?thesis using ag by simp
  next
    case (Inr r)
    show ?thesis
    proof (cases r)
      case (Going x s)
      then obtain s' where "attack_main argv n env = Inr (Some s')" "quiet s = quiet s'"
        using ag Inr by auto
      moreover from this(2) have "s = s'\<lparr>screen := screen s\<rparr>" "sent s = sent s'"
        by (rule same, rule quiet_sel(3))
      ultimately show ?thesis unfolding Inr Going sum.case attack.case by blast
    next
      case (Waiting s)
      then show ?thesis using ag Inr by simp
    next
      case (Ended status s err)
      then show ?thesis using ag Inr True by (auto simp: ended_with_def)
    qed
  qed
next
  case False
  then show ?thesis by (auto simp: attack_main_out_def attack_main_def puts_def)
qed

end
