(* ===== verification/Arp_Poison.thy ===== *)
theory Arp_Poison
  imports Eth_Frame Util_Flags Arp_Package
begin

text \<open>
  The second ARP program, unfinished in the repository: \<open>T1/arp.c\<close>,
  \<open>T1/ethernet.c\<close> and \<open>T1/Application.c\<close>. \<open>T1/ethernet.c\<close>
  is \<open>TF/ethernet.c\<close> with two differences: \<open>get_ifa_name\<close> also stores
  the address, the broadcast address and the mask of the interface, and
  \<open>write_eth_frame\<close> is not a stub. \<open>struct ether_arp\<close> of the system has
  the layout of the record \<open>arp_package\<close>. The operating system is a parameter, as in
  \<open>Eth_Frame\<close>. A run is a list of events, the frames captured and calls of the
  handler of \<open>SIGINT\<close>, which ends the program. That a signal reaches the handler is
  assumed: \<open>init\<close> passes a \<open>struct sigaction\<close> whose mask and flags are
  not initialised.
\<close>

section \<open>The interface\<close>

record t1_state =
  t1_eth :: eth_state
  y_ip :: u32
  t1_brd :: u32
  t1_sub :: u32
  str_v :: "u8 list"
  t1_verbose :: int

text \<open>
  A null pointer for the broadcast address or the mask is dereferenced: \<open>BadRead\<close>.
\<close>

definition t1_get_ifa_name :: "ifaddr list \<Rightarrow> t1_state \<Rightarrow> (int \<times> t1_state) outcome" where
  "t1_get_ifa_name addrs st =
     (let name = replicate IFNAMSIZ 0
      in seqE (pick_ifa addrs) (\<lambda>it.
         seqE (case it of
             None \<Rightarrow> Inr (name, st)
           | Some it \<Rightarrow>
               (case (ifa_addr it, ifa_broadaddr it, ifa_netmask it) of
                  (Some (_, a), Some b, Some m) \<Rightarrow>
                    seqE (c_strcpy name (ifa_name it @ [0])) (\<lambda>name.
                      Inr (name, st\<lparr>y_ip := a, t1_brd := b, t1_sub := m\<rparr>))
                | _ \<Rightarrow> Inl BadRead)) (\<lambda>(name, st).
         let st = st\<lparr>t1_eth := (t1_eth st)\<lparr>ifname := name\<rparr>\<rparr>
         in seqE (mem_read name 0) (\<lambda>c. Inr (if c \<noteq> 0 then 0 else - 1, st)))))"

definition t1_eth_init :: "eth_env \<Rightarrow> t1_state \<Rightarrow> (int \<times> t1_state) outcome" where
  "t1_eth_init env st =
     seqE (t1_get_ifa_name (ifas env) st) (\<lambda>(r, st).
     if r < 0 then Inr (- 1, st)
     else seqE (eth_attach env (t1_eth st)) (\<lambda>(r, e). Inr (r, st\<lparr>t1_eth := e\<rparr>)))"

text \<open>\<open>sizeof (eth_frm)\<close> bytes are written, whatever the frame holds.\<close>

definition t1_write_eth_frame :: "(u8 list \<Rightarrow> int) \<Rightarrow> u8 list \<Rightarrow> int outcome" where
  "t1_write_eth_frame write_dev frm =
     seqE (mem_block frm 0 (ETHER_HDR_LEN + (ETHER_MAX_LEN - ETHER_HDR_LEN))) (\<lambda>d. Inr (write_dev d))"

text \<open>
  Reception, printing and the debug output are the same text as in \<open>TF/ethernet.c\<close>
  and \<open>TF/util.c\<close>.
\<close>

definition t1_wait_eth_frame ::
  "read_result \<Rightarrow> u8 list \<Rightarrow> nat \<Rightarrow> u8 list \<Rightarrow> (nat \<times> u8 list) outcome" where
  [simp]: "t1_wait_eth_frame = wait_eth_frame"

definition t1_print_mac_addr :: "u8 list \<Rightarrow> string" where
  [simp]: "t1_print_mac_addr = print_mac_addr"

definition t1_print_eth_frame :: "u8 list \<Rightarrow> string" where
  [simp]: "t1_print_eth_frame = print_eth_frame"

definition t1_d_printf :: "int \<Rightarrow> string \<Rightarrow> string \<Rightarrow> string" where
  [simp]: "t1_d_printf = d_printf"

section \<open>The package\<close>

definition arp_pkg_set ::
  "arp_package \<Rightarrow> u16 \<Rightarrow> u8 list \<Rightarrow> u8 list \<Rightarrow> u8 list \<Rightarrow> u8 list \<Rightarrow> arp_package outcome" where
  "arp_pkg_set pkg op s_haddr s_paddr t_haddr t_paddr =
     (let pkg = pkg\<lparr>hardwareType := 0x1\<rparr>;
          pkg = pkg\<lparr>protocolType := 0x800\<rparr>;
          pkg = pkg\<lparr>hardwareLength := 6\<rparr>;
          pkg = pkg\<lparr>protocolLength := 4\<rparr>;
          pkg = pkg\<lparr>operation := op\<rparr>
      in seqE (mem_block s_haddr 0 6) (\<lambda>sh.
         seqE (mem_block s_paddr 0 4) (\<lambda>sp.
         seqE (mem_block t_haddr 0 6) (\<lambda>th.
         seqE (mem_block t_paddr 0 4) (\<lambda>tp.
           Inr (pkg\<lparr>senderMacAddress := sh, senderIpAddress := sp, targetMacAddress := th,
             targetIpAddress := tp\<rparr>))))))"

section \<open>The program\<close>

definition ETHERTYPE_ARP :: u16 where [c_consts]: "ETHERTYPE_ARP = 0x0806"

text \<open>
  The process while it runs: the frame object, the text printed, and the status once it has
  ended. \<open>SIGINT\<close> is delivered while the program waits for a frame; its handler
  \<open>deinit_it\<close> calls \<open>exit\<close>, which calls \<open>deinit\<close>.
\<close>

datatype t1_event =
    Captured "read_result \<times> u8 list"
  | Interrupt

record t1_process =
  t1_frame :: "u8 list"
  t1_out :: string
  t1_status :: "int option"

definition t1_deinit :: "int \<Rightarrow> string \<Rightarrow> string" where
  "t1_deinit verbose out = t1_d_printf verbose (''Deinit'' @ nl) out"

definition deinit_it :: "int \<Rightarrow> t1_process \<Rightarrow> t1_process" where
  "deinit_it verbose p = p\<lparr>t1_out := t1_deinit verbose (t1_out p), t1_status := Some EXIT_SUCCESS\<rparr>"

text \<open>
  One round of the loop of \<open>init_loop\<close> for what \<open>read\<close> gives and what
  lies on the stack: the frame object and the text are updated. The package pointer taken for an
  ARP frame is not used.
\<close>

definition t1_round ::
  "int \<Rightarrow> nat \<Rightarrow> read_result \<times> u8 list \<Rightarrow> u8 list \<times> string \<Rightarrow> (u8 list \<times> string) outcome" where
  "t1_round verbose bl = (\<lambda>(rd, stack) (frm, out).
     seqE (t1_wait_eth_frame rd stack bl frm) (\<lambda>(num_bytes, frm).
     let out = t1_d_printf verbose ''{Ethernet'' out
     in seqE (mem_block frm 12 2) (\<lambda>ty.
        let out = (if ntohs (ld16 ty) = ETHERTYPE_ARP then out else t1_d_printf verbose ''-*'' out)
        in Inr (frm, t1_d_printf verbose (''} - '' @ dec_str (num_bytes mod 2 ^ 32) @ nl) out))))"

definition t1_step :: "int \<Rightarrow> nat \<Rightarrow> t1_event \<Rightarrow> t1_process \<Rightarrow> t1_process outcome" where
  "t1_step verbose bl e p =
     (if t1_status p \<noteq> None then Inr p
      else case e of
        Captured c \<Rightarrow> seqE (t1_round verbose bl c (t1_frame p, t1_out p))
          (\<lambda>(frm, out). Inr (p\<lparr>t1_frame := frm, t1_out := out\<rparr>))
      | Interrupt \<Rightarrow> Inr (deinit_it verbose p))"

text \<open>
  \<open>init\<close>, which does not look at the result of \<open>eth_init\<close>;
  \<open>arp_poision\<close>, whose objects are not used; \<open>init_loop\<close>, its endless
  loop over a list of events, where \<open>mem\<close> is what \<open>malloc\<close> gives for
  the frame.
\<close>

definition t1_init :: "eth_env \<Rightarrow> t1_state \<Rightarrow> string \<Rightarrow> (t1_state \<times> string) outcome" where
  "t1_init env st out =
     (let out = t1_d_printf (t1_verbose st) (''Init'' @ nl) out
      in seqE (t1_eth_init env st) (\<lambda>(r, st). Inr (st, out)))"

definition arp_poision :: "t1_state \<Rightarrow> string \<Rightarrow> string outcome" where
  "arp_poision st out =
     seqE (if t1_verbose st = 0 then Inr [] else c_string (str_v st)) (\<lambda>target.
       Inr (t1_d_printf (t1_verbose st) (''Target Ip: '' @ text_of target @ nl) out))"

definition t1_init_loop :: "t1_state \<Rightarrow> t1_event list \<Rightarrow> u8 list \<Rightarrow> string \<Rightarrow> t1_process outcome" where
  "t1_init_loop st es mem out =
     seqE (arp_poision st out) (\<lambda>out.
       foldE (t1_step (t1_verbose st) (buf_size (t1_eth st))) es
         \<lparr>t1_frame = mem, t1_out = out, t1_status = None\<rparr>)"

definition t1_main ::
  "eth_env \<Rightarrow> u8 list \<Rightarrow> u8 list list \<Rightarrow> t1_event list \<Rightarrow> u8 list \<Rightarrow> t1_state \<Rightarrow>
   (t1_state \<times> t1_process) outcome" where
  "t1_main env optarg argv es mem st =
     seqE (t1_get_initial_flags optarg argv (t1_verbose st, str_v st)) (\<lambda>(v, sv).
     seqE (t1_init env (st\<lparr>t1_verbose := v, str_v := sv\<rparr>) []) (\<lambda>(st, out).
     seqE (t1_init_loop st es mem out) (\<lambda>p. Inr (st, p))))"

definition t1_start :: t1_state where
  "t1_start = \<lparr>t1_eth = \<lparr>ifname = replicate IFNAMSIZ 0, buf_size = 0, bpf = 0\<rparr>, y_ip = 0, t1_brd = 0,
     t1_sub = 0, str_v = replicate MAX_IP_ADDR 0, t1_verbose = 0\<rparr>"

section \<open>The interface and the package\<close>

text \<open>
  The interface is the first one with an IPv4 address whose name does not contain \<open>lo\<close>: its
  name and its three addresses are stored. When it has no broadcast address or no mask, as a
  point-to-point link may, a null pointer is dereferenced. Without an interface the result is -1.
\<close>

lemma t1_get_ifa_name_find:
  assumes "\<forall>it \<in> set its. name_ok it"
  shows "t1_get_ifa_name its st = (case find usable its of
      None \<Rightarrow> Inr (- 1, st\<lparr>t1_eth := (t1_eth st)\<lparr>ifname := replicate IFNAMSIZ 0\<rparr>\<rparr>)
    | Some it \<Rightarrow> (case (ifa_broadaddr it, ifa_netmask it) of
        (Some b, Some m) \<Rightarrow> Inr (0, st\<lparr>y_ip := snd (the (ifa_addr it)), t1_brd := b, t1_sub := m,
          t1_eth := (t1_eth st)\<lparr>ifname := padded_name it\<rparr>\<rparr>)
      | _ \<Rightarrow> Inl BadRead))"
proof (cases "find usable its")
  case None
  then show ?thesis
    using assms pick_ifa_find [of its]
    by (simp add: t1_get_ifa_name_def name_ok_def mem_read_def IFNAMSIZ_def)
next
  case (Some it)
  then have ok: "name_ok it" and us: "usable it" using assms by (auto simp: find_Some_iff)
  obtain f a where addr: "ifa_addr it = Some (f, a)" using us by (auto simp: usable_def)
  obtain c cs where c: "ifa_name it = c # cs" "c \<noteq> 0"
    using ok by (cases "ifa_name it") (auto simp: name_ok_def)
  have copy: "c_strcpy (replicate IFNAMSIZ 0) (ifa_name it @ [0]) = Inr (padded_name it)"
  proof -
    have "c_strcpy (replicate IFNAMSIZ 0) (ifa_name it @ [0]) =
        Inr (ifa_name it @ 0 # drop (length (ifa_name it) + 1) (replicate IFNAMSIZ 0))"
      using ok by (intro c_strcpy_ok) (auto simp: name_ok_def)
    then show ?thesis
      using ok by (auto simp: padded_name_def name_ok_def Suc_diff_Suc simp flip: replicate_Suc)
  qed
  have "mem_read (padded_name it) 0 = Inr c" using c by (simp add: padded_name_def mem_read_def)
  moreover have "pick_ifa its = Inr (Some it)"
    using Some assms pick_ifa_find [of its] by (simp add: name_ok_def)
  ultimately show ?thesis
    using Some copy c addr
    by (auto simp: t1_get_ifa_name_def Let_def split: option.split)
qed

text \<open>
  The fields of a package built by \<open>arp_pkg_set\<close> stay in the byte order of the host,
  unlike those of \<open>T1/Old\<close>: sent in an Ethernet frame it is read, by the program's
  own predecessor and by every host that follows the standard, as a package with hardware type
  256, protocol 8 and the operation 256 times as large.
\<close>

lemma arp_pkg_set_host_order:
  assumes "length sh = 6" and "length sp = 4" and "length th = 6" and "length tp = 4"
    and "length dst = 6" and "length src = 6" and "op \<in> {1, 2}"
  shows "\<exists>p. arp_pkg_set pkg op sh sp th tp = Inr p \<and> operation p = op \<and>
    seqE (createEthernetPackageFromBuffer (eth_frame dst src 0x0806 (arp_bytes p @ r)))
      createArpPackageWithEthernetPackage =
    Inr \<lparr>hardwareType = 256, protocolType = 8, hardwareLength = 6, protocolLength = 4,
      operation = 256 * op, senderMacAddress = sh, senderIpAddress = sp, targetMacAddress = th,
      targetIpAddress = tp\<rparr>"
proof -
  let ?p = "\<lparr>hardwareType = 1, protocolType = 0x800, hardwareLength = 6, protocolLength = 4,
      operation = op, senderMacAddress = sh, senderIpAddress = sp, targetMacAddress = th,
      targetIpAddress = tp\<rparr>"
  have "arp_pkg_set pkg op sh sp th tp = Inr ?p"
    using assms(1-4) by (cases pkg) (simp add: arp_pkg_set_def mem_block_def)
  moreover have "wf_arp ?p" using assms(1-4) by (simp add: wf_arp_def)
  note create_arp [OF this, of "\<lparr>destinationMac = dst, sourceMac = src, ethertype = htons 0x0806,
      data = arp_bytes ?p @ r\<rparr>" r]
  moreover have "ntohs 1 = 256" "ntohs 0x800 = 8" "htons op = 256 * op"
    using assms(7) by (auto simp: ntohs_def htons_def st16_def)
  ultimately show ?thesis
    using create_ethernet [OF assms(5,6)] by (simp add: ntohArpPackage_def)
qed

section \<open>The loop\<close>

text \<open>One \<open>read\<close>: a header and the bytes behind it, a packet and perhaps others.\<close>

record capture =
  cap_hdr :: "u8 list"
  cap_pkt :: "u8 list"
  cap_stack :: "u8 list"

definition cap_ok :: "nat \<Rightarrow> capture \<Rightarrow> bool" where
  "cap_ok bl c \<longleftrightarrow> read_fits bl (cap_hdr c) (cap_pkt c) \<and> 14 \<le> length (cap_pkt c)"

definition cap_read :: "capture \<Rightarrow> read_result \<times> u8 list" where
  "cap_read c = (ReadBytes (cap_hdr c @ cap_pkt c), cap_stack c)"

definition cap_line :: "capture \<Rightarrow> string" where
  "cap_line c = ''{Ethernet'' @ (if take 2 (drop 12 (cap_pkt c)) = [0x08, 0x06] then [] else ''-*'') @
     ''} - '' @ dec_str (min (length (cap_hdr c) + length (cap_pkt c)) 1518) @ nl"

lemma t1_round_line:
  assumes "cap_ok bl c" and "length frm = 1518"
  shows "\<exists>frm'. length frm' = 1518 \<and>
    t1_round v bl (cap_read c) (frm, out) = Inr (frm', if v = 0 then out else out @ cap_line c)"
proof -
  let ?n = "length (cap_hdr c) + length (cap_pkt c)" and ?ty = "take 2 (drop 12 (cap_pkt c))"
  let ?d = "delivered (cap_hdr c) (cap_pkt c)"
  let ?f = "?d @ drop (length ?d) frm"
  have d: "14 \<le> length ?d" "length ?d \<le> 1518" "take 2 (drop 12 ?d) = ?ty"
    using assms(1) by (auto simp: cap_ok_def delivered_def drop_take min_def)
  then have len: "length ?f = 1518" using assms(2) by simp
  have "take 2 (drop 12 ?f) = ?ty" using d by simp
  then have ty: "mem_block ?f 12 2 = Inr ?ty" using len by (simp add: mem_block_def del: length_take)
  have arp: "ntohs (ld16 ?ty) = ETHERTYPE_ARP \<longleftrightarrow> ?ty = [0x08, 0x06]"
  proof -
    have "length ?ty = 2" using assms(1) by (auto simp: cap_ok_def)
    moreover have "rev (st16 ETHERTYPE_ARP) = [0x08, 0x06]" by (simp add: ETHERTYPE_ARP_def st16_def)
    ultimately show ?thesis using ntohs_ld16_eq [of ?ty ETHERTYPE_ARP] by (simp only:)
  qed
  have "wait_eth_frame (ReadBytes (cap_hdr c @ cap_pkt c)) (cap_stack c) bl frm = Inr (min ?n 1518, ?f)"
    by (rule wait_eth_frame_block) (use assms in \<open>simp_all add: cap_ok_def\<close>)
  then have "t1_round v bl (cap_read c) (frm, out) = Inr (?f, if v = 0 then out else out @ cap_line c)"
    using ty arp by (simp add: t1_round_def cap_read_def cap_line_def d_printf_def Let_def)
  with len show ?thesis by blast
qed

lemma t1_captures_lines:
  assumes "\<forall>c \<in> set cs. cap_ok bl c" and "length frm = 1518"
  shows "\<exists>frm'. foldE (t1_step v bl) (map (\<lambda>c. Captured (cap_read c)) cs)
      \<lparr>t1_frame = frm, t1_out = out, t1_status = None\<rparr> =
    Inr \<lparr>t1_frame = frm', t1_out = out @ level_text v (concat (map cap_line cs)), t1_status = None\<rparr>"
  using assms
proof (induction cs arbitrary: frm out)
  case Nil
  then show ?case by (simp add: level_text_def)
next
  case (Cons c cs)
  let ?out = "if v = 0 then out else out @ cap_line c"
  obtain frm' where "length frm' = 1518" "t1_round v bl (cap_read c) (frm, out) = Inr (frm', ?out)"
    using t1_round_line [of bl c frm v out] Cons.prems by auto
  then show ?case
    using Cons.IH [of frm' ?out] Cons.prems by (simp add: t1_step_def level_text_def split: if_splits)
qed

lemma t1_ended_stays: "t1_status p \<noteq> None \<Longrightarrow> foldE (t1_step v bl) es p = Inr p"
  by (induction es) (simp_all add: t1_step_def)

text \<open>The end of a run: nothing more happens, or Ctrl-C is pressed.\<close>

definition t1_rest :: "t1_event list \<Rightarrow> bool" where
  "t1_rest rest \<longleftrightarrow> rest = [] \<or> hd rest = Interrupt"

definition t1_last :: "t1_event list \<Rightarrow> string \<times> int option" where
  "t1_last rest = (if rest = [] then ([], None) else (''Deinit'' @ nl, Some 0))"

lemma t1_rest_run:
  assumes "t1_rest rest"
  shows "foldE (t1_step v bl) rest \<lparr>t1_frame = frm, t1_out = out, t1_status = None\<rparr> =
    Inr \<lparr>t1_frame = frm, t1_out = out @ level_text v (fst (t1_last rest)), t1_status = snd (t1_last rest)\<rparr>"
proof (cases rest)
  case (Cons e es)
  then have "e = Interrupt" using assms by (simp add: t1_rest_def)
  then show ?thesis
    using Cons by (simp add: t1_step_def deinit_it_def t1_deinit_def d_printf_def t1_last_def
        level_text_def t1_ended_stays EXIT_SUCCESS_def)
qed (simp add: t1_last_def level_text_def)

text \<open>
  C35. A run of the program on a host with a complete interface whose device is attached, while
  every \<open>read\<close> delivers at least one packet and fits the buffer: it prints nothing
  at all without the option \<open>v\<close>; with it, one line for every \<open>read\<close>,
  marked with a star unless the type of the first packet in it is ARP, with the number of bytes
  read, which counts the capture header and is shown as 1518 when it is more. Further packets of
  a read get no line. The target address it prints is empty. It runs until the handler of the
  interrupt is called; then it ends with status 0, prints a last line and takes no further frame.
\<close>

theorem t1_run_output:
  assumes "\<forall>it \<in> set (ifas env). name_ok it" and "find usable (ifas env) = Some it"
    and "ifa_broadaddr it = Some b" and "ifa_netmask it = Some m"
    and "length (ifr_stack env) = IFNAMSIZ"
    and "attached env it \<lparr>ifname = padded_name it, buf_size = 0, bpf = 0\<rparr> = (0, e)"
    and "\<forall>c \<in> set cs. cap_ok (buf_size e) c" and "length mem = 1518" and "t1_rest rest"
  shows "\<exists>st p. t1_main env optarg argv (map (\<lambda>c. Captured (cap_read c)) cs @ rest) mem t1_start = Inr (st, p) \<and>
    t1_out p = (if 118 \<in> set (options argv) then ''Init'' @ nl @ ''Target Ip: '' @ nl @
      concat (map cap_line cs) @ fst (t1_last rest) else []) \<and>
    t1_status p = snd (t1_last rest) \<and>
    t1_eth st = e \<and> y_ip st = snd (the (ifa_addr it)) \<and> t1_brd st = b \<and> t1_sub st = m"
proof -
  let ?v = "if 118 \<in> set (options argv) then 1 else 0 :: int"
  let ?st = "t1_start\<lparr>t1_verbose := ?v\<rparr>"
  let ?st' = "?st\<lparr>y_ip := snd (the (ifa_addr it)), t1_brd := b, t1_sub := m, t1_eth := e\<rparr>"
  let ?head = "level_text ?v (''Init'' @ nl @ ''Target Ip: '' @ nl)"
  have "name_ok it" using assms(1,2) by (auto simp: find_Some_iff)
  then have att: "eth_attach env \<lparr>ifname = padded_name it, buf_size = 0, bpf = 0\<rparr> = Inr (0, e)"
    using eth_attach_result [OF _ assms(5)] assms(6) by simp
  have "t1_eth_init env ?st = Inr (0, ?st')"
    using t1_get_ifa_name_find [OF assms(1), of ?st] assms(2-4) att
    by (simp add: t1_eth_init_def t1_start_def)
  then have init: "t1_init env ?st [] = Inr (?st', level_text ?v (''Init'' @ nl))"
    by (simp add: t1_init_def d_printf_def level_text_def Let_def)
  have "c_string (str_v ?st') = Inr []"
    by (simp add: t1_start_def c_string_zeros MAX_IP_ADDR_def)
  then have head: "arp_poision ?st' (level_text ?v (''Init'' @ nl)) = Inr ?head"
    by (simp add: arp_poision_def d_printf_def level_text_def)
  obtain frm where loop: "foldE (t1_step ?v (buf_size e)) (map (\<lambda>c. Captured (cap_read c)) cs)
      \<lparr>t1_frame = mem, t1_out = ?head, t1_status = None\<rparr> =
      Inr \<lparr>t1_frame = frm, t1_out = ?head @ level_text ?v (concat (map cap_line cs)), t1_status = None\<rparr>"
    using t1_captures_lines [OF assms(7,8)] by blast
  have "t1_init_loop ?st' (map (\<lambda>c. Captured (cap_read c)) cs @ rest) mem (level_text ?v (''Init'' @ nl)) =
      Inr \<lparr>t1_frame = frm, t1_out = ?head @ level_text ?v (concat (map cap_line cs)) @
        level_text ?v (fst (t1_last rest)), t1_status = snd (t1_last rest)\<rparr>"
    using head loop t1_rest_run [OF assms(9)] by (simp add: t1_init_loop_def foldE_append)
  moreover have "t1_get_initial_flags optarg argv (t1_verbose t1_start, str_v t1_start) =
      Inr (?v, str_v t1_start)"
    using t1_flags_result [of optarg argv 0] by (simp add: t1_start_def)
  moreover have "t1_start\<lparr>t1_verbose := ?v, str_v := str_v t1_start\<rparr> = ?st" by (simp add: t1_start_def)
  ultimately show ?thesis using init by (auto simp: t1_main_def level_text_def)
qed

text \<open>
  The result of the set-up is not looked at: on a host without a usable interface the program
  enters its loop with a buffer of size 0 and reads behind it as soon as \<open>read\<close>
  fails, because the error value -1 is stored in an unsigned variable.
\<close>

lemma t1_ignores_init_failure:
  assumes "\<forall>it \<in> set (ifas env). name_ok it" and "find usable (ifas env) = None"
  shows "(\<exists>st. t1_eth_init env t1_start = Inr (- 1, st)) \<and>
    t1_main env optarg argv (Captured (ReadError, []) # es) mem t1_start = Inl BadRead"
proof -
  let ?v = "if 118 \<in> set (options argv) then 1 else 0 :: int"
  have flags: "t1_get_initial_flags optarg argv (0, s) = Inr (?v, s)" for s
    using t1_flags_result [of optarg argv 0 s] .
  have init: "t1_eth_init env st = Inr (- 1, st\<lparr>t1_eth := (t1_eth st)\<lparr>ifname := replicate IFNAMSIZ 0\<rparr>\<rparr>)" for st
    using t1_get_ifa_name_find [OF assms(1), of st] assms(2) by (simp add: t1_eth_init_def)
  have "c_string (str_v t1_start) = Inr []"
    by (simp add: t1_start_def c_string_zeros MAX_IP_ADDR_def)
  moreover have "t1_round v 0 (ReadError, []) (mem, out) = Inl BadRead" for v out
    by (simp add: t1_round_def wait_eth_frame_def mem_block_def c_consts)
  moreover have "buf_size (t1_eth t1_start) = 0" "t1_verbose t1_start = 0" by (simp_all add: t1_start_def)
  ultimately have "t1_main env optarg argv (Captured (ReadError, []) # es) mem t1_start = Inl BadRead"
    using flags [of "str_v t1_start"]
    by (simp add: t1_main_def init t1_init_def t1_init_loop_def arp_poision_def t1_step_def Let_def)
  with init show ?thesis by blast
qed

section \<open>Instances\<close>

lemma arp_pkg_set_host_order_witness:
  "\<exists>p. arp_pkg_set sample_arp 2 (replicate 6 1) [10, 0, 0, 1] (replicate 6 2) [10, 0, 0, 5] = Inr p \<and>
    operation p = 2"
  using arp_pkg_set_host_order [of "replicate 6 1" "[10, 0, 0, 1]" "replicate 6 2" "[10, 0, 0, 5]"
      "replicate 6 2" "replicate 6 1" 2 sample_arp "[]"]
  by auto

definition sample_cap :: capture where
  "sample_cap = \<lparr>cap_hdr = replicate 16 0 @ [18, 0], cap_pkt = replicate 12 1 @ [8, 6] @ replicate 28 0,
     cap_stack = []\<rparr>"

theorem t1_run_output_witness:
  "\<exists>st p. t1_main sample_eth_env [] [[112], [45, 118]] [Captured (cap_read sample_cap), Interrupt]
       (replicate 1518 0) t1_start = Inr (st, p) \<and>
     t1_out p = ''Init'' @ nl @ ''Target Ip: '' @ nl @ ''{Ethernet} - 60'' @ nl @ ''Deinit'' @ nl \<and>
     t1_status p = Some 0"
proof -
  have env: "\<forall>it \<in> set (ifas sample_eth_env). name_ok it"
      "find usable (ifas sample_eth_env) = Some sample_ifa"
      "length (ifr_stack sample_eth_env) = IFNAMSIZ" "gblen sample_eth_env = 4096"
    using sample_ifa_ok by (simp_all add: sample_eth_env_def c_consts)
  have att: "attached sample_eth_env sample_ifa \<lparr>ifname = padded_name sample_ifa, buf_size = 0, bpf = 0\<rparr> =
      (0, \<lparr>ifname = padded_name sample_ifa, buf_size = 4096, bpf = 3\<rparr>)"
    by (simp add: attached_def sample_eth_env_def Let_def upt_rec)
  have cap: "\<forall>c \<in> set [sample_cap]. cap_ok (buf_size \<lparr>ifname = padded_name sample_ifa, buf_size = 4096, bpf = 3\<rparr>) c"
    by (simp add: cap_ok_def read_fits_def sample_cap_def bpf_header_def st16_def)
  have line: "cap_line sample_cap = ''{Ethernet} - 60'' @ nl"
    by (simp add: cap_line_def sample_cap_def dec_str_def num_str.simps digit_def)
  have opt: "118 \<in> set (options [[112], [45, 118]])" by (simp add: options_def opt_arg_def)
  have ifa: "ifa_broadaddr sample_ifa = Some (the (ifa_broadaddr sample_ifa))"
      "ifa_netmask sample_ifa = Some (the (ifa_netmask sample_ifa))"
    by (simp_all add: sample_ifa_def)
  show ?thesis
    using t1_run_output [OF env(1,2) ifa env(3) att cap, of "replicate 1518 0" "[Interrupt]" "[]"
        "[[112], [45, 118]]"] opt line by (auto simp: t1_rest_def t1_last_def)
qed

lemma t1_ignores_init_failure_witness:
  "t1_main (sample_eth_env\<lparr>ifas := []\<rparr>) [] [[112]] [Captured (ReadError, [])] [] t1_start = Inl BadRead"
  using t1_ignores_init_failure [of "sample_eth_env\<lparr>ifas := []\<rparr>" "[]" "[[112]]" "[]" "[]"] by simp

end
