(* ===== verification/Raw_Message.thy ===== *)
theory Raw_Message
  imports Net_Calls
begin

text \<open>
  The two programs handed out that send and show a message in an Ethernet frame,
  \<open>sender.c\<close> and \<open>receptor.c\<close> of
  \<open>T1/Specification&InitialSource/\<close>, and the set-up of the receiving socket that
  \<open>receptor.c\<close> shares, line by line, with \<open>raw_eth_recv.c\<close>. The socket
  calls are parameters. An argument of a program is its bytes without the terminating 0; what
  lies in arrays that are not initialised (\<open>ifname\<close>, \<open>data\<close>,
  \<open>ifr\<close>, the receive buffer) is given.
\<close>

section \<open>The sender\<close>

definition MAC_ADDR_LEN :: nat where [c_consts]: "MAC_ADDR_LEN = 6"
definition RAW_BUFFER_SIZE :: nat where [c_consts]: "RAW_BUFFER_SIZE = 1600"
definition MAX_DATA_SIZE :: nat where [c_consts]: "MAX_DATA_SIZE = 1500"
definition ETHERTYPE :: u16 where [c_consts]: "ETHERTYPE = 0x0FFF"

definition dest_mac :: "u8 list" where [c_consts]: "dest_mac = replicate 6 0xFF"

record sender_env =
  m_socket :: int
  m_ifindex :: "u8 list \<Rightarrow> int \<times> u32"        \<comment> \<open>result of \<open>SIOCGIFINDEX\<close> and the index\<close>
  m_hwaddr :: "u8 list \<Rightarrow> int \<times> u8 list"     \<comment> \<open>result of \<open>SIOCGIFHWADDR\<close> and \<open>sa_data\<close>\<close>
  m_sendto :: "u32 \<Rightarrow> u8 list \<Rightarrow> u8 list \<Rightarrow> int"
  m_stdin :: "u8 list"
  m_ifname :: "u8 list"
  m_data :: "u8 list"

text \<open>
  What \<open>main\<close> leaves: its exit status (\<open>None\<close> while it still runs),
  what it printed and the frames it handed to \<open>sendto\<close> with success. A call that
  fails while the program is set up, before it prints anything, is \<open>Inl (ExitFailure
  _)\<close>.
\<close>

record run_result =
  status :: "int option"
  printed :: string
  frames :: "u8 list list"

text \<open>
  \<open>scanf ("%[^\n]s", data)\<close>: the characters up to the end of the line are stored and
  terminated; when there are none, nothing is stored.
\<close>

definition scan_line :: "u8 list \<Rightarrow> u8 list \<Rightarrow> u8 list outcome" where
  "scan_line inp buf =
     (let line = takeWhile (\<lambda>b. b \<noteq> 10) inp
      in if line = [] then Inr buf else mem_write buf 0 (line @ [0]))"

definition request_name :: "u8 list \<Rightarrow> u8 list outcome" where
  "request_name ifname = c_strncpy (replicate IFNAMSIZ 0) ifname (IFNAMSIZ - 1)"

definition usage :: "u8 list list \<Rightarrow> run_result outcome" where
  "usage argv = (case argv of
     [] \<Rightarrow> Inl BadRead
   | prog # _ \<Rightarrow> Inr \<lparr>status = Some 1, printed = ''Usage: '' @ text_of prog @ '' iface'' @ nl, frames = []\<rparr>)"

definition build_frame :: "u8 list \<Rightarrow> u8 list \<Rightarrow> (u8 list \<times> nat) outcome" where
  "build_frame mac data =
     (let buffer = replicate RAW_BUFFER_SIZE 0; frame_len = 0
      in seqE (mem_write buffer 0 dest_mac) (\<lambda>buffer.
         let frame_len = frame_len + MAC_ADDR_LEN
         in seqE (mem_block mac 0 MAC_ADDR_LEN) (\<lambda>src.
         seqE (mem_write buffer frame_len src) (\<lambda>buffer.
         let frame_len = frame_len + MAC_ADDR_LEN
         in seqE (mem_write buffer frame_len (st16 (htons ETHERTYPE))) (\<lambda>buffer.
         let frame_len = frame_len + 2
         in seqE (c_strlen data) (\<lambda>n.
         seqE (mem_block data 0 n) (\<lambda>d.
         seqE (mem_write buffer frame_len d) (\<lambda>buffer.
           Inr (buffer, frame_len + (n + 1))))))))))"

definition sender_main :: "sender_env \<Rightarrow> u8 list list \<Rightarrow> run_result outcome" where
  "sender_main env argv =
     (if length argv \<noteq> 2 then usage argv
      else seqE (c_strcpy (m_ifname env) (argv ! 1 @ [0])) (\<lambda>ifname.
        if m_socket env = - 1 then Inl (ExitFailure ''socket'')
        else seqE (request_name ifname) (\<lambda>ifr_name.
          if fst (m_ifindex env ifr_name) < 0 then Inl (ExitFailure ''SIOCGIFINDEX'')
          else if fst (m_hwaddr env ifr_name) < 0 then Inl (ExitFailure ''SIOCGIFHWADDR'')
          else seqE (scan_line (m_stdin env) (m_data env)) (\<lambda>data.
            seqE (build_frame (snd (m_hwaddr env ifr_name)) data) (\<lambda>(buffer, frame_len).
            seqE (mem_block buffer 0 frame_len) (\<lambda>f.
              if m_sendto env (snd (m_ifindex env ifr_name)) dest_mac f < 0
              then Inr \<lparr>status = Some 1, printed = ''Digite a mensagem: '', frames = []\<rparr>
              else Inr \<lparr>status = Some 0,
                printed = ''Digite a mensagem: '' @ ''Pacote enviado.'' @ nl,
                frames = [f]\<rparr>))))))"

section \<open>The receiving socket\<close>

record recv_sock =
  p_socket :: int
  p_ifindex :: "u8 list \<Rightarrow> int"
  p_flags :: "u8 list \<Rightarrow> int \<times> u16"
  p_setflags :: "u8 list \<Rightarrow> u16 \<Rightarrow> int"
  p_ifname :: "u8 list"
  p_ifr_name :: "u8 list"

text \<open>
  Lines 26 to 53 of \<open>receptor.c\<close>, up to the text \<open>Esperando pacotes\<close>;
  \<open>raw_eth_recv.c\<close> has the same statements but prints nothing when
  \<open>socket\<close> fails.
\<close>

definition promisc_socket :: "string \<Rightarrow> recv_sock \<Rightarrow> u8 list \<Rightarrow> int outcome" where
  "promisc_socket msg env arg =
     seqE (c_strcpy (p_ifname env) (arg @ [0])) (\<lambda>ifname.
     if p_socket env < 0 then Inl (ExitFailure msg)
     else seqE (c_strcpy (p_ifr_name env) ifname) (\<lambda>ifr_name.
       if p_ifindex env ifr_name < 0 then Inl (ExitFailure ''ioctl'')
       else if fst (p_flags env ifr_name) < 0 then Inl (ExitFailure ''ioctl'')
       else if p_setflags env ifr_name (snd (p_flags env ifr_name) OR IFF_PROMISC) < 0
       then Inl (ExitFailure ''ioctl'')
       else Inr (p_socket env)))"

section \<open>The receptor\<close>

definition mac_line :: "u8 list \<Rightarrow> string" where
  "mac_line = print_sep (\<lambda>b. hex_pad 2 (unat b)) (CHR '':'') (CHR 0x0A)"

definition header_text :: "u8 list \<Rightarrow> u8 list \<Rightarrow> u16 \<Rightarrow> string" where
  "header_text dst src ty =
     ''MAC destino: '' @ mac_line dst @ ''MAC origem:  '' @ mac_line src @
     ''EtherType: 0x'' @ hex_pad 4 (unat ty) @ nl"

text \<open>What one round prints for the bytes in the buffer.\<close>

definition show_frame :: "u8 list \<Rightarrow> string outcome" where
  "show_frame buffer =
     seqE (mem_block buffer 0 6) (\<lambda>mac_dst.
     seqE (mem_block buffer 6 6) (\<lambda>mac_src.
     seqE (mem_block buffer 12 2) (\<lambda>ty.
     let ethertype = ntohs (ld16 ty)
     in if ethertype = ETHERTYPE
        then seqE (c_string (drop 14 buffer)) (\<lambda>data.
          Inr (header_text mac_dst mac_src ethertype @ ''Dado: '' @ text_of data @ nl @ nl))
        else Inr '''')))"

text \<open>
  The loop over what \<open>recv\<close> gives: it ends with status 1 when \<open>recv\<close>
  fails and waits for the next frame otherwise.
\<close>

fun receptor_loop :: "recv_event list \<Rightarrow> u8 list \<Rightarrow> string \<Rightarrow> run_result outcome" where
  "receptor_loop [] buffer out = Inr \<lparr>status = None, printed = out, frames = []\<rparr>"
| "receptor_loop (RecvFailed # es) buffer out = Inr \<lparr>status = Some 1, printed = out, frames = []\<rparr>"
| "receptor_loop (Recv bs # es) buffer out =
     (let buffer = recv_into RAW_BUFFER_SIZE bs buffer
      in seqE (show_frame buffer) (\<lambda>txt. receptor_loop es buffer (out @ txt)))"

definition receptor_main ::
  "recv_sock \<Rightarrow> u8 list \<Rightarrow> recv_event list \<Rightarrow> u8 list list \<Rightarrow> run_result outcome" where
  "receptor_main env buffer es argv =
     (if length argv \<noteq> 2 then usage argv
      else seqE (promisc_socket ''socket'' env (argv ! 1)) (\<lambda>fd.
        receptor_loop es buffer (''Esperando pacotes ... '' @ nl)))"

section \<open>What the sender sends\<close>

definition message_frame :: "u8 list \<Rightarrow> u8 list \<Rightarrow> u8 list" where
  "message_frame mac msg = dest_mac @ take 6 mac @ st16 (htons ETHERTYPE) @ msg @ [0]"

definition if_request :: "u8 list \<Rightarrow> u8 list" where
  "if_request arg = arg @ replicate (IFNAMSIZ - length arg) 0"

definition sender_ok :: "sender_env \<Rightarrow> u8 list \<Rightarrow> bool" where
  "sender_ok env arg \<longleftrightarrow> 0 \<notin> set arg \<and> length arg < IFNAMSIZ \<and> length (m_ifname env) = IFNAMSIZ \<and>
     length (m_data env) = MAX_DATA_SIZE \<and> m_socket env \<noteq> - 1 \<and>
     0 \<le> fst (m_ifindex env (if_request arg)) \<and> 0 \<le> fst (m_hwaddr env (if_request arg)) \<and>
     6 \<le> length (snd (m_hwaddr env (if_request arg)))"

lemma request_name_arg:
  assumes "0 \<notin> set arg" and "length arg < IFNAMSIZ"
  shows "request_name (arg @ 0 # r) = Inr (if_request arg)"
proof -
  have "takeWhile (\<lambda>b. b \<noteq> 0) (arg @ 0 # r) = arg"
    using assms(1) by (subst takeWhile_append2) auto
  moreover have "length arg \<le> 15" using assms(2) by (simp add: c_consts)
  then have "16 - length arg = Suc (15 - length arg)" by linarith
  then have "replicate (15 - length arg) 0 @ [0 :: u8] = replicate (16 - length arg) 0"
    by (simp add: replicate_append_same)
  ultimately show ?thesis
    using assms(2) by (simp add: request_name_def c_strncpy_def mem_write_def if_request_def c_consts)
qed

lemma build_frame_header:
  assumes "6 \<le> length mac"
  shows "build_frame mac data = seqE (c_strlen data) (\<lambda>n. seqE (mem_block data 0 n) (\<lambda>d.
    seqE (mem_write ((dest_mac @ take 6 mac @ st16 (htons ETHERTYPE)) @ replicate 1586 0) 14 d)
      (\<lambda>buffer. Inr (buffer, 14 + (n + 1)))))"
proof -
  let ?z = "\<lambda>n. replicate n (0 :: u8)" and ?ty = "st16 (htons ETHERTYPE)"
  obtain src where src: "take 6 mac = src" and len: "length src = 6" "length dest_mac = 6"
    using assms by (simp add: dest_mac_def)
  have b1: "mem_write (?z 1600) 0 dest_mac = Inr (dest_mac @ ?z 1594)"
    using mem_write_front [of dest_mac "?z 1600"] len by simp
  have b2: "mem_write (dest_mac @ ?z 1594) 6 src = Inr ((dest_mac @ src) @ ?z 1588)"
    using mem_write_prefix [of src "?z 1594" dest_mac] len by simp
  have b3: "mem_write ((dest_mac @ src) @ ?z 1588) 12 ?ty = Inr ((dest_mac @ src @ ?ty) @ ?z 1586)"
    using mem_write_prefix [of ?ty "?z 1588" "dest_mac @ src"] len by (simp del: n16.store_hton)
  have mac: "mem_block mac 0 6 = Inr src" using assms src by (simp add: mem_block_def)
  show ?thesis
    using b1 b2 b3 mac src
    by (simp add: build_frame_def RAW_BUFFER_SIZE_def MAC_ADDR_LEN_def del: n16.store_hton)
qed

lemma build_frame_message:
  assumes "6 \<le> length mac" and "0 \<notin> set msg" and "length msg \<le> 1500"
  shows "build_frame mac (msg @ 0 # r) =
    Inr (message_frame mac msg @ replicate (1585 - length msg) 0, length (message_frame mac msg))"
proof -
  let ?hdr = "dest_mac @ take 6 mac @ st16 (htons ETHERTYPE)"
  have "1586 - length msg = Suc (1585 - length msg)" using assms(3) by linarith
  then obtain k where k: "1586 - length msg = Suc k" "1585 - length msg = k" by blast
  have hdr: "length ?hdr = 14" using assms(1) by (simp add: dest_mac_def)
  have "mem_write (?hdr @ replicate 1586 0) 14 msg = Inr (?hdr @ msg @ replicate (Suc k) 0)"
    using mem_write_prefix [of msg "replicate 1586 0" ?hdr] assms(3) hdr k(1) by simp
  moreover have "mem_block (msg @ 0 # r) 0 (length msg) = Inr msg" by (simp add: mem_block_def)
  moreover have "length (message_frame mac msg) = 15 + length msg"
    using assms(1) by (simp add: message_frame_def dest_mac_def)
  ultimately show ?thesis
    using c_strlen_terminated [OF assms(2), of r] k(2)
    by (simp add: build_frame_header [OF assms(1)] message_frame_def del: n16.store_hton)
qed

text \<open>The set-up of the sender, and what it does once the line is stored in \<open>data\<close>.\<close>

definition send_line :: "sender_env \<Rightarrow> u8 list \<Rightarrow> u8 list \<Rightarrow> run_result" where
  "send_line env arg msg =
     (let f = message_frame (snd (m_hwaddr env (if_request arg))) msg
      in if m_sendto env (snd (m_ifindex env (if_request arg))) dest_mac f < 0
         then \<lparr>status = Some 1, printed = ''Digite a mensagem: '', frames = []\<rparr>
         else \<lparr>status = Some 0, printed = ''Digite a mensagem: Pacote enviado.'' @ nl, frames = [f]\<rparr>)"

lemma sender_setup:
  assumes "sender_ok env arg"
  shows "sender_main env [prog, arg] = seqE (scan_line (m_stdin env) (m_data env)) (\<lambda>data.
    seqE (build_frame (snd (m_hwaddr env (if_request arg))) data) (\<lambda>(buffer, frame_len).
    seqE (mem_block buffer 0 frame_len) (\<lambda>f.
      if m_sendto env (snd (m_ifindex env (if_request arg))) dest_mac f < 0
      then Inr \<lparr>status = Some 1, printed = ''Digite a mensagem: '', frames = []\<rparr>
      else Inr \<lparr>status = Some 0, printed = ''Digite a mensagem: '' @ ''Pacote enviado.'' @ nl,
        frames = [f]\<rparr>)))"
proof -
  have "c_strcpy (m_ifname env) (arg @ [0]) = Inr (arg @ 0 # drop (length arg + 1) (m_ifname env))"
    by (rule c_strcpy_ok) (use assms in \<open>auto simp: sender_ok_def\<close>)
  then show ?thesis
    using assms request_name_arg [of arg] by (simp add: sender_main_def sender_ok_def not_less [symmetric])
qed

lemma send_stored:
  assumes "sender_ok env arg" and "scan_line (m_stdin env) (m_data env) = Inr (msg @ 0 # r)"
    and "0 \<notin> set msg" and "length msg \<le> 1500"
  shows "sender_main env [prog, arg] = Inr (send_line env arg msg)"
proof -
  let ?mac = "snd (m_hwaddr env (if_request arg))"
  have "6 \<le> length ?mac" using assms(1) by (simp add: sender_ok_def if_request_def Let_def)
  from build_frame_message [OF this assms(3,4), of r] show ?thesis
    by (simp add: sender_setup [OF assms(1)] assms(2) mem_block_def send_line_def Let_def)
qed

lemma scan_line_stored:
  assumes "line = takeWhile (\<lambda>b. b \<noteq> 10) inp" and "line \<noteq> []"
  shows "scan_line inp buf =
    (if length line < length buf then Inr (line @ 0 # drop (length line + 1) buf) else Inl BadWrite)"
  using assms by (simp add: scan_line_def mem_write_def Let_def)

text \<open>
  A line typed at the prompt, of at most 1499 characters and without a zero byte, is sent as one
  broadcast frame: the sender's hardware address, the type 0x0FFF in network order, the line
  and a zero byte. When \<open>sendto\<close> fails nothing is sent and the status is 1.
\<close>

lemma sender_sends_line:
  assumes "sender_ok env arg" and "line = takeWhile (\<lambda>b. b \<noteq> 10) (m_stdin env)" and "line \<noteq> []"
    and "0 \<notin> set line" and "length line < MAX_DATA_SIZE"
  shows "sender_main env [prog, arg] = Inr (send_line env arg line)"
proof (rule send_stored [OF assms(1) _ assms(4)])
  show "scan_line (m_stdin env) (m_data env) = Inr (line @ 0 # drop (length line + 1) (m_data env))"
    using assms(1,5) scan_line_stored [OF assms(2,3)] by (simp add: sender_ok_def)
qed (use assms(5) in \<open>simp add: c_consts\<close>)

text \<open>
  C37. The bounds of the line are not checked: one of 1500 characters or more is written behind
  the array \<open>data\<close>, and for an empty line the bytes that happen to lie in
  \<open>data\<close> are sent, up to the first zero byte; when there is none,
  \<open>strlen\<close> reads behind the array.
\<close>

theorem sender_line_unchecked:
  assumes "sender_ok env arg" and "line = takeWhile (\<lambda>b. b \<noteq> 10) (m_stdin env)"
  shows "(MAX_DATA_SIZE \<le> length line \<longrightarrow> sender_main env [prog, arg] = Inl BadWrite) \<and>
    (line = [] \<longrightarrow> sender_main env [prog, arg] =
      seqE (c_string (m_data env)) (\<lambda>stale. Inr (send_line env arg stale)))"
proof (intro conjI impI)
  assume "MAX_DATA_SIZE \<le> length line"
  moreover from this have "line \<noteq> []" by (auto simp: c_consts)
  ultimately show "sender_main env [prog, arg] = Inl BadWrite"
    using assms(1) scan_line_stored [OF assms(2)] sender_setup [OF assms(1)]
    by (simp add: sender_ok_def)
next
  assume "line = []"
  then have keep: "scan_line (m_stdin env) (m_data env) = Inr (m_data env)"
    using assms(2) by (simp add: scan_line_def Let_def)
  show "sender_main env [prog, arg] =
      seqE (c_string (m_data env)) (\<lambda>stale. Inr (send_line env arg stale))"
  proof (cases "c_string (m_data env)")
    case (Inl e)
    then have "c_strlen (m_data env) = Inl e" by (auto simp: c_string_def seqE_eq_Inl)
    then show ?thesis
      using assms(1) Inl keep
      by (simp add: sender_setup [OF assms(1)] build_frame_header sender_ok_def)
  next
    case (Inr stale)
    then obtain r where r: "m_data env = stale @ 0 # r" "0 \<notin> set stale"
      using c_string_take by blast
    have "length (m_data env) = 1500" using assms(1) by (simp add: sender_ok_def c_consts)
    then have "length stale \<le> 1500" using arg_cong [OF r(1), of length] by simp
    then show ?thesis
      using send_stored [OF assms(1) _ r(2)] keep r(1) Inr by simp
  qed
qed

section \<open>What the receptor shows\<close>

lemma show_frame_typed:
  assumes "length dst = 6" and "length src = 6"
  shows "show_frame (dst @ src @ st16 (htons ty) @ body) =
    (if ty = ETHERTYPE then seqE (c_string body) (\<lambda>d.
       Inr (header_text dst src ETHERTYPE @ ''Dado: '' @ text_of d @ nl @ nl))
     else Inr '''')"
proof -
  let ?m = "dst @ src @ st16 (htons ty) @ body"
  have "mem_block ?m 0 6 = Inr dst" "mem_block ?m 6 6 = Inr src"
      "mem_block ?m 12 2 = Inr (st16 (htons ty))" "drop 14 ?m = body"
    using assms by (simp_all add: mem_block_def del: n16.store_hton)
  then show ?thesis by (simp add: show_frame_def assms del: n16.store_hton)
qed

text \<open>
  The receptor shows exactly the frames of type 0x0FFF. It does not use the length
  \<open>recv\<close> gives: when no zero byte ends the payload, the bytes an earlier frame left
  in the buffer are printed behind it, up to their first zero byte; when there is none,
  \<open>printf\<close> reads behind the buffer.
\<close>

lemma receptor_shows_stale_bytes:
  assumes "f = dst @ src @ st16 (htons ty) @ payload" and "length dst = 6" and "length src = 6"
    and "length f \<le> RAW_BUFFER_SIZE" and "0 \<notin> set payload"
  shows "receptor_loop (Recv f # es) buffer out =
    (if ty = ETHERTYPE
     then seqE (c_string (drop (length f) buffer)) (\<lambda>stale.
       receptor_loop es (f @ drop (length f) buffer)
         (out @ header_text dst src ETHERTYPE @ ''Dado: '' @ text_of (payload @ stale) @ nl @ nl))
     else receptor_loop es (f @ drop (length f) buffer) out)"
proof -
  have "show_frame (f @ drop (length f) buffer) =
      (if ty = ETHERTYPE then seqE (c_string (drop (length f) buffer)) (\<lambda>d.
         Inr (header_text dst src ETHERTYPE @ ''Dado: '' @ text_of (payload @ d) @ nl @ nl))
       else Inr '''')"
    using show_frame_typed [OF assms(2,3), of ty "payload @ drop (length f) buffer"]
    by (simp add: assms(1) c_string_append [OF assms(5)] seqE_assoc del: n16.store_hton)
  then show ?thesis
    by (simp add: recv_into_short [OF assms(4)] seqE_assoc)
qed

text \<open>
  C21. From the keyboard to the other printed: the line typed at the sender is what the receptor
  shows, with the sender's hardware address, whatever it received before; and when the sender
  ends with status 1 there is nothing to show.
\<close>

theorem message_delivered:
  assumes "sender_ok env arg" and "line = takeWhile (\<lambda>b. b \<noteq> 10) (m_stdin env)" and "line \<noteq> []"
    and "0 \<notin> set line" and "length line < MAX_DATA_SIZE" and "length buffer = RAW_BUFFER_SIZE"
  shows "\<exists>r buffer'. sender_main env [prog, arg] = Inr r \<and> length buffer' = RAW_BUFFER_SIZE \<and>
    receptor_loop (map Recv (frames r) @ es) buffer out = receptor_loop es buffer'
      (if status r = Some 0
       then out @ header_text dest_mac (take 6 (snd (m_hwaddr env (if_request arg)))) ETHERTYPE @
         ''Dado: '' @ text_of line @ nl @ nl
       else out)"
proof -
  let ?mac = "take 6 (snd (m_hwaddr env (if_request arg)))"
  let ?f = "message_frame (snd (m_hwaddr env (if_request arg))) line"
  let ?r = "send_line env arg line" and ?b = "recv_into RAW_BUFFER_SIZE ?f buffer"
  have len: "length dest_mac = 6" "length ?mac = 6"
    using assms(1) by (simp_all add: dest_mac_def sender_ok_def)
  have sent: "sender_main env [prog, arg] = Inr ?r"
    by (rule send_stored [OF assms(1) _ assms(4)])
      (use assms scan_line_stored [OF assms(2,3)] in \<open>simp_all add: sender_ok_def c_consts\<close>)
  have fit: "length ?f \<le> RAW_BUFFER_SIZE"
    using len assms(5) by (simp add: message_frame_def MAX_DATA_SIZE_def RAW_BUFFER_SIZE_def)
  then have "?b = dest_mac @ ?mac @ st16 (htons ETHERTYPE) @ line @ 0 # drop (length ?f) buffer"
    unfolding recv_into_short [OF fit]
    by (simp add: message_frame_def del: n16.store_hton)
  then have shown: "show_frame ?b =
      Inr (header_text dest_mac ?mac ETHERTYPE @ ''Dado: '' @ text_of line @ nl @ nl)"
    using show_frame_typed [OF len, of ETHERTYPE] c_string_terminated [OF assms(4)]
    by (simp del: n16.store_hton)
  have lb: "length ?b = RAW_BUFFER_SIZE" using assms(6) by (simp add: length_recv_into)
  show ?thesis
  proof (cases "m_sendto env (snd (m_ifindex env (if_request arg))) dest_mac ?f < 0")
    case True
    then show ?thesis
      using sent assms(6) by (intro exI [of _ ?r] exI [of _ buffer]) (simp add: send_line_def)
  next
    case False
    then show ?thesis
      using sent lb shown by (intro exI [of _ ?r] exI [of _ ?b]) (simp add: send_line_def)
  qed
qed

section \<open>Instances\<close>

definition sample_env :: "u8 list \<Rightarrow> sender_env" where
  "sample_env inp = \<lparr>m_socket = 3, m_ifindex = (\<lambda>n. (0, 2)), m_hwaddr = (\<lambda>n. (0, replicate 14 7)),
     m_sendto = (\<lambda>i a f. int (length f)), m_stdin = inp, m_ifname = replicate 16 0,
     m_data = replicate 1499 88 @ [0]\<rparr>"

lemma sample_env_ok: "sender_ok (sample_env inp) [101, 116, 104, 48]"
  by (simp add: sender_ok_def sample_env_def c_consts)

lemma sample_env_sel [simp]:
  "m_stdin (sample_env inp) = inp" "m_data (sample_env inp) = replicate 1499 88 @ [0]"
  "m_hwaddr (sample_env inp) = (\<lambda>n. (0, replicate 14 7))" "m_sendto (sample_env inp) i a f = int (length f)"
  by (simp_all add: sample_env_def)

lemma sender_sends_line_witness:
  "\<exists>r. sender_main (sample_env [111, 108, 97, 10, 120]) [[115], [101, 116, 104, 48]] = Inr r \<and>
     frames r = [message_frame (replicate 14 7) [111, 108, 97]]"
  using sender_sends_line [OF sample_env_ok refl, of "[111, 108, 97, 10, 120]" "[115]"]
  by (simp add: send_line_def c_consts)

theorem sender_line_unchecked_witness:
  "sender_main (sample_env (replicate 1500 97)) [[115], [101, 116, 104, 48]] = Inl BadWrite \<and>
   (\<exists>r. sender_main (sample_env []) [[115], [101, 116, 104, 48]] = Inr r \<and>
     frames r = [message_frame (replicate 14 7) (replicate 1499 88)])"
proof -
  have "c_string (m_data (sample_env [])) = Inr (replicate 1499 88)"
    by (simp add: c_string_terminated)
  then show ?thesis
    using sender_line_unchecked [OF sample_env_ok refl, of "replicate 1500 97" "[115]"]
      sender_line_unchecked [OF sample_env_ok refl, of "[]" "[115]"]
    by (simp add: send_line_def MAX_DATA_SIZE_def)
qed

lemma receptor_shows_stale_bytes_witness:
  "\<exists>r. receptor_loop [Recv (replicate 6 255 @ replicate 6 1 @ st16 (htons ETHERTYPE) @ [97])]
     (replicate 15 0 @ [98, 99, 0]) [] = Inr r \<and>
     printed r = header_text (replicate 6 255) (replicate 6 1) ETHERTYPE @ ''Dado: '' @ text_of [97, 98, 99] @ nl @ nl"
proof -
  have "c_string [98, 99, 0] = Inr [98, 99]" by (simp add: c_string_def)
  then show ?thesis
    using receptor_shows_stale_bytes [OF refl, of "replicate 6 255" "replicate 6 1" ETHERTYPE "[97]"
      "[]" "replicate 15 0 @ [98, 99, 0]" "[]"]
    by (simp add: RAW_BUFFER_SIZE_def del: n16.store_hton receptor_loop.simps(3))
qed

theorem message_delivered_witness:
  "\<exists>r. receptor_loop (map Recv [message_frame (replicate 14 7) [111, 108, 97]]) (replicate 1600 9) [] = Inr r \<and>
     printed r = header_text dest_mac (replicate 6 7) ETHERTYPE @ ''Dado: '' @ text_of [111, 108, 97] @ nl @ nl"
proof -
  let ?main = "sender_main (sample_env [111, 108, 97]) [[115], [101, 116, 104, 48]]"
  note d = message_delivered [OF sample_env_ok refl, of "[111, 108, 97]" "replicate 1600 9" "[115]"
      "[]" "[]"]
  obtain r b where "?main = Inr r" "receptor_loop (map Recv (frames r)) (replicate 1600 9) [] =
      receptor_loop [] b (if status r = Some 0 then header_text dest_mac (replicate 6 7) ETHERTYPE @
         ''Dado: '' @ text_of [111, 108, 97] @ nl @ nl else [])"
    using d by (simp add: MAX_DATA_SIZE_def RAW_BUFFER_SIZE_def del: receptor_loop.simps cong: if_cong) blast
  moreover have "?main = Inr (send_line (sample_env [111, 108, 97]) [101, 116, 104, 48] [111, 108, 97])"
    by (rule send_stored [OF sample_env_ok, of _ _ "drop 4 (m_data (sample_env []))"])
      (simp_all add: scan_line_def mem_write_def)
  ultimately show ?thesis by (auto simp: send_line_def simp del: receptor_loop.simps(3))
qed

end
