(* ===== verification/Raw_Arp.thy ===== *)
theory Raw_Arp
  imports Raw_Message Arp_Package "HOL-Library.Sublist"
begin

text \<open>
  The program handed out that shows ARP packages, \<open>raw_eth_recv.c\<close> of
  \<open>T1/Specification&InitialSource/\<close>. The struct \<open>arphdr\<close> is a record of
  its five fields, 8 bytes without padding. The socket is set up as in \<open>receptor.c\<close>,
  without a message when \<open>socket\<close> fails.
\<close>

section \<open>The program\<close>

definition RECV_BUFFER_SIZE :: nat where [c_consts]: "RECV_BUFFER_SIZE = 1500"
definition ETH_P_ARP :: u16 where [c_consts]: "ETH_P_ARP = 0x0806"
definition RAW_ARPOP_REQUEST :: u16 where [c_consts]: "RAW_ARPOP_REQUEST = 1"
definition RAW_ARPOP_REPLY :: u16 where [c_consts]: "RAW_ARPOP_REPLY = 2"

record arphdr =
  ar_hrd :: u16
  ar_pro :: u16
  ar_hln :: u8
  ar_pln :: u8
  ar_op :: u16

definition arphdr_of :: "u8 list \<Rightarrow> arphdr" where
  "arphdr_of b = \<lparr>ar_hrd = ld16 (take 2 b), ar_pro = ld16 (take 2 (drop 2 b)), ar_hln = b ! 4,
     ar_pln = b ! 5, ar_op = ld16 (take 2 (drop 6 b))\<rparr>"

definition opcode_text :: "u16 \<Rightarrow> string" where
  "opcode_text op =
     (if op = RAW_ARPOP_REQUEST then ''Arp request'' @ nl
      else if op = RAW_ARPOP_REPLY then ''Arp reply'' @ nl
      else ''Untreated ARP Opcode: '' @ hex_str (unat op))"

definition arphdr_text :: "arphdr \<Rightarrow> string" where
  "arphdr_text h =
     ''HW type: '' @ dec_str (unat (ar_hrd h)) @ nl @
     ''Protocol Type: '' @ dec_str (unat (ar_pro h)) @ nl @
     ''HLEN: '' @ dec_str (unat (ar_hln h)) @ nl @
     ''DLEN: '' @ dec_str (unat (ar_pln h)) @ nl @
     ''ARP Opcode: '' @ dec_str (unat (ar_op h)) @ nl @
     opcode_text (ar_op h) @ nl"

definition show_arp :: "u8 list \<Rightarrow> string outcome" where
  "show_arp buffer =
     seqE (mem_block buffer 0 6) (\<lambda>mac_dst.
     seqE (mem_block buffer 6 6) (\<lambda>mac_src.
     seqE (mem_block buffer 12 2) (\<lambda>ty.
     let ethertype = ntohs (ld16 ty)
     in if ethertype = ETH_P_ARP
        then seqE (mem_block buffer 14 8) (\<lambda>b.
          let arpHeader = arphdr_of b;
              arpHeader = arpHeader\<lparr>ar_op := ntohs (ar_op arpHeader)\<rparr>;
              arpHeader = arpHeader\<lparr>ar_hrd := ntohs (ar_hrd arpHeader)\<rparr>;
              arpHeader = arpHeader\<lparr>ar_pro := ntohs (ar_pro arpHeader)\<rparr>
          in Inr (header_text mac_dst mac_src ethertype @ arphdr_text arpHeader))
        else Inr '''')))"

fun raw_eth_recv_loop :: "recv_event list \<Rightarrow> u8 list \<Rightarrow> string \<Rightarrow> run_result outcome" where
  "raw_eth_recv_loop [] buffer out = Inr \<lparr>status = None, printed = out, frames = []\<rparr>"
| "raw_eth_recv_loop (RecvFailed # es) buffer out =
     Inr \<lparr>status = Some 1, printed = out, frames = []\<rparr>"
| "raw_eth_recv_loop (Recv bs # es) buffer out =
     (let buffer = recv_into RECV_BUFFER_SIZE bs buffer
      in seqE (show_arp buffer) (\<lambda>txt. raw_eth_recv_loop es buffer (out @ txt)))"

definition raw_eth_recv_main ::
  "recv_sock \<Rightarrow> u8 list \<Rightarrow> recv_event list \<Rightarrow> u8 list list \<Rightarrow> run_result outcome" where
  "raw_eth_recv_main env buffer es argv =
     (if length argv \<noteq> 2 then usage argv
      else seqE (promisc_socket '''' env (argv ! 1)) (\<lambda>fd.
        raw_eth_recv_loop es buffer (''Esperando pacotes ... '' @ nl)))"

section \<open>The set-up of a receiving program\<close>

definition promisc_ok :: "recv_sock \<Rightarrow> u8 list \<Rightarrow> bool" where
  "promisc_ok env arg \<longleftrightarrow> 0 \<le> p_socket env \<and>
     (let name = arg @ 0 # drop (length arg + 1) (p_ifr_name env)
      in 0 \<le> p_ifindex env name \<and> 0 \<le> fst (p_flags env name) \<and>
         0 \<le> p_setflags env name (snd (p_flags env name) OR IFF_PROMISC))"

lemma promisc_socket_result:
  assumes "0 \<notin> set arg" and "length arg < IFNAMSIZ" and "length (p_ifname env) = IFNAMSIZ"
    and "length (p_ifr_name env) = IFNAMSIZ"
  shows "promisc_socket msg env arg =
    (if p_socket env < 0 then Inl (ExitFailure msg)
     else if promisc_ok env arg then Inr (p_socket env) else Inl (ExitFailure ''ioctl''))"
proof -
  let ?n = "arg @ 0 # drop (length arg + 1) (p_ifname env)"
  have "c_strcpy (p_ifname env) (arg @ [0]) = Inr ?n"
    by (rule c_strcpy_ok) (use assms in auto)
  moreover have "c_strcpy (p_ifr_name env) ?n = Inr (arg @ 0 # drop (length arg + 1) (p_ifr_name env))"
    by (rule c_strcpy_ok) (use assms in auto)
  ultimately show ?thesis by (auto simp: promisc_socket_def promisc_ok_def Let_def)
qed

text \<open>
  The two receiving programs start in the same way: with an interface name that fits, each of
  them runs its loop exactly when the socket exists and the three \<open>ioctl\<close> calls
  succeed, and otherwise ends before it receives anything; without exactly one argument it prints
  the usage and returns 1.
\<close>

lemma receivers_start:
  assumes "0 \<notin> set arg" and "length arg < IFNAMSIZ" and "length (p_ifname env) = IFNAMSIZ"
    and "length (p_ifr_name env) = IFNAMSIZ"
  shows "receptor_main env buffer es [prog, arg] =
      (if promisc_ok env arg then receptor_loop es buffer (''Esperando pacotes ... '' @ nl)
       else Inl (ExitFailure (if p_socket env < 0 then ''socket'' else ''ioctl''))) \<and>
    raw_eth_recv_main env buffer es [prog, arg] =
      (if promisc_ok env arg then raw_eth_recv_loop es buffer (''Esperando pacotes ... '' @ nl)
       else Inl (ExitFailure (if p_socket env < 0 then '''' else ''ioctl''))) \<and>
    (\<forall>argv. length argv \<noteq> 2 \<longrightarrow>
      receptor_main env buffer es argv = usage argv \<and> raw_eth_recv_main env buffer es argv = usage argv)"
  using promisc_socket_result [OF assms]
  by (auto simp: receptor_main_def raw_eth_recv_main_def promisc_ok_def)

section \<open>What is shown\<close>

lemma show_arp_typed:
  assumes "length dst = 6" and "length src = 6" and "length b = 8"
  shows "show_arp (dst @ src @ st16 (htons ty) @ b @ r) =
    Inr (if ty = ETH_P_ARP
      then header_text dst src ETH_P_ARP @
        arphdr_text \<lparr>ar_hrd = ntohs (ld16 (take 2 b)), ar_pro = ntohs (ld16 (take 2 (drop 2 b))),
          ar_hln = b ! 4, ar_pln = b ! 5, ar_op = ntohs (ld16 (take 2 (drop 6 b)))\<rparr>
      else '''')"
proof -
  let ?m = "dst @ src @ st16 (htons ty) @ b @ r"
  have "mem_block ?m 0 6 = Inr dst" "mem_block ?m 6 6 = Inr src"
      "mem_block ?m 12 2 = Inr (st16 (htons ty))" "mem_block ?m 14 8 = Inr b"
    using assms by (simp_all add: mem_block_def del: n16.store_hton)
  then show ?thesis
    by (cases "ty = ETH_P_ARP") (simp_all add: show_arp_def arphdr_of_def Let_def del: n16.store_hton)
qed

lemma raw_recv_arp:
  assumes "wf_arp p" and "length dst = 6" and "length src = 6" and "length r \<le> 1458"
    and "f = eth_frame dst src ty (arp_bytes (htonArpPackage p) @ r)"
  shows "raw_eth_recv_loop (Recv f # es) buffer out =
    raw_eth_recv_loop es (f @ drop (length f) buffer)
      (if ty = ETH_P_ARP
       then out @ header_text dst src ETH_P_ARP @
         arphdr_text \<lparr>ar_hrd = hardwareType p, ar_pro = protocolType p, ar_hln = hardwareLength p,
           ar_pln = protocolLength p, ar_op = operation p\<rparr>
       else out)"
proof -
  let ?q = "htonArpPackage p"
  let ?b = "st16 (hardwareType ?q) @ st16 (protocolType ?q) @ [hardwareLength ?q] @
      [protocolLength ?q] @ st16 (operation ?q)"
  let ?r = "senderMacAddress p @ senderIpAddress p @ targetMacAddress p @ targetIpAddress p @ r"
  have f: "f = dst @ src @ st16 (htons ty) @ ?b @ ?r"
    by (simp add: assms(5) eth_frame_def arp_bytes_def htonArpPackage_def del: n16.store_hton)
  have "length (arp_bytes ?q) = 28" using assms(1) length_arp_bytes [of ?q] by (simp add: c_consts)
  then have fit: "length f \<le> RECV_BUFFER_SIZE"
    using assms(2-4) by (simp add: assms(5) eth_frame_def RECV_BUFFER_SIZE_def del: n16.store_hton)
  have "show_arp (f @ drop (length f) buffer) = Inr (if ty = ETH_P_ARP
      then header_text dst src ETH_P_ARP @
        arphdr_text \<lparr>ar_hrd = hardwareType p, ar_pro = protocolType p, ar_hln = hardwareLength p,
           ar_pln = protocolLength p, ar_op = operation p\<rparr> else '''')"
    using show_arp_typed [OF assms(2,3), of ?b ty "?r @ drop (length f) buffer"]
    by (simp add: f htonArpPackage_def nth_append del: n16.store_hton)
  then show ?thesis by (simp add: recv_into_short [OF fit])
qed

lemma show_arp_total:
  assumes "22 \<le> length m"
  shows "\<exists>txt. show_arp m = Inr txt"
  using assms by (simp add: show_arp_def mem_block_def Let_def)

text \<open>
  Unlike the receptor, the program reads no byte outside its buffer, whatever it receives: it
  prints and waits for the next frame, and ends with status 1 exactly when \<open>recv\<close>
  fails. The fields of a frame shorter than 22 bytes are those of an earlier frame.
\<close>

lemma raw_recv_never_faults:
  assumes "length buffer = RECV_BUFFER_SIZE"
  shows "\<exists>r. raw_eth_recv_loop es buffer out = Inr r \<and> prefix out (printed r) \<and>
    status r = (if RecvFailed \<in> set es then Some 1 else None)"
  using assms
proof (induction es arbitrary: buffer out)
  case (Cons e es)
  show ?case
  proof (cases e)
    case (Recv bs)
    let ?b = "recv_into RECV_BUFFER_SIZE bs buffer"
    have len: "length ?b = RECV_BUFFER_SIZE" using Cons.prems by (simp add: length_recv_into)
    obtain t where t: "show_arp ?b = Inr t"
      using show_arp_total [of ?b] len by (auto simp: c_consts)
    obtain r where "raw_eth_recv_loop es ?b (out @ t) = Inr r" "prefix (out @ t) (printed r)"
        "status r = (if RecvFailed \<in> set es then Some 1 else None)"
      using Cons.IH [OF len] by blast
    then show ?thesis using t Recv by (auto dest: append_prefixD)
  qed simp
qed simp

text \<open>
  C31. The two programs that watch for ARP packages disagree. For a frame that holds a package,
  \<open>raw_eth_recv\<close> prints the values of its header, the operation by name when it is a
  request or a reply, exactly when the type is 0x0806. The sniffer thread of
  \<open>T1/Old\<close> compares the type field without converting it: it passes over every frame
  of type 0x0806 and takes those of type 0x0608 for ARP.
\<close>

theorem watchers_disagree:
  assumes "wf_arp p" and "length dst = 6" and "length src = 6" and "length r \<le> 1458"
    and "f = eth_frame dst src ty (arp_bytes (htonArpPackage p) @ r)"
  shows "raw_eth_recv_loop (Recv f # es) buffer out =
    raw_eth_recv_loop es (f @ drop (length f) buffer)
      (if ty = 0x0806
       then out @ header_text dst src 0x0806 @
         arphdr_text \<lparr>ar_hrd = hardwareType p, ar_pro = protocolType p, ar_hln = hardwareLength p,
           ar_pln = protocolLength p, ar_op = operation p\<rparr>
       else out) \<and>
    arpSnifferLoop (Recv f # es) buffer out =
      arpSnifferLoop es (f @ drop (length f) buffer)
      (if ty = 0x0608 then out @ ''Arp Package:'' @ nl @ printArpPackage p else out)"
proof (rule conjI)
  show "raw_eth_recv_loop (Recv f # es) buffer out =
    raw_eth_recv_loop es (f @ drop (length f) buffer)
      (if ty = 0x0806
       then out @ header_text dst src 0x0806 @
         arphdr_text \<lparr>ar_hrd = hardwareType p, ar_pro = protocolType p, ar_hln = hardwareLength p,
           ar_pln = protocolLength p, ar_op = operation p\<rparr>
       else out)"
    using raw_recv_arp [OF assms] by (simp add: ETH_P_ARP_def del: raw_eth_recv_loop.simps)
next
  have len: "length (arp_bytes (htonArpPackage p)) = 28"
    using assms(1) length_arp_bytes [of "htonArpPackage p"] by (simp add: c_consts)
  then have "length f \<le> BUFFER_SIZE"
    using assms(2-5) by (simp add: eth_frame_def BUFFER_SIZE_def del: n16.store_hton)
  then have buf: "store_recv f buffer = f @ drop (length f) buffer"
    by (simp add: store_recv_def recv_into_short)
  have "arpSnifferLoop (Recv f # es) buffer out =
    (if ty = 0x0608 then arpSnifferLoop es (store_recv f buffer) (out @ ''Arp Package:'' @ nl @ printArpPackage p)
     else arpSnifferLoop es (store_recv f buffer) out)"
    unfolding assms(5)
    using arp_sniffer_step [OF assms(2,3) _ _ refl, where p = "htonArpPackage p" and r = r and ty = ty
        and es = es and buffer = buffer and out = out] assms(1,4) len
    by (simp del: arpSnifferLoop.simps)
  then show "arpSnifferLoop (Recv f # es) buffer out =
      arpSnifferLoop es (f @ drop (length f) buffer)
      (if ty = 0x0608 then out @ ''Arp Package:'' @ nl @ printArpPackage p else out)"
    by (simp add: buf del: arpSnifferLoop.simps)
qed

section \<open>Instances\<close>

definition sample_recv_sock :: recv_sock where
  "sample_recv_sock = \<lparr>p_socket = 3, p_ifindex = (\<lambda>n. 0), p_flags = (\<lambda>n. (0, 0x1043)), p_setflags = (\<lambda>n f. 0),
     p_ifname = replicate 16 0, p_ifr_name = replicate 16 0\<rparr>"

lemma receivers_start_witness:
  "raw_eth_recv_main sample_recv_sock (replicate 1500 0) [] [[114], [101, 116, 104, 48]] =
     Inr \<lparr>status = None, printed = ''Esperando pacotes ... '' @ nl, frames = []\<rparr>"
  using receivers_start [of "[101, 116, 104, 48]" sample_recv_sock "replicate 1500 0" "[]" "[114]"]
  by (simp add: promisc_ok_def sample_recv_sock_def c_consts)

lemma raw_recv_never_faults_witness:
  "\<exists>r. raw_eth_recv_loop [Recv (replicate 14 0), RecvFailed] (replicate 1500 0) [] = Inr r \<and>
     status r = Some 1"
  using raw_recv_never_faults [of "replicate 1500 0" "[Recv (replicate 14 0), RecvFailed]" "[]"]
  by (auto simp: c_consts)

theorem watchers_disagree_witness:
  "arpSnifferLoop [Recv (eth_frame (replicate 6 2) (replicate 6 1) 0x0806
     (arp_bytes (htonArpPackage sample_arp) @ []))] [] [] = Inr (True, []) \<and>
   (\<exists>r. raw_eth_recv_loop [Recv (eth_frame (replicate 6 2) (replicate 6 1) 0x0806
     (arp_bytes (htonArpPackage sample_arp) @ []))] [] [] = Inr r \<and>
     printed r = header_text (replicate 6 2) (replicate 6 1) 0x0806 @
       arphdr_text \<lparr>ar_hrd = 1, ar_pro = 0x0800, ar_hln = 6, ar_pln = 4, ar_op = 2\<rparr>)"
proof -
  have "(0x0806 :: u16) \<noteq> 0x0608" by simp
  then show ?thesis
    using watchers_disagree [OF wf_sample_arp _ _ _ refl, of "replicate 6 2" "replicate 6 1" "[]" "0x0806"
      "[]" "[]" "[]"]
    by (simp add: sample_arp_def del: raw_eth_recv_loop.simps(3) arpSnifferLoop.simps(3))
qed

end
