(* ===== verification/Udp_Echo.thy ===== *)
theory Udp_Echo
  imports Net_Calls
begin

text \<open>
  The two programs of \<open>TF/UDP/\<close>, \<open>udp_client.c\<close> and
  \<open>udp_server.c\<close>. An argument is its bytes without the terminating 0.
  \<open>inet_addr\<close>, the sockets and the datagrams that arrive are parameters; so is what
  lies in \<open>echoBuffer\<close> before the first datagram. \<open>atoi\<close> reads blanks,
  a sign, and digits up to the first other character. C defines it for values an
  \<open>int\<close> can hold; for others it is here what common libraries make of it,
  \<open>strtol\<close> with its result limited to a 64-bit \<open>long\<close> and then cut to
  32 bits.
\<close>

section \<open>Numbers of the command line\<close>

definition is_digit :: "u8 \<Rightarrow> bool" where
  "is_digit b \<longleftrightarrow> 48 \<le> b \<and> b \<le> 57"

definition digits_val :: "u8 list \<Rightarrow> int" where
  "digits_val s = foldl (\<lambda>v b. v * 10 + int (unat b - 48)) 0 (takeWhile is_digit s)"

definition strtol10 :: "u8 list \<Rightarrow> int" where
  "strtol10 s =
     (let s = dropWhile (\<lambda>b. b = 32 \<or> 9 \<le> b \<and> b \<le> 13) s
      in case s of
           [] \<Rightarrow> 0
         | c # r \<Rightarrow> if c = 45 then - digits_val r else if c = 43 then digits_val r else digits_val s)"

definition atoi :: "u8 list \<Rightarrow> int" where
  "atoi s = (let v = max (- (2 ^ 63)) (min (2 ^ 63 - 1) (strtol10 s))
     in (v + 2 ^ 31) mod 2 ^ 32 - 2 ^ 31)"

section \<open>The client\<close>

definition ECHOMAX :: nat where [c_consts]: "ECHOMAX = 255"

record udp_datagram =
  to_addr :: u32
  to_port :: u16
  payload :: "u8 list"

record client_env =
  inet_addr :: "u8 list \<Rightarrow> u32"
  c_socket :: int
  c_sendto :: "udp_datagram \<Rightarrow> int"

text \<open>The exit status, the text on the standard output and the datagrams that were sent.\<close>

record client_run =
  c_status :: int
  c_out :: string
  c_sent :: "udp_datagram list"

definition client_exit :: "string \<Rightarrow> client_run" where
  "client_exit out = \<lparr>c_status = 1, c_out = out, c_sent = []\<rparr>"

definition udp_client_main :: "client_env \<Rightarrow> u8 list list \<Rightarrow> client_run outcome" where
  "udp_client_main env argv =
     (if length argv < 4 then Inr (client_exit [])
      else (let servIP = argv ! 1; echoServPort = (word_of_int (atoi (argv ! 2)) :: u16);
            echoString = argv ! 3 @ [0]
        in seqE (c_strlen echoString) (\<lambda>echoStringLen.
           if ECHOMAX < echoStringLen then Inr (client_exit ''Echo word too long'')
           else if c_socket env < 0 then Inr (client_exit [])
           else seqE (mem_block echoString 0 echoStringLen) (\<lambda>d.
             let dg = \<lparr>to_addr = inet_addr env servIP, to_port = htons echoServPort, payload = d\<rparr>
             in if c_sendto env dg \<noteq> int echoStringLen then Inr (client_exit [])
                else Inr \<lparr>c_status = 0, c_out = [], c_sent = [dg]\<rparr>))))"

section \<open>The server\<close>

datatype udp_event = UdpFailed | Udp u32 "u8 list"

record server_env =
  v_socket :: int
  v_bind :: "u32 \<Rightarrow> u16 \<Rightarrow> int"

text \<open>The exit status, \<open>None\<close> while the server runs, and the text it printed.\<close>

record server_run =
  v_status :: "int option"
  v_out :: string


fun udp_server_loop :: "udp_event list \<Rightarrow> u8 list \<Rightarrow> string \<Rightarrow> server_run outcome" where
  "udp_server_loop [] echoBuffer out = Inr \<lparr>v_status = None, v_out = out\<rparr>"
| "udp_server_loop (UdpFailed # es) echoBuffer out = Inr \<lparr>v_status = Some 1, v_out = out\<rparr>"
| "udp_server_loop (Udp sin_addr bs # es) echoBuffer out =
     (let echoBuffer = recv_into ECHOMAX bs echoBuffer;
          out = out @ ''Recebi do cliente '' @ inet_ntoa sin_addr @ nl
      in seqE (c_string echoBuffer) (\<lambda>s.
         udp_server_loop es echoBuffer (out @ ''Mensagem: '' @ text_of s @ nl)))"

definition udp_server_main ::
  "server_env \<Rightarrow> u8 list \<Rightarrow> udp_event list \<Rightarrow> u8 list list \<Rightarrow> server_run outcome" where
  "udp_server_main env echoBuffer es argv =
     (if length argv \<noteq> 2 then Inr \<lparr>v_status = Some 1, v_out = []\<rparr>
      else (let echoServPort = (word_of_int (atoi (argv ! 1)) :: u16)
        in if v_socket env < 0 then Inr \<lparr>v_status = Some 1, v_out = []\<rparr>
           else if v_bind env (htonl INADDR_ANY) (htons echoServPort) < 0
           then Inr \<lparr>v_status = Some 1, v_out = []\<rparr>
           else udp_server_loop es echoBuffer []))"

section \<open>Numbers\<close>

definition number_arg :: "nat \<Rightarrow> u8 list" where
  "number_arg n = map of_char (dec_str n)"

lemma of_char_digit:
  assumes "d < 10"
  shows "(of_char (digit d) :: u8) = of_nat (48 + d)"
proof -
  have "d = 0 \<or> d = 1 \<or> d = 2 \<or> d = 3 \<or> d = 4 \<or> d = 5 \<or> d = 6 \<or> d = 7 \<or> d = 8 \<or> d = 9"
    using assms by presburger
  then show ?thesis by (elim disjE; simp add: digit_def)
qed

lemma digit_byte:
  assumes "d < 10"
  shows "is_digit (of_nat (48 + d))" and "unat (of_nat (48 + d) :: u8) = 48 + d"
proof -
  show u: "unat (of_nat (48 + d) :: u8) = 48 + d" using assms by (intro unat_of_nat_u8) simp
  then show "is_digit (of_nat (48 + d))"
    using assms by (simp only: is_digit_def word_le_nat_alt) simp
qed

lemma number_arg_digits:
  "(\<forall>b \<in> set (number_arg n). is_digit b) \<and> number_arg n \<noteq> [] \<and>
   foldl (\<lambda>v b. v * 10 + int (unat b - 48)) 0 (number_arg n) = int n"
proof (induction n rule: less_induct)
  case (less n)
  show ?case
  proof (cases "n < 10")
    case True
    then have "number_arg n = [of_nat (48 + n)]"
      by (simp add: number_arg_def dec_str_def num_str.simps of_char_digit)
    then show ?thesis using digit_byte [OF True] by (simp del: of_nat_add)
  next
    case False
    then have "number_arg n = number_arg (n div 10) @ [of_nat (48 + n mod 10)]"
      by (subst (1) number_arg_def, subst dec_str_def, subst num_str.simps)
        (simp add: number_arg_def dec_str_def of_char_digit)
    moreover have "int (n div 10) * 10 + int (n mod 10) = int n" by presburger
    ultimately show ?thesis
      using less [of "n div 10"] digit_byte [of "n mod 10"] False by (simp del: of_nat_add)
  qed
qed

lemma strtol10_number: "strtol10 (number_arg n) = int n"
proof -
  let ?s = "number_arg n"
  have dig: "\<forall>b \<in> set ?s. is_digit b" and "?s \<noteq> []"
    using number_arg_digits [of n] by auto
  then obtain c r where s: "?s = c # r" by (cases ?s) auto
  then have "is_digit c" using dig by simp
  then have "48 \<le> unat c" by (simp add: is_digit_def word_le_nat_alt)
  then have "c \<noteq> 45" "c \<noteq> 43" "c \<noteq> 32" "\<not> c \<le> 13" by (auto simp: word_le_nat_alt)
  moreover have "takeWhile is_digit ?s = ?s" using dig by (rule takeWhile_eq_all_conv [THEN iffD2])
  then have "digits_val (c # r) = int n"
    using number_arg_digits [of n] s by (simp only: digits_val_def)
  ultimately show ?thesis by (simp add: strtol10_def s)
qed

lemma atoi_number: "n < 2 ^ 31 \<Longrightarrow> atoi (number_arg n) = int n"
  by (simp add: atoi_def strtol10_number)

section \<open>What the client sends\<close>

definition word_datagram :: "client_env \<Rightarrow> u8 list \<Rightarrow> nat \<Rightarrow> u8 list \<Rightarrow> udp_datagram" where
  "word_datagram env ip port w =
     \<lparr>to_addr = inet_addr env ip, to_port = htons (word_of_int (atoi (number_arg port))), payload = w\<rparr>"

lemma client_result:
  assumes "0 \<notin> set w"
  shows "udp_client_main env [prog, ip, number_arg port, w] =
    Inr (if ECHOMAX < length w then client_exit ''Echo word too long''
      else if c_socket env < 0 \<or> c_sendto env (word_datagram env ip port w) \<noteq> int (length w)
      then client_exit []
      else \<lparr>c_status = 0, c_out = [], c_sent = [word_datagram env ip port w]\<rparr>)"
  using c_strlen_terminated [OF assms, of "[]"]
  by (simp add: udp_client_main_def mem_block_def word_datagram_def)

lemma st16_of_nat: "st16 (htons (of_nat n)) = [of_nat (n div 256), of_nat n]"
proof -
  have "(ucast (of_nat n :: u16) :: u8) = of_nat n"
    by (rule bit_word_eqI) (simp add: bit_simps)
  moreover have "(ucast (drop_bit 8 (of_nat n :: u16)) :: u8) = of_nat (drop_bit 8 n)"
    by (rule bit_word_eqI) (simp add: bit_simps)
  moreover have "n div 256 = drop_bit 8 n" by (simp add: drop_bit_eq_div)
  ultimately have "rev (st16 (of_nat n)) = [of_nat (n div 256), of_nat n]"
    by (simp only: st16_def rev.simps append.simps)
  then show ?thesis by (simp only: n16.store_hton)
qed

lemma port_wraps: "(of_nat (port + 65536) :: u16) = of_nat port"
proof -
  have "unat (of_nat (port + 65536) :: u16) = unat (of_nat port :: u16)"
    by (simp only: unat_of_nat take_bit_eq_mod) simp
  then show ?thesis by (rule unsigned_word_eqI)
qed

lemma word_port: "port < 2 ^ 31 \<Longrightarrow> to_port (word_datagram env ip port w) = htons (of_nat port)"
  by (simp add: word_datagram_def atoi_number)

text \<open>
  C36. The client, for a word on the command line and a port number that an \<open>int\<close>
  can hold: a word of more than 255 bytes is refused; otherwise the word goes out as one datagram
  without its terminating zero, to the port number modulo 65536 with its high byte first: a port
  beyond 65535 is not refused. No answer is awaited: the program ends with status 0 once
  \<open>sendto\<close> has taken the whole word, and with status 1 and nothing printed when the
  socket or \<open>sendto\<close> fails.
\<close>

theorem client_sends_word:
  assumes "0 \<notin> set w" and "port < 2 ^ 31"
  shows "udp_client_main env [prog, ip, number_arg port, w] =
    Inr (if ECHOMAX < length w then client_exit ''Echo word too long''
      else if c_socket env < 0 \<or> c_sendto env (word_datagram env ip port w) \<noteq> int (length w)
      then client_exit []
      else \<lparr>c_status = 0, c_out = [], c_sent = [word_datagram env ip port w]\<rparr>) \<and>
    st16 (to_port (word_datagram env ip port w)) = [of_nat (port div 256), of_nat port] \<and>
    (port + 65536 < 2 ^ 31 \<longrightarrow>
      to_port (word_datagram env ip (port + 65536) w) = to_port (word_datagram env ip port w))"
proof -
  have "st16 (to_port (word_datagram env ip port w)) = [of_nat (port div 256), of_nat port]"
    unfolding word_port [OF assms(2)] by (rule st16_of_nat)
  moreover have "to_port (word_datagram env ip (port + 65536) w) = to_port (word_datagram env ip port w)"
    if "port + 65536 < 2 ^ 31"
    by (simp only: word_port [OF that] word_port [OF assms(2)] port_wraps)
  ultimately show ?thesis using client_result [OF assms(1)] by blast
qed

section \<open>What the server shows\<close>

text \<open>
  The buffer after a datagram: its bytes over those of the datagrams before.
\<close>

definition overlay :: "u8 list \<Rightarrow> u8 list \<Rightarrow> u8 list" where
  "overlay w old = w @ drop (length w) old"

definition server_line :: "u32 \<Rightarrow> u8 list \<Rightarrow> string" where
  "server_line a s = ''Recebi do cliente '' @ inet_ntoa a @ nl @ ''Mensagem: '' @ text_of s @ nl"

fun shown :: "(u32 \<times> u8 list) list \<Rightarrow> u8 list \<Rightarrow> string" where
  "shown [] old = []"
| "shown ((a, w) # ms) old = server_line a (overlay w old) @ shown ms (overlay w old)"

lemma overlay_buffer:
  assumes "length w < ECHOMAX" and "length old < ECHOMAX"
  shows "recv_into ECHOMAX w (old @ replicate (ECHOMAX - length old) 0) =
    overlay w old @ replicate (ECHOMAX - length (overlay w old)) 0"
  using assms by (auto simp: recv_into_short overlay_def)

lemma server_shows:
  assumes "\<forall>(a, w) \<in> set ms. 0 \<notin> set w \<and> length w < ECHOMAX" and "0 \<notin> set old" and "length old < ECHOMAX"
  shows "udp_server_loop (map (\<lambda>(a, w). Udp a w) ms) (old @ replicate (ECHOMAX - length old) 0) out =
    Inr \<lparr>v_status = None, v_out = out @ shown ms old\<rparr>"
  using assms
proof (induction ms arbitrary: old out)
  case (Cons m ms)
  obtain a w where m: "m = (a, w)" by (cases m)
  let ?o = "overlay w old"
  have o: "0 \<notin> set ?o" "length ?o < ECHOMAX"
    using Cons.prems m by (auto simp: overlay_def dest: in_set_dropD)
  obtain k where "ECHOMAX - length ?o = Suc k" using o(2) by (metis Suc_diff_Suc)
  then have "c_string (?o @ replicate (ECHOMAX - length ?o) 0) = Inr ?o"
    by (simp add: c_string_terminated [OF o(1)])
  moreover have "recv_into ECHOMAX w (old @ replicate (ECHOMAX - length old) 0) =
      ?o @ replicate (ECHOMAX - length ?o) 0"
    using Cons.prems m by (intro overlay_buffer) auto
  ultimately show ?case
    using Cons.IH [of ?o] Cons.prems(1) o m by (simp add: server_line_def)
qed simp

text \<open>
  C24. The server, started with a buffer of zeros, for words of fewer than 255 bytes: it prints for
  every datagram the sender's address and the bytes of the buffer, where a word covers only the
  start of the longer words before it. So a word is shown as sent exactly while none before it was
  longer, and otherwise with the end of an earlier client's word behind it.
\<close>

theorem server_shows_overlay:
  assumes "\<forall>(a, w) \<in> set ms. 0 \<notin> set w \<and> length w < ECHOMAX"
  shows "udp_server_loop (map (\<lambda>(a, w). Udp a w) ms) (replicate ECHOMAX 0) out =
      Inr \<lparr>v_status = None, v_out = out @ shown ms []\<rparr> \<and>
    (\<forall>w old. overlay w old = w \<longleftrightarrow> length old \<le> length w)"
  using server_shows [OF assms, of "[]" out] by (auto simp: overlay_def ECHOMAX_def)

text \<open>
  C38. The limit is one byte off: the client accepts a word of 255 bytes, which fills the server's
  buffer without a terminating zero, and the server then reads behind it, whatever it
  received before.
\<close>

theorem longest_word_overreads:
  assumes "0 \<notin> set w" and "length w = 255" and "length echoBuffer = 255"
    and "0 \<le> c_socket env" and "c_sendto env (word_datagram env ip port w) = 255"
  shows "\<exists>r. udp_client_main env [prog, ip, number_arg port, w] = Inr r \<and>
    map payload (c_sent r) = [w] \<and>
    udp_server_loop (map (Udp a) (map payload (c_sent r)) @ es) echoBuffer out = Inl BadRead"
  using assms client_result [OF assms(1), of env prog ip port]
  by (simp add: c_consts word_datagram_def recv_into_short c_string_unterminated)

section \<open>Instances\<close>

definition sample_client :: client_env where
  "sample_client = \<lparr>inet_addr = (\<lambda>s. 0x0100007F), c_socket = 3, c_sendto = (\<lambda>d. int (length (payload d)))\<rparr>"

theorem client_sends_word_witness:
  "udp_client_main sample_client [[99], [49], number_arg 70000, [111, 105]] =
     Inr \<lparr>c_status = 0, c_out = [], c_sent = [\<lparr>to_addr = 0x0100007F, to_port = htons 4464, payload = [111, 105]\<rparr>]\<rparr>"
proof -
  have "(word_of_int (atoi (number_arg 70000)) :: u16) = 4464"
    using atoi_number [of 70000] port_wraps [of 4464] by simp
  then show ?thesis
    using client_sends_word [of "[111, 105]" 70000 sample_client "[99]" "[49]"]
    by (simp add: sample_client_def word_datagram_def c_consts)
qed

theorem server_shows_overlay_witness:
  "udp_server_loop [Udp 1 [97, 98, 99], Udp 2 [120]] (replicate ECHOMAX 0) [] =
     Inr \<lparr>v_status = None, v_out = server_line 1 [97, 98, 99] @ server_line 2 [120, 98, 99]\<rparr>"
  using server_shows_overlay [of "[(1, [97, 98, 99]), (2, [120])]" "[]"]
  by (simp add: overlay_def c_consts)

theorem longest_word_overreads_witness:
  "udp_server_loop [Udp 1 (replicate 255 97)] (replicate 255 0) [] = Inl BadRead"
proof -
  obtain r where "udp_client_main sample_client [[99], [49], number_arg 7, replicate 255 97] = Inr r"
      "map payload (c_sent r) = [replicate 255 97]"
      "udp_server_loop (map (Udp 1) (map payload (c_sent r)) @ []) (replicate 255 0) [] = Inl BadRead"
    using longest_word_overreads [of "replicate 255 97" "replicate 255 0" sample_client "[49]" 7 "[99]"
      1 "[]" "[]"]
    by (auto simp: sample_client_def word_datagram_def)
  then show ?thesis by simp
qed

end
