(* ===== verification/Spec2Isabelle.thy ===== *)
theory Spec2Isabelle
  imports Tf_Console Tf_Clients Arp_Console Arp_Poison Raw_Arp Udp_Echo
begin

text \<open>
  NetworkLaboratory: network laboratory programs in C.

  \<^bold>\<open>The programs.\<close> \<open>TF/\<close> is one process with three threads: a DHCP server that answers the
  hosts of the local network with the machine itself as router
  (\<open>init_DHCP_server\<close> in \<open>TF/Application.c\<close>, messages in \<open>TF/dhcp.c\<close>, remembered addresses in
  \<open>TF/ippool.c\<close>), a sniffer that takes the URLs and the DNS names out of the traffic
  (\<open>init_sniffer\<close>, frames from \<open>TF/ethernet.c\<close>, URLs by \<open>TF/http.c\<close>) and a thread that writes
  them to \<open>urls.htm\<close> (\<open>init_url_thread\<close>). \<open>T1/Old/\<close> is the ARP program: it asks for two hardware
  addresses and then keeps sending replies that bind each host's IP address to its own hardware
  address, while a second thread prints ARP packages. \<open>T1/\<close> itself holds a rewrite of it on
  \<open>ethernet.c\<close>, unfinished: it lists frames and sends nothing. \<open>TF/UDP/\<close> has an echo client and an echo
  server, and \<open>T1/Specification&InitialSource/\<close> three programs on raw sockets: one that sends a
  typed line in an Ethernet frame, one that shows it, and one that shows ARP packages.

  \<^bold>\<open>Theories.\<close>
  \<^item> \<open>NetLab_Prelude\<close>: C's integer types as words, error values, sequencing, list and word lemmas.
  \<^item> \<open>C_Memory\<close>: objects as byte lists, loads, copies, \<open>strlen\<close>, \<open>strstr\<close>, \<open>strcpy\<close>, \<open>strncpy\<close>, the
    string \<open>%s\<close> prints, integers in memory on a little-endian host, \<open>htons\<close>/\<open>htonl\<close>. The locale
    \<open>byte_order\<close> has the laws of the conversions and is interpreted for 16 and 32 bits (\<open>n16\<close>, \<open>n32\<close>).
  \<^item> \<open>C_Print\<close>: \<open>%u\<close>, \<open>%x\<close>, \<open>%02x\<close> and the loops that print addresses, and that a printout
    determines what it prints. \<open>Net_Calls\<close>: what \<open>recv\<close> gives and stores, and \<open>inet_ntoa\<close>.
  \<^item> \<open>Util_Flags\<close>: \<open>TF/util.c\<close> and \<open>T1/util.c\<close>, with \<open>getopt\<close>.
  \<^item> \<open>Ip_Pool\<close>: \<open>TF/ippool.c\<close>, its two variables as the record \<open>ippool_state\<close>. The locale
    \<open>addr_pool\<close> is the contract the server relies on, interpreted on the code's table (\<open>pool\<close>).
  \<^item> \<open>Dhcp_Header\<close>: \<open>dhcp_hdr\<close> of \<open>TF/dhcp.h\<close>, its 548 bytes, \<open>set_dhcp_hdr_from_bytes\<close> and
    \<open>set_bytes_from_dhcp_hdr\<close>.
  \<^item> \<open>Dhcp_Options\<close>: \<open>dhcp_opt\<close>, \<open>set_dhcp_opt_from_dhcp_hdr\<close> (the reader) and
    \<open>set_dhcp_hdr_from_dhcp_opt\<close> (the writer). The reader's loop may run for ever, so it is a
    \<open>partial_function (option)\<close> and \<open>None\<close> is a loop that does not end.
  \<^item> \<open>Dhcp_Reader\<close>, \<open>Dhcp_Writer\<close>: what the two do, over option items and their encoding; when the
    reader ends; that what is written is read back, and which fields are not.
  \<^item> \<open>Dhcp_Server\<close>: \<open>wait_dhcp_hdr\<close>, \<open>send_dhcp_hdr\<close>, \<open>get_cur_ip\<close> and the \<open>switch\<close> of
    \<open>init_DHCP_server\<close> with a definition for each message that is answered; the state is the
    record \<open>dhcp_srv\<close>, the sockets are the records \<open>recv_env\<close> and \<open>send_env\<close>.
  \<^item> \<open>Dhcp_Leases\<close>: an abstract server, a counter and a table from keys to addresses, and that the
    thread refines it; \<open>Dhcp_Properties\<close>: which addresses clients get, and which packets end
    the thread.
  \<^item> \<open>Eth_Frame\<close>: \<open>TF/ethernet.c\<close>; \<open>App_Init\<close>: \<open>init\<close> of \<open>TF/Application.c\<close>.
  \<^item> \<open>Http_Url\<close>: \<open>TF/http.c\<close>; \<open>Sniffer\<close>: the body of the loop of \<open>init_sniffer\<close> and
    \<open>append_url_to_file\<close>.
  \<^item> \<open>Url_Log\<close>: the sniffer and the writer as a step relation on the variables they share. A
    byte is stored or loaded per step. The file is opened for appending: \<open>lines_added\<close> are the lines of the
    run, and \<open>urls_htm\<close> is the text of the file, with what it held before in front. The locale \<open>kept\<close> (an invariant of a step relation) is
    interpreted for six invariants, and \<open>sniffer_refines_log\<close> ties the steps to \<open>sniff_frame\<close>.
  \<^item> \<open>Tf_Program\<close>: \<open>main\<close> of \<open>TF/Application.c\<close> and the loop of the sniffer, and what a whole run gives:
    from the interface of the host to the addresses of the clients and the URLs saved. Its
    \<open>traffic\<close> is what the device delivers, read by read: page requests, look-ups, failed reads, and packets of
    any other kind that ask for nothing.
  \<^item> \<open>Dhcp_Console\<close>, \<open>Tf_Console\<close>: the functions of \<open>TF/Application.c\<close> with all they print, that the
    text changes nothing of what they do, and what the text tells. \<open>Tf_Process\<close>: the DHCP thread
    and the sniffer in one process, interleaved round by round, with \<open>exit\<close>, faults and a hung thread;
    \<open>Tf_Clients\<close>: which client a saved URL belongs to.
  \<^item> \<open>Arp_Package\<close>: \<open>T1/Old/Arp.c\<close>, \<open>Arp.h\<close>, \<open>Ethernet.c\<close>; \<open>Arp_Network\<close>: \<open>T1/Old/Network.c\<close>;
    \<open>Arp_Attack\<close>: \<open>T1/Old/Application.c\<close>, and \<open>Arp_Console\<close> the same program with all it prints and
    with \<open>exit\<close> through \<open>cleanUp\<close>. \<open>Arp_Poison\<close>: \<open>arp.c\<close>, \<open>ethernet.c\<close> and \<open>Application.c\<close> of \<open>T1/\<close>.
  \<^item> \<open>Raw_Message\<close>: \<open>sender.c\<close> and \<open>receptor.c\<close>; \<open>Raw_Arp\<close>: \<open>raw_eth_recv.c\<close>; \<open>Udp_Echo\<close>: \<open>udp_client.c\<close>
    and \<open>udp_server.c\<close>.

  \<^bold>\<open>How code is modelled.\<close> A struct that is copied as a whole is a record with its object
  representation; a buffer is the list of its bytes. An access outside an object is
  \<open>Inl BadRead\<close> or \<open>Inl BadWrite\<close>, and \<open>exit\<close> after an error is \<open>Inl (ExitFailure _)\<close> or, where text was
  printed before, a result with its status. What the operating system gives (interfaces, sockets,
  devices, received bytes, what lies in memory that is not initialised) is an argument. The
  address fields keep the byte order they have in memory, as in the program.

  \<^bold>\<open>What the lemmas show.\<close> The encodings are inverse to their readers where they are, and the
  theorems say exactly where they are not. On every run of packets whose sends succeed the DHCP thread
  sends what the lease table sends: message, client and address of each reply. From this follow the
  addresses clients get: distinct for clients that finish one after the other, shared for
  clients that overlap. The reader hangs
  or faults exactly on the inputs described. In traffic of every kind the sniffer saves each page request and
  name look-up of the form described, and nothing but requests, under the source address of their
  packet, and one malformed look-up makes it leave its array; the thread that writes the file may lose, repeat
  or misattribute them or tear one while the next is stored, but every character it adds is one of a
  captured URL, it never loses the last, and when the threads take turns it loses none. The output level changes what is printed and nothing else; the server prints one line for
  each datagram, and in quiet mode the console of the sniffer tells exactly the URLs saved. A hung server
  leaves the sniffer running, an exit of the server stops it; that the two threads otherwise do not
  disturb each other is not a result but a property of the model, in which they share no variable. Put together, the log tells
  clients apart that got their addresses one after the other, and cannot tell those apart whose
  handshakes overlapped. The ARP program sends exactly the frames of the attack,
  and its printing thread sees none of them; it never ends with status 0, and the last line it
  prints is the message of the step that failed. A line typed at the sender is what the receptor
  shows; that program and the echo server print bytes an earlier message left in the buffer when
  the last one is not terminated, and the theorems say which.

  \<^bold>\<open>Bounds.\<close> The endless loops of the programs are functions of what arrives: the lists of
  received packets of \<open>init_DHCP_server\<close>, \<open>receive_loop\<close>, \<open>arpSnifferLoop\<close>, \<open>init_sniffer\<close>,
  \<open>receptor_loop\<close>, \<open>raw_eth_recv_loop\<close>, \<open>udp_server_loop\<close> and \<open>t1_main\<close>, and the theorems hold for
  every list; \<open>process_run\<close> takes every list of events, and
  \<open>attack_main\<close>, which sends without waiting, takes the number of its rounds. The
  loops that may not end on their own are total functions (\<open>flags_loop\<close>, \<open>dns_name_loop\<close>) or a
  \<open>partial_function (option)\<close> (\<open>read_options\<close>). No fuel is used.

  \<^bold>\<open>Not modelled.\<close> The shell command that turns on forwarding, and what \<open>perror\<close> prints on the
  error stream where the program goes on.
  \<open>Arp.c\<close>, \<open>Ethernet.c\<close> and \<open>Util.c\<close> of \<open>T1/\<close> are copies of \<open>arp.c\<close>, \<open>ethernet.c\<close> and \<open>util.c\<close> under
  names that differ in case, byte for byte. \<open>wait_eth_frame\<close> and the print functions of \<open>T1/ethernet.c\<close> are those
  of \<open>TF/ethernet.c\<close>, word for word, and have the definitions of \<open>Eth_Frame\<close>. A signal is taken
  while the program of \<open>T1/\<close> waits for a frame, not inside \<open>printf\<close>. The threads of
  \<open>Url_Log\<close> access the shared array one byte at a time and in order; a library whose string
  functions move words, or read a string twice, has further interleavings. \<open>inet_ntoa\<close> is a function of
  the address: where its buffer is shared by the threads, as on BSD systems, the sniffer and the writer
  may overwrite each other's text, in the file and on the console. That \<open>SIGINT\<close> calls its handler is
  assumed, although \<open>T1/Application.c\<close> leaves mask and flags of \<open>sigaction\<close> uninitialised. \<open>atoi\<close> of a
  number outside \<open>int\<close>, which C leaves open, is \<open>strtol\<close> cut to 32 bits, and the theorem on ports excludes
  it. The code reads every IPv4 header as 20 bytes long; the theorems that say a request is saved
  are about headers without options, and about the first packet of each \<open>read\<close>, since the code drops the others.
\<close>

end
